(* ===== verification/Prelude.thy ===== *)
theory Prelude
  imports Main "HOL-Library.AList" "HOL-Library.List_Lexorder" "HOL-Library.Char_ord"
begin

text \<open>
  Shared vocabulary of the development: Rust's \<^verbatim>\<open>str\<close> operations on UTF-8 byte strings,
  decimal printing and parsing, 64-bit signed wrap-around, and association lists that stand for
  \<^verbatim>\<open>HashMap\<close>s (the order of the list stands for the map's unspecified iteration order).

  A Rust \<^verbatim>\<open>String\<close> is its UTF-8 byte sequence, a HOL \<^typ>\<open>string\<close> (a list of 8-bit characters):
  \<^verbatim>\<open>len()\<close> is \<^const>\<open>length\<close> and the byte order of the model is the order of \<^verbatim>\<open>str::cmp\<close>.
  \<^verbatim>\<open>trim\<close>, \<^verbatim>\<open>char::is_whitespace\<close> and \<^verbatim>\<open>char::is_control\<close> are the Unicode operations, written on
  the UTF-8 encodings of the characters concerned. \<^verbatim>\<open>to_lowercase\<close> maps the ASCII letters and the
  two other characters whose lower case contains an ASCII letter (KELVIN SIGN and LATIN CAPITAL
  LETTER I WITH DOT ABOVE); other letters are left alone, which no comparison of the program can
  observe, since it compares lower-cased text with ASCII literals only.
\<close>

section \<open>Prefixes, suffixes, substrings\<close>

fun strip_prefix :: "string \<Rightarrow> string \<Rightarrow> string option" where
  "strip_prefix [] s = Some s"
| "strip_prefix (p # ps) [] = None"
| "strip_prefix (p # ps) (c # cs) = (if p = c then strip_prefix ps cs else None)"

definition strip_suffix :: "string \<Rightarrow> string \<Rightarrow> string option" where
  "strip_suffix p s = map_option rev (strip_prefix (rev p) (rev s))"

definition starts_with :: "string \<Rightarrow> string \<Rightarrow> bool" where
  "starts_with p s \<longleftrightarrow> strip_prefix p s \<noteq> None"

definition ends_with :: "string \<Rightarrow> string \<Rightarrow> bool" where
  "ends_with p s \<longleftrightarrow> strip_suffix p s \<noteq> None"

fun contains :: "string \<Rightarrow> string \<Rightarrow> bool" where
  "contains p [] \<longleftrightarrow> p = []"
| "contains p (c # cs) \<longleftrightarrow> starts_with p (c # cs) \<or> contains p cs"

text \<open>\<^verbatim>\<open>str::find(char)\<close>: the text before the first occurrence and the text after it.\<close>

fun split_once :: "char \<Rightarrow> string \<Rightarrow> (string \<times> string) option" where
  "split_once d [] = None"
| "split_once d (c # cs) =
     (if c = d then Some ([], cs)
      else map_option (\<lambda>(a, b). (c # a, b)) (split_once d cs))"

text \<open>\<^verbatim>\<open>str::split(char)\<close>: always at least one piece.\<close>

fun split_on :: "char \<Rightarrow> string \<Rightarrow> string list" where
  "split_on d [] = [[]]"
| "split_on d (c # cs) =
     (case split_on d cs of
        [] \<Rightarrow> [[c]]
      | w # ws \<Rightarrow> if c = d then [] # w # ws else (c # w) # ws)"

fun join :: "string \<Rightarrow> string list \<Rightarrow> string" where
  "join sep [] = []"
| "join sep [x] = x"
| "join sep (x # y # zs) = x @ sep @ join sep (y # zs)"

section \<open>White space, control characters, lower case\<close>

text \<open>The UTF-8 encodings of Unicode's \<^verbatim>\<open>White_Space\<close> characters.\<close>

definition ws_seqs :: "string list" where
  "ws_seqs =
     [[CHR 0x09], [CHR 0x0A], [CHR 0x0B], [CHR 0x0C], [CHR 0x0D], [CHR 0x20],
      [CHR 0xC2, CHR 0x85], [CHR 0xC2, CHR 0xA0], [CHR 0xE1, CHR 0x9A, CHR 0x80],
      [CHR 0xE2, CHR 0x80, CHR 0x80], [CHR 0xE2, CHR 0x80, CHR 0x81], [CHR 0xE2, CHR 0x80, CHR 0x82],
      [CHR 0xE2, CHR 0x80, CHR 0x83], [CHR 0xE2, CHR 0x80, CHR 0x84], [CHR 0xE2, CHR 0x80, CHR 0x85],
      [CHR 0xE2, CHR 0x80, CHR 0x86], [CHR 0xE2, CHR 0x80, CHR 0x87], [CHR 0xE2, CHR 0x80, CHR 0x88],
      [CHR 0xE2, CHR 0x80, CHR 0x89], [CHR 0xE2, CHR 0x80, CHR 0x8A], [CHR 0xE2, CHR 0x80, CHR 0xA8],
      [CHR 0xE2, CHR 0x80, CHR 0xA9], [CHR 0xE2, CHR 0x80, CHR 0xAF], [CHR 0xE2, CHR 0x81, CHR 0x9F],
      [CHR 0xE3, CHR 0x80, CHR 0x80]]"

fun strip_any :: "string list \<Rightarrow> string \<Rightarrow> string option" where
  "strip_any [] s = None"
| "strip_any (p # ps) s =
     (case strip_prefix p s of Some r \<Rightarrow> Some r | None \<Rightarrow> strip_any ps s)"

lemma strip_prefix_Some: "strip_prefix p s = Some r \<longleftrightarrow> s = p @ r"
  by (induction p s rule: strip_prefix.induct) auto

lemma strip_prefix_append [simp]: "strip_prefix p (p @ s) = Some s"
  by (simp add: strip_prefix_Some)

lemma strip_any_Some: "strip_any ps s = Some r \<Longrightarrow> \<exists>p \<in> set ps. s = p @ r"
  by (induction ps) (auto simp: strip_prefix_Some split: option.splits)

lemma ws_seqs_nonempty: "[] \<notin> set ws_seqs"
  by (simp add: ws_seqs_def)

lemma strip_any_ws_length: "strip_any ws_seqs s = Some r \<Longrightarrow> length r < length s"
  by (metis strip_any_Some ws_seqs_nonempty length_append length_greater_0_conv less_add_same_cancel2)

lemma strip_any_rev_ws_length:
  "strip_any (map rev ws_seqs) s = Some r \<Longrightarrow> length r < length s"
proof -
  assume "strip_any (map rev ws_seqs) s = Some r"
  then obtain p where "p \<in> set (map rev ws_seqs)" "s = p @ r"
    using strip_any_Some by blast
  moreover from this have "p \<noteq> []" using ws_seqs_nonempty by auto
  ultimately show ?thesis by simp
qed

function trim_start :: "string \<Rightarrow> string" where
  "trim_start s = (case strip_any ws_seqs s of None \<Rightarrow> s | Some r \<Rightarrow> trim_start r)"
  by pat_completeness auto
termination
  by (relation "measure length") (auto dest: strip_any_ws_length)

function trim_rev :: "string \<Rightarrow> string" where
  "trim_rev s = (case strip_any (map rev ws_seqs) s of None \<Rightarrow> s | Some r \<Rightarrow> trim_rev r)"
  by pat_completeness auto
termination
  by (relation "measure length") (auto dest: strip_any_rev_ws_length)

declare trim_start.simps [simp del] trim_rev.simps [simp del]

definition trim_end :: "string \<Rightarrow> string" where
  "trim_end s = rev (trim_rev (rev s))"

definition trim :: "string \<Rightarrow> string" where
  "trim s = trim_end (trim_start s)"

fun contains_any :: "string list \<Rightarrow> string \<Rightarrow> bool" where
  "contains_any ps [] \<longleftrightarrow> False"
| "contains_any ps (c # cs) \<longleftrightarrow> strip_any ps (c # cs) \<noteq> None \<or> contains_any ps cs"

definition has_whitespace :: "string \<Rightarrow> bool" where
  "has_whitespace s = contains_any ws_seqs s"

text \<open>\<^verbatim>\<open>char::is_control\<close> is Unicode's Cc: U+0000..U+001F, U+007F, and U+0080..U+009F (encoded C2 80..C2 9F).\<close>

fun has_control :: "string \<Rightarrow> bool" where
  "has_control [] \<longleftrightarrow> False"
| "has_control (c # cs) \<longleftrightarrow>
     of_char c < (0x20 :: nat) \<or> of_char c = (0x7F :: nat)
     \<or> (of_char c = (0xC2 :: nat)
        \<and> (case cs of [] \<Rightarrow> False | d # _ \<Rightarrow> (0x80 :: nat) \<le> of_char d \<and> of_char d \<le> (0x9F :: nat)))
     \<or> has_control cs"

definition ascii_lower :: "char \<Rightarrow> char" where
  "ascii_lower c =
     (if (0x41 :: nat) \<le> of_char c \<and> of_char c \<le> (0x5A :: nat) then char_of (of_char c + (0x20 :: nat)) else c)"

lemma strip_prefix_length: "strip_prefix p s = Some r \<Longrightarrow> length s = length p + length r"
  by (auto simp: strip_prefix_Some)

function to_lowercase :: "string \<Rightarrow> string" where
  "to_lowercase s =
     (case s of
        [] \<Rightarrow> []
      | c # cs \<Rightarrow>
          (case strip_prefix [CHR 0xE2, CHR 0x84, CHR 0xAA] s of
             Some r \<Rightarrow> CHR ''k'' # to_lowercase r
           | None \<Rightarrow>
               (case strip_prefix [CHR 0xC4, CHR 0xB0] s of
                  Some r \<Rightarrow> CHR ''i'' # CHR 0xCC # CHR 0x87 # to_lowercase r
                | None \<Rightarrow> ascii_lower c # to_lowercase cs)))"
  by pat_completeness auto
termination
proof (relation "measure length", goal_cases)
  case 1
  then show ?case by simp
next
  case (2 s c cs)
  then show ?case by simp
next
  case (3 s c cs r)
  then show ?case using strip_prefix_length [of _ s r] by fastforce
next
  case (4 s c cs r)
  then show ?case using strip_prefix_length [of _ s r] by fastforce
qed

declare to_lowercase.simps [simp del]

definition is_ascii_alphanumeric :: "char \<Rightarrow> bool" where
  "is_ascii_alphanumeric c \<longleftrightarrow>
     (let n = (of_char c :: nat) in
       (0x30 \<le> n \<and> n \<le> 0x39) \<or> (0x41 \<le> n \<and> n \<le> 0x5A) \<or> (0x61 \<le> n \<and> n \<le> 0x7A))"

text \<open>\<^verbatim>\<open>str::replace\<close> for a non-empty pattern.\<close>

function str_replace :: "string \<Rightarrow> string \<Rightarrow> string \<Rightarrow> string" where
  "str_replace p r [] = []"
| "str_replace p r (c # cs) =
     (case strip_prefix p (c # cs) of
        Some rest \<Rightarrow> if p = [] then c # cs else r @ str_replace p r rest
      | None \<Rightarrow> c # str_replace p r cs)"
  by pat_completeness auto
termination
  by (relation "measure (\<lambda>(p, r, s). length s)") (auto dest!: strip_prefix_length)

declare str_replace.simps(2) [simp del]

section \<open>Numbers\<close>

definition digit_char :: "nat \<Rightarrow> char" where
  "digit_char d = char_of (0x30 + d)"

definition digit_value :: "char \<Rightarrow> nat option" where
  "digit_value c =
     (let n = (of_char c :: nat) in if 0x30 \<le> n \<and> n \<le> 0x39 then Some (n - 0x30) else None)"

fun nat_to_string :: "nat \<Rightarrow> string" where
  "nat_to_string n =
     (if n < 10 then [digit_char n] else nat_to_string (n div 10) @ [digit_char (n mod 10)])"

declare nat_to_string.simps [simp del]

definition int_to_string :: "int \<Rightarrow> string" where
  "int_to_string i = (if i < 0 then CHR ''-'' # nat_to_string (nat (- i)) else nat_to_string (nat i))"

fun parse_digits :: "nat \<Rightarrow> string \<Rightarrow> nat option" where
  "parse_digits acc [] = Some acc"
| "parse_digits acc (c # cs) =
     (case digit_value c of None \<Rightarrow> None | Some d \<Rightarrow> parse_digits (acc * 10 + d) cs)"

definition parse_nat :: "string \<Rightarrow> nat option" where
  "parse_nat s = (if s = [] then None else parse_digits 0 s)"

text \<open>
  \<^verbatim>\<open>str::parse\<close> for an unsigned type with the given maximum: an optional \<^verbatim>\<open>+\<close>, at least one digit,
  no overflow; and for \<^verbatim>\<open>i64\<close>: an optional sign.
\<close>

definition parse_unsigned :: "nat \<Rightarrow> string \<Rightarrow> nat option" where
  "parse_unsigned mx s =
     (case (case s of c # r \<Rightarrow> if c = CHR ''+'' then parse_nat r else parse_nat s | [] \<Rightarrow> None) of
        Some n \<Rightarrow> if n \<le> mx then Some n else None
      | None \<Rightarrow> None)"

definition parse_u16 :: "string \<Rightarrow> nat option" where
  "parse_u16 = parse_unsigned 65535"

definition parse_u64 :: "string \<Rightarrow> nat option" where
  "parse_u64 = parse_unsigned (2 ^ 64 - 1)"

definition parse_i64 :: "string \<Rightarrow> int option" where
  "parse_i64 s =
     (case (case s of
              c # r \<Rightarrow> if c = CHR ''-'' then map_option (\<lambda>n. - int n) (parse_nat r)
                        else if c = CHR ''+'' then map_option int (parse_nat r)
                        else map_option int (parse_nat s)
            | [] \<Rightarrow> None) of
        Some i \<Rightarrow> if - (2 ^ 63) \<le> i \<and> i < 2 ^ 63 then Some i else None
      | None \<Rightarrow> None)"

text \<open>Two's complement wrap-around of \<^verbatim>\<open>i64\<close> arithmetic (release builds do not check it).\<close>

definition i64_wrap :: "int \<Rightarrow> int" where
  "i64_wrap x = (x + 2 ^ 63) mod 2 ^ 64 - 2 ^ 63"

section \<open>Maps as association lists\<close>

type_synonym ('k, 'v) hmap = "('k \<times> 'v) list"

abbreviation hm_get :: "('k, 'v) hmap \<Rightarrow> 'k \<Rightarrow> 'v option" where
  "hm_get m k \<equiv> map_of m k"

abbreviation hm_insert :: "'k \<Rightarrow> 'v \<Rightarrow> ('k, 'v) hmap \<Rightarrow> ('k, 'v) hmap" where
  "hm_insert k v m \<equiv> AList.update k v m"

abbreviation hm_remove :: "'k \<Rightarrow> ('k, 'v) hmap \<Rightarrow> ('k, 'v) hmap" where
  "hm_remove k m \<equiv> AList.delete k m"

abbreviation hm_keys :: "('k, 'v) hmap \<Rightarrow> 'k list" where
  "hm_keys m \<equiv> map fst m"

abbreviation hm_ok :: "('k, 'v) hmap \<Rightarrow> bool" where
  "hm_ok m \<equiv> distinct (map fst m)"

section \<open>Results\<close>

text \<open>Rust's \<^verbatim>\<open>Result<T, E>\<close> is \<open>'e + 't\<close>, with \<^const>\<open>Inl\<close> for \<^verbatim>\<open>Err\<close>.\<close>

definition bind_result :: "'e + 'a \<Rightarrow> ('a \<Rightarrow> 'e + 'b) \<Rightarrow> 'e + 'b" where
  "bind_result r f = (case r of Inl e \<Rightarrow> Inl e | Inr x \<Rightarrow> f x)"

definition result_ok :: "'e + 'a \<Rightarrow> 'a option" where
  "result_ok r = (case r of Inl _ \<Rightarrow> None | Inr x \<Rightarrow> Some x)"

definition opt_filter :: "('a \<Rightarrow> bool) \<Rightarrow> 'a option \<Rightarrow> 'a option" where
  "opt_filter p x = (case x of Some v \<Rightarrow> if p v then Some v else None | None \<Rightarrow> None)"

definition opt_or :: "'a option \<Rightarrow> 'a option \<Rightarrow> 'a option" where
  "opt_or a b = (case a of Some x \<Rightarrow> Some x | None \<Rightarrow> b)"

definition unwrap_or :: "'a option \<Rightarrow> 'a \<Rightarrow> 'a" where
  "unwrap_or x d = (case x of Some v \<Rightarrow> v | None \<Rightarrow> d)"

section \<open>Lemmas on strings\<close>

lemma bind_result_simps [simp]:
  "bind_result (Inl e) f = Inl e"
  "bind_result (Inr x) f = f x"
  by (simp_all add: bind_result_def)

lemma result_ok_simps [simp]:
  "result_ok (Inl e) = None"
  "result_ok (Inr x) = Some x"
  by (simp_all add: result_ok_def)

lemma opt_simps [simp]:
  "opt_filter p None = None"
  "opt_filter p (Some v) = (if p v then Some v else None)"
  "opt_or None b = b"
  "opt_or b None = b"
  "opt_or (Some a) b = Some a"
  "unwrap_or None d = d"
  "unwrap_or (Some v) d = v"
  by (simp_all add: opt_filter_def opt_or_def unwrap_or_def split: option.splits)

lemma opt_filter_eq_Some [simp]: "opt_filter p x = Some v \<longleftrightarrow> x = Some v \<and> p v"
  by (cases x) auto

lemma starts_with_iff: "starts_with p s \<longleftrightarrow> (\<exists>r. s = p @ r)"
  by (auto simp: starts_with_def strip_prefix_Some)

lemma starts_with_append [simp]: "starts_with p (p @ s)"
  by (auto simp: starts_with_iff)

lemma strip_suffix_Some: "strip_suffix p s = Some r \<longleftrightarrow> s = r @ p"
  by (auto simp: strip_suffix_def strip_prefix_Some) (metis rev_append rev_rev_ident)

lemma ends_with_iff: "ends_with p s \<longleftrightarrow> (\<exists>r. s = r @ p)"
  by (auto simp: ends_with_def strip_suffix_Some)

lemma contains_iff: "contains p s \<longleftrightarrow> (\<exists>a b. s = a @ p @ b)"
proof (induction s)
  case Nil
  then show ?case by auto
next
  case (Cons c cs)
  show ?case
  proof
    assume "contains p (c # cs)"
    then consider r where "c # cs = p @ r" | a b where "cs = a @ p @ b"
      using Cons by (auto simp: starts_with_iff)
    then show "\<exists>a b. c # cs = a @ p @ b"
    proof cases
      case (1 r)
      then show ?thesis by (intro exI [of _ "[]"] exI [of _ r]) simp
    next
      case (2 a b)
      then show ?thesis by (intro exI [of _ "c # a"] exI [of _ b]) simp
    qed
  next
    assume "\<exists>a b. c # cs = a @ p @ b"
    then obtain a b where ab: "c # cs = a @ p @ b" by blast
    show "contains p (c # cs)"
    proof (cases a)
      case Nil
      with ab have "starts_with p (c # cs)" by (auto simp: starts_with_iff)
      then show ?thesis by simp
    next
      case (Cons d ds)
      with ab Cons.IH show ?thesis by auto
    qed
  qed
qed

lemma split_once_Some: "split_once d s = Some (a, b) \<longleftrightarrow> s = a @ d # b \<and> d \<notin> set a"
proof (induction s arbitrary: a)
  case Nil
  then show ?case by simp
next
  case (Cons c cs)
  then show ?case by (cases a) auto
qed

lemma split_once_None: "split_once d s = None \<longleftrightarrow> d \<notin> set s"
  by (induction s) auto

lemma split_on_ne [simp]: "split_on d s \<noteq> []"
  by (induction s) (auto split: list.splits)

lemma split_on_no_sep: "w \<in> set (split_on d s) \<Longrightarrow> d \<notin> set w"
  by (induction s arbitrary: w) (auto split: list.splits if_splits)

lemma split_on_append: "d \<notin> set w \<Longrightarrow> split_on d (w @ d # s) = w # split_on d s"
  by (induction w) (auto split: list.splits)

lemma split_on_plain: "d \<notin> set w \<Longrightarrow> split_on d w = [w]"
  by (induction w) auto

lemma strip_any_append:
  "strip_any ps s \<noteq> None \<Longrightarrow> strip_any ps (s @ t) \<noteq> None"
  by (induction ps) (auto simp: strip_prefix_Some split: option.splits)

lemma trim_start_clean: "strip_any ws_seqs (trim_start s) = None"
  by (induction s rule: trim_start.induct) (subst trim_start.simps, auto split: option.splits)

lemma trim_start_id: "strip_any ws_seqs s = None \<Longrightarrow> trim_start s = s"
  by (subst trim_start.simps) simp

lemma trim_rev_clean: "strip_any (map rev ws_seqs) (trim_rev s) = None"
  by (induction s rule: trim_rev.induct) (subst trim_rev.simps, auto split: option.splits)

lemma trim_rev_id: "strip_any (map rev ws_seqs) s = None \<Longrightarrow> trim_rev s = s"
  by (subst trim_rev.simps) simp

lemma trim_rev_suffix: "\<exists>t. s = t @ trim_rev s"
proof (induction s rule: trim_rev.induct)
  case (1 s)
  show ?case
  proof (cases "strip_any (map rev ws_seqs) s")
    case None
    then show ?thesis by (simp add: trim_rev_id)
  next
    case (Some r)
    then obtain p t where "s = p @ r" "r = t @ trim_rev r"
      using strip_any_Some 1 by blast
    moreover have "trim_rev s = trim_rev r" using Some by (subst trim_rev.simps) simp
    ultimately have "s = (p @ t) @ trim_rev s" by simp
    then show ?thesis by blast
  qed
qed

lemma trim_end_prefix: "\<exists>t. s = trim_end s @ t"
proof -
  obtain t where "rev s = t @ trim_rev (rev s)" using trim_rev_suffix by blast
  then have "s = trim_end s @ rev t" unfolding trim_end_def by (metis rev_append rev_rev_ident)
  then show ?thesis by blast
qed

lemma trim_end_idem [simp]: "trim_end (trim_end s) = trim_end s"
  by (simp add: trim_end_def trim_rev_clean trim_rev_id)

lemma trim_start_trim_end [simp]: "trim_start (trim s) = trim s"
proof -
  obtain t where t: "trim_start s = trim s @ t"
    using trim_end_prefix [of "trim_start s"] by (auto simp: trim_def)
  have "strip_any ws_seqs (trim s) = None"
  proof (rule ccontr)
    assume "strip_any ws_seqs (trim s) \<noteq> None"
    then have "strip_any ws_seqs (trim_start s) \<noteq> None"
      using strip_any_append t by metis
    then show False by (simp add: trim_start_clean)
  qed
  then show ?thesis by (rule trim_start_id)
qed

lemma trim_idem [simp]: "trim (trim s) = trim s"
proof -
  have "trim (trim s) = trim_end (trim_start (trim s))" by (simp only: trim_def [of "trim s"])
  also have "\<dots> = trim_end (trim s)" by simp
  also have "\<dots> = trim s" by (simp add: trim_def)
  finally show ?thesis .
qed

lemma trim_Nil [simp]: "trim [] = []"
  by (simp add: trim_def trim_end_def trim_start.simps trim_rev.simps ws_seqs_def)

lemma trim_start_suffix: "\<exists>t. s = t @ trim_start s"
proof (induction s rule: trim_start.induct)
  case (1 s)
  show ?case
  proof (cases "strip_any ws_seqs s")
    case None
    then show ?thesis by (simp add: trim_start_id)
  next
    case (Some r)
    then obtain p t where "s = p @ r" "r = t @ trim_start r"
      using strip_any_Some 1 by blast
    moreover have "trim_start s = trim_start r" using Some by (subst trim_start.simps) simp
    ultimately have "s = (p @ t) @ trim_start s" by simp
    then show ?thesis by blast
  qed
qed

lemma trim_infix: "\<exists>a b. s = a @ trim s @ b"
proof -
  obtain a where "s = a @ trim_start s" using trim_start_suffix by blast
  moreover obtain b where "trim_start s = trim s @ b"
    using trim_end_prefix [of "trim_start s"] by (auto simp: trim_def)
  ultimately show ?thesis by metis
qed

lemma length_trim: "length (trim s) \<le> length s"
  using trim_infix [of s] by (metis le_add1 le_add2 le_trans length_append)

section \<open>Lemmas on numbers\<close>

lemma digit_value_char [simp]: "d < 10 \<Longrightarrow> digit_value (digit_char d) = Some d"
  by (simp add: digit_value_def digit_char_def Let_def)

lemma parse_digits_append:
  "parse_digits acc (xs @ ys) = Option.bind (parse_digits acc xs) (\<lambda>a. parse_digits a ys)"
  by (induction xs arbitrary: acc) (auto split: option.splits)

lemma parse_digits_nat_to_string:
  "parse_digits 0 (nat_to_string n) = Some n"
proof (induction n rule: nat_to_string.induct)
  case (1 n)
  show ?case
  proof (cases "n < 10")
    case True
    then show ?thesis by (subst nat_to_string.simps) simp
  next
    case False
    with 1 have "parse_digits 0 (nat_to_string (n div 10)) = Some (n div 10)" by simp
    with False show ?thesis
      by (subst nat_to_string.simps) (simp add: parse_digits_append)
  qed
qed

lemma nat_to_string_ne [simp]: "nat_to_string n \<noteq> []"
  by (subst nat_to_string.simps) simp

lemma parse_nat_to_string [simp]: "parse_nat (nat_to_string n) = Some n"
  by (simp add: parse_nat_def parse_digits_nat_to_string)

lemma nat_to_string_digits: "c \<in> set (nat_to_string n) \<Longrightarrow> \<exists>d<10. c = digit_char d"
proof (induction n rule: nat_to_string.induct)
  case (1 n)
  then show ?case
    by (subst (asm) (2) nat_to_string.simps) (auto split: if_splits intro: exI [of _ "n mod 10"])
qed

lemma digit_char_neq [simp]:
  "d < 10 \<Longrightarrow> digit_char d \<noteq> CHR ''+''"
  "d < 10 \<Longrightarrow> digit_char d \<noteq> CHR ''-''"
  by (auto simp: digit_char_def char_of_eq_iff take_bit_eq_mod)

lemma nat_to_string_hd:
  obtains c cs where "nat_to_string n = c # cs" "c \<noteq> CHR ''+''" "c \<noteq> CHR ''-''"
proof -
  obtain c cs where c: "nat_to_string n = c # cs" by (cases "nat_to_string n") auto
  then obtain d where "d < 10" "c = digit_char d"
    using nat_to_string_digits [of c n] by auto
  then show thesis using that c by auto
qed

lemma parse_unsigned_to_string [simp]:
  "n \<le> mx \<Longrightarrow> parse_unsigned mx (nat_to_string n) = Some n"
  using parse_nat_to_string [of n]
  by (rule_tac nat_to_string_hd [of n]) (auto simp: parse_unsigned_def simp del: parse_nat_to_string)

lemma parse_unsigned_bound: "parse_unsigned mx s = Some n \<Longrightarrow> n \<le> mx"
  by (auto simp: parse_unsigned_def split: option.splits if_splits)

lemma i64_wrap_id: "- (2 ^ 63) \<le> x \<Longrightarrow> x < 2 ^ 63 \<Longrightarrow> i64_wrap x = x"
  by (simp add: i64_wrap_def)

lemma i64_wrap_range: "- (2 ^ 63) \<le> i64_wrap x \<and> i64_wrap x < 2 ^ 63"
  by (simp add: i64_wrap_def)

section \<open>Lemmas on association lists\<close>

lemma hm_ok_insert [simp, intro]: "hm_ok m \<Longrightarrow> hm_ok (hm_insert k v m)"
  by (rule distinct_update)

lemma hm_ok_remove [simp, intro]: "hm_ok m \<Longrightarrow> hm_ok (hm_remove k m)"
  by (rule distinct_delete)

lemma hm_ok_filter [simp, intro]: "hm_ok m \<Longrightarrow> hm_ok (filter P m)"
  by (induction m) auto

lemma hm_get_insert [simp]: "hm_get (hm_insert k v m) k' = (if k' = k then Some v else hm_get m k')"
  by (simp add: update_conv')

lemma hm_get_remove [simp]: "hm_get (hm_remove k m) k' = (if k' = k then None else hm_get m k')"
  by (simp add: delete_conv')

lemma hm_get_filter:
  "hm_ok m \<Longrightarrow> hm_get (filter P m) k = (case hm_get m k of
      Some v \<Rightarrow> if P (k, v) then Some v else None | None \<Rightarrow> None)"
  by (induction m) (auto split: option.splits simp: map_of_eq_None_iff)

lemma hm_get_mem: "hm_ok m \<Longrightarrow> hm_get m k = Some v \<longleftrightarrow> (k, v) \<in> set m"
  by simp

section \<open>Interfaces shared by the components\<close>

text \<open>
  A component driven one operation at a time: whatever every operation keeps is kept by every run.
\<close>

locale machine =
  fixes exec :: "'op \<Rightarrow> 's \<Rightarrow> 's"
    and inv :: "'s \<Rightarrow> bool"
  assumes exec_inv: "inv s \<Longrightarrow> inv (exec op s)"
begin

lemma run_inv: "inv s \<Longrightarrow> inv (fold exec ops s)"
  by (induction ops arbitrary: s) (auto intro: exec_inv)

lemma run_measure:
  fixes f :: "'s \<Rightarrow> nat" and g :: "'op \<Rightarrow> nat"
  assumes "\<And>op s. inv s \<Longrightarrow> f (exec op s) \<le> f s + g op"
  shows "inv s \<Longrightarrow> f (fold exec ops s) \<le> f s + sum_list (map g ops)"
proof (induction ops arbitrary: s)
  case Nil
  then show ?case by simp
next
  case (Cons op ops)
  have "f (fold exec ops (exec op s)) \<le> f (exec op s) + sum_list (map g ops)"
    using Cons exec_inv by blast
  also have "\<dots> \<le> f s + g op + sum_list (map g ops)" using assms Cons.prems by simp
  finally show ?case by simp
qed

lemma run_balance:
  fixes f :: "'s \<Rightarrow> nat" and g :: "'op \<Rightarrow> nat"
  assumes "\<And>op s. inv s \<Longrightarrow> f (exec op s) = f s + g op"
  shows "inv s \<Longrightarrow> f (fold exec ops s) = f s + sum_list (map g ops)"
proof (induction ops arbitrary: s)
  case (Cons op ops)
  then show ?case using Cons.IH [OF exec_inv, of s op] assms [of s op] by simp
qed simp

end

text \<open>A value type with a wire form that reads back.\<close>

locale wire_codec =
  fixes encode :: "'a \<Rightarrow> 'w"
    and decode :: "'w \<Rightarrow> 'a option"
  assumes decode_encode: "decode (encode x) = Some x"
begin

lemma encode_inj: "encode x = encode y \<longleftrightarrow> x = y"
  by (metis decode_encode option.inject)

lemma decode_all: "map decode (map encode xs) = map Some xs"
  by (simp add: decode_encode)

end

end
