(* ===== verification/Json.thy ===== *)
theory Json
  imports Prelude "HOL-Library.Monad_Syntax"
begin

text \<open>
  JSON values and the decoding rules that serde's derived \<^verbatim>\<open>Deserialize\<close> applies to the program's
  structs and enums. The syntax itself (text to value and back) is serde\_json's and stays a parameter
  of the definitions that read or write lines; here is what the attributes in the source decide:
  which fields are required, which have a default, how \<^verbatim>\<open>null\<close> and an absent key are read.

  \<^item> An object's entries are a list: a repeated key of a known field is an error, as in derived code,
    and unknown keys are ignored.
  \<^item> A derived struct also reads a JSON array, field by field in declaration order; a missing tail
    is accepted only for fields that carry \<^verbatim>\<open>#[serde(default)]\<close>.
  \<^item> A unit variant is read from its name or from an object with that single key and \<^verbatim>\<open>null\<close>.
\<close>

datatype json =
    JNull
  | JBool bool
  | JInt int
  | JReal string
  | JStr string
  | JArr "json list"
  | JObj "(string \<times> json) list"

text \<open>A field of a derived struct: its key and whether it has a serde default.\<close>

type_synonym field_spec = "string \<times> bool"

type_synonym fields = "string \<Rightarrow> json option"

fun key_count :: "(string \<times> json) list \<Rightarrow> string \<Rightarrow> nat" where
  "key_count [] k = 0"
| "key_count (e # es) k = (if fst e = k then 1 else 0) + key_count es k"

fun obj_get :: "(string \<times> json) list \<Rightarrow> string \<Rightarrow> json option" where
  "obj_get [] k = None"
| "obj_get (e # es) k = (if fst e = k then Some (snd e) else obj_get es k)"

definition struct_fields :: "field_spec list \<Rightarrow> json \<Rightarrow> fields option" where
  "struct_fields fs v =
     (case v of
        JObj kvs \<Rightarrow> if list_all (\<lambda>f. key_count kvs (fst f) \<le> 1) fs then Some (obj_get kvs) else None
      | JArr vs \<Rightarrow>
          if length vs \<le> length fs \<and> list_all snd (drop (length vs) fs)
          then Some (obj_get (zip (map fst fs) vs)) else None
      | _ \<Rightarrow> None)"

section \<open>Reading one field\<close>

definition as_str :: "json \<Rightarrow> string option" where
  "as_str v = (case v of JStr s \<Rightarrow> Some s | _ \<Rightarrow> None)"

definition as_bool :: "json \<Rightarrow> bool option" where
  "as_bool v = (case v of JBool b \<Rightarrow> Some b | _ \<Rightarrow> None)"

definition as_i64 :: "json \<Rightarrow> int option" where
  "as_i64 v = (case v of JInt i \<Rightarrow> if - (2 ^ 63) \<le> i \<and> i < 2 ^ 63 then Some i else None | _ \<Rightarrow> None)"

fun all_some :: "'a option list \<Rightarrow> 'a list option" where
  "all_some [] = Some []"
| "all_some (x # xs) =
     (case x of None \<Rightarrow> None | Some y \<Rightarrow> map_option (\<lambda>ys. y # ys) (all_some xs))"

definition as_list :: "(json \<Rightarrow> 'a option) \<Rightarrow> json \<Rightarrow> 'a list option" where
  "as_list rd v = (case v of JArr vs \<Rightarrow> all_some (map rd vs) | _ \<Rightarrow> None)"

definition as_unit_variant :: "(string \<Rightarrow> 'a option) \<Rightarrow> json \<Rightarrow> 'a option" where
  "as_unit_variant name v =
     (case v of
        JStr s \<Rightarrow> name s
      | JObj kvs \<Rightarrow> (case kvs of [(s, JNull)] \<Rightarrow> name s | _ \<Rightarrow> None)
      | _ \<Rightarrow> None)"

text \<open>A required field; an \<^verbatim>\<open>Option\<close> field; a \<^verbatim>\<open>#[serde(default)]\<close> field; a field with \<^verbatim>\<open>null_default\<close>.\<close>

definition rd_req :: "(json \<Rightarrow> 'a option) \<Rightarrow> fields \<Rightarrow> string \<Rightarrow> 'a option" where
  "rd_req rd fs k = (case fs k of Some v \<Rightarrow> rd v | None \<Rightarrow> None)"

definition rd_opt :: "(json \<Rightarrow> 'a option) \<Rightarrow> fields \<Rightarrow> string \<Rightarrow> 'a option option" where
  "rd_opt rd fs k =
     (case fs k of None \<Rightarrow> Some None | Some v \<Rightarrow> if v = JNull then Some None else map_option Some (rd v))"

definition rd_default :: "'a \<Rightarrow> (json \<Rightarrow> 'a option) \<Rightarrow> fields \<Rightarrow> string \<Rightarrow> 'a option" where
  "rd_default d rd fs k = (case fs k of None \<Rightarrow> Some d | Some v \<Rightarrow> rd v)"

definition null_default :: "'a \<Rightarrow> (json \<Rightarrow> 'a option) \<Rightarrow> fields \<Rightarrow> string \<Rightarrow> 'a option" where
  "null_default d rd fs k =
     (case fs k of None \<Rightarrow> Some d | Some v \<Rightarrow> if v = JNull then Some d else rd v)"

text \<open>The value-level reading of an \<^verbatim>\<open>Option\<close> field.\<close>

definition opt_val :: "(json \<Rightarrow> 'a option) \<Rightarrow> json option \<Rightarrow> 'a option option" where
  "opt_val rd x =
     (case x of None \<Rightarrow> Some None | Some v \<Rightarrow> if v = JNull then Some None else map_option Some (rd v))"

section \<open>Writing\<close>

text \<open>\<^verbatim>\<open>#[serde(skip_serializing_if = "Option::is_none")]\<close>.\<close>

definition opt_field :: "string \<Rightarrow> ('a \<Rightarrow> json) \<Rightarrow> 'a option \<Rightarrow> (string \<times> json) list" where
  "opt_field k wr v = (case v of None \<Rightarrow> [] | Some x \<Rightarrow> [(k, wr x)])"

text \<open>\<^verbatim>\<open>obj["k"] = v\<close> on an object value: replaces the key.\<close>

definition json_put :: "string \<Rightarrow> json \<Rightarrow> json \<Rightarrow> json" where
  "json_put k v j = (case j of JObj kvs \<Rightarrow> JObj (AList.update k v kvs) | _ \<Rightarrow> j)"

definition json_get :: "json \<Rightarrow> string \<Rightarrow> json option" where
  "json_get j k = (case j of JObj kvs \<Rightarrow> obj_get kvs k | _ \<Rightarrow> None)"

section \<open>Lemmas\<close>

lemma key_count_append [simp]: "key_count (xs @ ys) k = key_count xs k + key_count ys k"
  by (induction xs) auto

lemma key_count_opt_field [simp]:
  "key_count (opt_field k' wr v) k = (if k' = k then (if v = None then 0 else 1) else 0)"
  by (auto simp: opt_field_def split: option.splits)

lemma present_le_one [simp]: "(if v = None then 0 else Suc 0) \<le> Suc 0"
  by simp

lemma obj_get_opt_field [simp]:
  "obj_get (opt_field k' wr v @ r) k =
     (if k' = k then opt_or (map_option wr v) (obj_get r k) else obj_get r k)"
  by (auto simp: opt_field_def split: option.splits)

lemma obj_get_opt_field_last [simp]:
  "obj_get (opt_field k' wr v) k = (if k' = k then map_option wr v else None)"
  by (auto simp: opt_field_def split: option.splits)

lemma obj_get_map_of: "obj_get kvs = map_of kvs"
  by (induction kvs) (auto simp: fun_eq_iff)

lemma as_simps [simp]:
  "as_str (JStr s) = Some s"
  "as_bool (JBool b) = Some b"
  "as_unit_variant name (JStr s) = name s"
  "as_list rd (JArr vs) = all_some (map rd vs)"
  by (simp_all add: as_str_def as_bool_def as_unit_variant_def as_list_def)

lemma all_some_map: "(\<And>x. x \<in> set xs \<Longrightarrow> f x = Some (g x)) \<Longrightarrow> all_some (map f xs) = Some (map g xs)"
  by (induction xs) auto

lemma struct_fields_obj [simp]:
  "struct_fields fs (JObj kvs) =
     (if list_all (\<lambda>f. key_count kvs (fst f) \<le> 1) fs then Some (obj_get kvs) else None)"
  by (simp add: struct_fields_def)

lemma rd_opt_val: "rd_opt rd fs k = opt_val rd (fs k)"
  by (simp add: rd_opt_def opt_val_def)

lemma opt_val_simps [simp]:
  "opt_val rd None = Some None"
  "opt_val rd (Some JNull) = Some None"
  "opt_val as_str (map_option JStr v) = Some v"
  "opt_val as_str (Some (JStr x)) = Some (Some x)"
  by (cases v; simp add: opt_val_def)+

lemma rd_req_val: "rd_req rd fs k = Option.bind (fs k) rd"
  by (cases "fs k") (simp_all add: rd_req_def)

lemma rd_default_val: "rd_default d rd fs k = (case fs k of None \<Rightarrow> Some d | Some v \<Rightarrow> rd v)"
  by (simp add: rd_default_def)

lemma null_default_val:
  "null_default d rd fs k = (case fs k of None \<Rightarrow> Some d | Some v \<Rightarrow> if v = JNull then Some d else rd v)"
  by (simp add: null_default_def)

lemmas rd_vals = rd_opt_val rd_req_val rd_default_val null_default_val

lemma json_get_put [simp]:
  "json_get (json_put k v (JObj kvs)) k' = (if k' = k then Some v else json_get (JObj kvs) k')"
  by (simp add: json_get_def json_put_def update_conv' obj_get_map_of)

end
