(* ===== verification/Approval_Models.thy ===== *)
theory Approval_Models
  imports Json
begin

text \<open>
  The credential-approval vocabulary of \<^verbatim>\<open>core/shed-core/src/approval/models.rs\<close>: requests,
  decisions, gates, scopes, policy rules, audit entries, their wire names, and the TTL shorthand.
\<close>

section \<open>Namespaces and requests\<close>

definition ns_ssh :: string where "ns_ssh = ''ssh-agent''"
definition ns_aws :: string where "ns_aws = ''aws-credentials''"
definition ns_docker :: string where "ns_docker = ''docker-credentials''"

definition default_approval_ttl :: string where
  "default_approval_ttl = ''2h''"

record approval_request =
  ar_id :: string
  ar_ts :: string
  ar_server :: string
  ar_namespace :: string
  ar_op :: string
  ar_shed :: string
  ar_detail :: string
  ar_expires_at :: string

definition qualified_shed :: "approval_request \<Rightarrow> string" where
  "qualified_shed r = (if ar_server r = [] then ar_shed r else ar_server r @ ''/'' @ ar_shed r)"

definition approval_request_fields :: "field_spec list" where
  "approval_request_fields =
     [(''id'', False), (''ts'', False), (''server'', True), (''namespace'', False), (''op'', False),
      (''shed'', False), (''detail'', False), (''expires_at'', False)]"

definition decode_approval_request :: "json \<Rightarrow> approval_request option" where
  "decode_approval_request v =
     do { fs \<leftarrow> struct_fields approval_request_fields v;
          i \<leftarrow> rd_req as_str fs ''id'';
          t \<leftarrow> rd_req as_str fs ''ts'';
          sv \<leftarrow> null_default [] as_str fs ''server'';
          n \<leftarrow> rd_req as_str fs ''namespace'';
          op \<leftarrow> rd_req as_str fs ''op'';
          sh \<leftarrow> rd_req as_str fs ''shed'';
          d \<leftarrow> rd_req as_str fs ''detail'';
          e \<leftarrow> rd_req as_str fs ''expires_at'';
          Some \<lparr>ar_id = i, ar_ts = t, ar_server = sv, ar_namespace = n, ar_op = op, ar_shed = sh,
                ar_detail = d, ar_expires_at = e\<rparr> }"

definition approval_request_entries :: "approval_request \<Rightarrow> (string \<times> json) list" where
  "approval_request_entries r =
     [(''id'', JStr (ar_id r)), (''ts'', JStr (ar_ts r)), (''server'', JStr (ar_server r)),
      (''namespace'', JStr (ar_namespace r)), (''op'', JStr (ar_op r)), (''shed'', JStr (ar_shed r)),
      (''detail'', JStr (ar_detail r)), (''expires_at'', JStr (ar_expires_at r))]"

definition encode_approval_request :: "approval_request \<Rightarrow> json" where
  "encode_approval_request r = JObj (approval_request_entries r)"

section \<open>Decisions, sources, actions, gates, methods, scopes\<close>

datatype policy_action = PActApprove | PActDeny | PActPrompt

datatype approval_decision = Approve | Deny

fun decision_policy_action :: "approval_decision \<Rightarrow> policy_action" where
  "decision_policy_action Approve = PActApprove"
| "decision_policy_action Deny = PActDeny"

datatype decided_by = ByPolicy | ByUser | ByTouchid | ByTimeout

datatype audit_source = SrcHostAgent | SrcApp | SrcLifecycle | SrcRc

datatype policy_gate = Biometrics | BiometricsOrPassword | NoGate

definition is_biometric :: "policy_gate \<Rightarrow> bool" where
  "is_biometric g \<longleftrightarrow> g \<noteq> NoGate"

datatype approval_method = MBiometricsOrPassword | MBiometrics | MPrompt

fun method_gate :: "approval_method \<Rightarrow> policy_gate" where
  "method_gate MBiometricsOrPassword = BiometricsOrPassword"
| "method_gate MBiometrics = Biometrics"
| "method_gate MPrompt = NoGate"

datatype approval_scope = PerRequest | PerSession | PerShed

fun approval_scope_wire :: "approval_scope \<Rightarrow> string" where
  "approval_scope_wire PerRequest = ''per-request''"
| "approval_scope_wire PerSession = ''per-session''"
| "approval_scope_wire PerShed = ''per-shed''"

datatype ssh_approval_policy = AlwaysAllow | PerShedAllow | TimeBasedAllow | AlwaysAsk | AlwaysDeny

definition uses_duration :: "ssh_approval_policy \<Rightarrow> bool" where
  "uses_duration p \<longleftrightarrow> p = TimeBasedAllow"

fun namespace_action :: "ssh_approval_policy \<Rightarrow> policy_action" where
  "namespace_action AlwaysAllow = PActApprove"
| "namespace_action AlwaysDeny = PActDeny"
| "namespace_action PerShedAllow = PActPrompt"
| "namespace_action TimeBasedAllow = PActPrompt"
| "namespace_action AlwaysAsk = PActPrompt"

definition prompts :: "ssh_approval_policy \<Rightarrow> bool" where
  "prompts p \<longleftrightarrow> namespace_action p = PActPrompt"

fun default_scope :: "ssh_approval_policy \<Rightarrow> approval_scope option" where
  "default_scope PerShedAllow = Some PerShed"
| "default_scope TimeBasedAllow = Some PerSession"
| "default_scope AlwaysAsk = Some PerRequest"
| "default_scope AlwaysAllow = None"
| "default_scope AlwaysDeny = None"

datatype policy_scope = ScopeDefault | ScopeNamespace | ScopeShed | ScopeSession

fun policy_scope_wire :: "policy_scope \<Rightarrow> string" where
  "policy_scope_wire ScopeDefault = ''default''"
| "policy_scope_wire ScopeNamespace = ''namespace''"
| "policy_scope_wire ScopeShed = ''shed''"
| "policy_scope_wire ScopeSession = ''session''"

section \<open>Wire names (serde renames)\<close>

fun decision_wire :: "approval_decision \<Rightarrow> string" where
  "decision_wire Approve = ''approve''"
| "decision_wire Deny = ''deny''"

fun decided_by_wire :: "decided_by \<Rightarrow> string" where
  "decided_by_wire ByPolicy = ''policy''"
| "decided_by_wire ByUser = ''user''"
| "decided_by_wire ByTouchid = ''touchid''"
| "decided_by_wire ByTimeout = ''timeout''"

fun audit_source_wire :: "audit_source \<Rightarrow> string" where
  "audit_source_wire SrcHostAgent = ''host-agent''"
| "audit_source_wire SrcApp = ''app''"
| "audit_source_wire SrcLifecycle = ''lifecycle''"
| "audit_source_wire SrcRc = ''rc''"

fun policy_action_wire :: "policy_action \<Rightarrow> string" where
  "policy_action_wire PActApprove = ''approve''"
| "policy_action_wire PActDeny = ''deny''"
| "policy_action_wire PActPrompt = ''prompt''"

fun policy_gate_wire :: "policy_gate \<Rightarrow> string" where
  "policy_gate_wire Biometrics = ''biometrics''"
| "policy_gate_wire BiometricsOrPassword = ''biometrics-or-password''"
| "policy_gate_wire NoGate = ''none''"

text \<open>The derived reader of a unit enum: the first listed variant whose wire name is the text.\<close>

definition variant_named :: "('a \<Rightarrow> string) \<Rightarrow> 'a list \<Rightarrow> string \<Rightarrow> 'a option" where
  "variant_named wire vs s = List.find (\<lambda>v. wire v = s) vs"

definition decode_audit_source :: "json \<Rightarrow> audit_source option" where
  "decode_audit_source =
     as_unit_variant (variant_named audit_source_wire [SrcHostAgent, SrcApp, SrcLifecycle, SrcRc])"

definition decode_policy_scope :: "json \<Rightarrow> policy_scope option" where
  "decode_policy_scope =
     as_unit_variant (variant_named policy_scope_wire [ScopeDefault, ScopeNamespace, ScopeShed, ScopeSession])"

definition decode_policy_action :: "json \<Rightarrow> policy_action option" where
  "decode_policy_action =
     as_unit_variant (variant_named policy_action_wire [PActApprove, PActDeny, PActPrompt])"

definition decode_policy_gate :: "json \<Rightarrow> policy_gate option" where
  "decode_policy_gate =
     as_unit_variant (variant_named policy_gate_wire [Biometrics, BiometricsOrPassword, NoGate])"

section \<open>Audit entries\<close>

record audit_entry =
  ae_id :: string
  ae_ts :: string
  ae_source :: audit_source
  ae_server :: "string option"
  ae_shed :: "string option"
  ae_ns :: "string option"
  ae_op :: "string option"
  ae_result :: string
  ae_detail :: "string option"
  ae_code :: "string option"
  ae_reason :: "string option"
  ae_approval :: "string option"
  ae_policy :: "string option"

definition is_egress :: "audit_entry \<Rightarrow> bool" where
  "is_egress e \<longleftrightarrow> ae_ns e = Some ''egress''"

definition encode_audit_entry :: "audit_entry \<Rightarrow> json" where
  "encode_audit_entry e = JObj (
     [(''id'', JStr (ae_id e)), (''ts'', JStr (ae_ts e)),
      (''source'', JStr (audit_source_wire (ae_source e)))]
     @ opt_field ''server'' JStr (ae_server e) @ opt_field ''shed'' JStr (ae_shed e)
     @ opt_field ''ns'' JStr (ae_ns e) @ opt_field ''op'' JStr (ae_op e)
     @ [(''result'', JStr (ae_result e))]
     @ opt_field ''detail'' JStr (ae_detail e) @ opt_field ''code'' JStr (ae_code e)
     @ opt_field ''reason'' JStr (ae_reason e) @ opt_field ''approval'' JStr (ae_approval e)
     @ opt_field ''policy'' JStr (ae_policy e))"

definition audit_entry_fields :: "field_spec list" where
  "audit_entry_fields =
     [(''id'', False), (''ts'', False), (''source'', False), (''server'', True), (''shed'', True),
      (''ns'', True), (''op'', True), (''result'', False), (''detail'', True), (''code'', True),
      (''reason'', True), (''approval'', True), (''policy'', True)]"

definition decode_audit_entry :: "json \<Rightarrow> audit_entry option" where
  "decode_audit_entry v =
     do { fs \<leftarrow> struct_fields audit_entry_fields v;
          i \<leftarrow> rd_req as_str fs ''id'';
          t \<leftarrow> rd_req as_str fs ''ts'';
          src \<leftarrow> rd_req decode_audit_source fs ''source'';
          sv \<leftarrow> rd_opt as_str fs ''server'';
          sh \<leftarrow> rd_opt as_str fs ''shed'';
          n \<leftarrow> rd_opt as_str fs ''ns'';
          op \<leftarrow> rd_opt as_str fs ''op'';
          r \<leftarrow> rd_req as_str fs ''result'';
          d \<leftarrow> rd_opt as_str fs ''detail'';
          c \<leftarrow> rd_opt as_str fs ''code'';
          re \<leftarrow> rd_opt as_str fs ''reason'';
          a \<leftarrow> rd_opt as_str fs ''approval'';
          p \<leftarrow> rd_opt as_str fs ''policy'';
          Some \<lparr>ae_id = i, ae_ts = t, ae_source = src, ae_server = sv, ae_shed = sh, ae_ns = n,
                ae_op = op, ae_result = r, ae_detail = d, ae_code = c, ae_reason = re,
                ae_approval = a, ae_policy = p\<rparr> }"

section \<open>Policy rules, pending items, choices, grant keys\<close>

record policy_rule =
  pr_scope :: policy_scope
  pr_server :: "string option"
  pr_namespace :: "string option"
  pr_shed :: "string option"
  pr_action :: policy_action
  pr_gate :: policy_gate

definition encode_policy_rule :: "policy_rule \<Rightarrow> json" where
  "encode_policy_rule r = JObj (
     [(''scope'', JStr (policy_scope_wire (pr_scope r)))]
     @ opt_field ''server'' JStr (pr_server r) @ opt_field ''namespace'' JStr (pr_namespace r)
     @ opt_field ''shed'' JStr (pr_shed r)
     @ [(''action'', JStr (policy_action_wire (pr_action r))),
        (''gate'', JStr (policy_gate_wire (pr_gate r)))])"

definition policy_rule_fields :: "field_spec list" where
  "policy_rule_fields =
     [(''scope'', False), (''server'', True), (''namespace'', True), (''shed'', True),
      (''action'', False), (''gate'', True)]"

definition decode_policy_rule :: "json \<Rightarrow> policy_rule option" where
  "decode_policy_rule v =
     do { fs \<leftarrow> struct_fields policy_rule_fields v;
          sc \<leftarrow> rd_req decode_policy_scope fs ''scope'';
          sv \<leftarrow> rd_opt as_str fs ''server'';
          n \<leftarrow> rd_opt as_str fs ''namespace'';
          sh \<leftarrow> rd_opt as_str fs ''shed'';
          a \<leftarrow> rd_req decode_policy_action fs ''action'';
          g \<leftarrow> rd_default BiometricsOrPassword decode_policy_gate fs ''gate'';
          Some \<lparr>pr_scope = sc, pr_server = sv, pr_namespace = n, pr_shed = sh, pr_action = a, pr_gate = g\<rparr> }"

record pending_approval_item =
  pai_request :: approval_request
  pai_gate :: policy_gate
  pai_default_scope :: approval_scope
  pai_default_ttl :: string

record approval_choice =
  ch_decision :: approval_decision
  ch_scope :: "approval_scope option"
  ch_ttl :: "string option"
  ch_persist :: bool

definition approve_choice :: "pending_approval_item \<Rightarrow> approval_choice" where
  "approve_choice i =
     \<lparr>ch_decision = Approve, ch_scope = Some (pai_default_scope i), ch_ttl = Some (pai_default_ttl i),
      ch_persist = False\<rparr>"

definition deny_choice :: "pending_approval_item \<Rightarrow> approval_choice" where
  "deny_choice i = \<lparr>ch_decision = Deny, ch_scope = None, ch_ttl = None, ch_persist = False\<rparr>"

definition encode_pending_item :: "pending_approval_item \<Rightarrow> json" where
  "encode_pending_item i = JObj (
     approval_request_entries (pai_request i)
     @ [(''gate'', JStr (policy_gate_wire (pai_gate i))),
        (''default_scope'', JStr (approval_scope_wire (pai_default_scope i))),
        (''default_ttl'', JStr (pai_default_ttl i))])"

record session_grant_key =
  gk_server :: string
  gk_namespace :: string
  gk_shed :: string

definition grant_key :: "approval_request \<Rightarrow> session_grant_key" where
  "grant_key r = \<lparr>gk_server = ar_server r, gk_namespace = ar_namespace r, gk_shed = ar_shed r\<rparr>"

record policy_decision =
  pd_action :: policy_action
  pd_gate :: policy_gate
  pd_applied_scope :: policy_scope

section \<open>TTL shorthand\<close>

definition ttl_unit :: "char \<Rightarrow> int option" where
  "ttl_unit c =
     (if ascii_lower c = CHR ''s'' then Some 1
      else if ascii_lower c = CHR ''m'' then Some 60
      else if ascii_lower c = CHR ''h'' then Some 3600
      else if ascii_lower c = CHR ''d'' then Some 86400
      else None)"

text \<open>
  The last character is taken off (an ASCII unit letter is one byte; a multi-byte last character is
  never a unit), the rest is parsed as an \<^verbatim>\<open>i64\<close>, and the product is an \<^verbatim>\<open>i64\<close> multiplication.
\<close>

definition ttl_shorthand_seconds :: "string \<Rightarrow> int option" where
  "ttl_shorthand_seconds raw =
     (let s = trim raw in
      if s = [] then None
      else (case ttl_unit (last s) of
              None \<Rightarrow> None
            | Some u \<Rightarrow>
                (case parse_i64 (butlast s) of
                   None \<Rightarrow> None
                 | Some n \<Rightarrow> if n > 0 then Some (i64_wrap (n * u)) else None)))"

section \<open>Lemmas\<close>

lemma decode_audit_source_wire [simp]: "decode_audit_source (JStr (audit_source_wire x)) = Some x"
  by (cases x) (simp_all add: decode_audit_source_def variant_named_def)

lemma decode_policy_scope_wire [simp]: "decode_policy_scope (JStr (policy_scope_wire x)) = Some x"
  by (cases x) (simp_all add: decode_policy_scope_def variant_named_def)

lemma decode_policy_action_wire [simp]: "decode_policy_action (JStr (policy_action_wire x)) = Some x"
  by (cases x) (simp_all add: decode_policy_action_def variant_named_def)

lemma decode_policy_gate_wire [simp]: "decode_policy_gate (JStr (policy_gate_wire x)) = Some x"
  by (cases x) (simp_all add: decode_policy_gate_def variant_named_def)

lemma decode_encode_audit_entry: "decode_audit_entry (encode_audit_entry e) = Some e"
  by (cases e) (simp add: decode_audit_entry_def encode_audit_entry_def audit_entry_fields_def rd_vals)

lemma decode_encode_policy_rule: "decode_policy_rule (encode_policy_rule r) = Some r"
  by (cases r) (simp add: decode_policy_rule_def encode_policy_rule_def policy_rule_fields_def rd_vals)

lemma decode_encode_approval_request: "decode_approval_request (encode_approval_request r) = Some r"
  by (cases r) (simp add: decode_approval_request_def encode_approval_request_def
      approval_request_entries_def approval_request_fields_def rd_vals)

lemma is_biometric_simps [simp]: "is_biometric Biometrics" "is_biometric BiometricsOrPassword" "\<not> is_biometric NoGate"
  by (simp_all add: is_biometric_def)

lemma prompts_iff_default_scope: "prompts p \<longleftrightarrow> default_scope p \<noteq> None"
  by (cases p) (simp_all add: prompts_def)

lemma grant_key_simps [simp]:
  "gk_server (grant_key r) = ar_server r"
  "gk_namespace (grant_key r) = ar_namespace r"
  "gk_shed (grant_key r) = ar_shed r"
  by (simp_all add: grant_key_def)

interpretation audit_entry_codec: wire_codec encode_audit_entry decode_audit_entry
  by unfold_locales (rule decode_encode_audit_entry)

interpretation policy_rule_codec: wire_codec encode_policy_rule decode_policy_rule
  by unfold_locales (rule decode_encode_policy_rule)

interpretation approval_request_codec: wire_codec encode_approval_request decode_approval_request
  by unfold_locales (rule decode_encode_approval_request)

end
