(* ===== verification/Policy.thy ===== *)
theory Policy
  imports Approval_Models
begin

text \<open>
  The approval-policy decision (\<^verbatim>\<open>core/shed-core/src/approval/policy.rs\<close>): a session grant, then the
  first per-shed rule that matches, then the first per-namespace rule, then the first default rule,
  then the fail-safe prompt. The specification side ranks the rules by how specific they are and
  says that the decision comes from the first rule of the highest rank that matches.
\<close>

section \<open>The engine\<close>

record policy_engine =
  pe_rules :: "policy_rule list"

definition matches_shed :: "approval_request \<Rightarrow> policy_rule \<Rightarrow> bool" where
  "matches_shed req r \<longleftrightarrow>
     pr_scope r = ScopeShed \<and> pr_shed r = Some (ar_shed req)
     \<and> (pr_server r = None \<or> pr_server r = Some (ar_server req))"

definition matches_namespace :: "approval_request \<Rightarrow> policy_rule \<Rightarrow> bool" where
  "matches_namespace req r \<longleftrightarrow> pr_scope r = ScopeNamespace \<and> pr_namespace r = Some (ar_namespace req)"

definition matches_default :: "policy_rule \<Rightarrow> bool" where
  "matches_default r \<longleftrightarrow> pr_scope r = ScopeDefault"

definition decide :: "policy_engine \<Rightarrow> approval_request \<Rightarrow> session_grant_key list \<Rightarrow> policy_decision" where
  "decide eng req session_grants =
     (if grant_key req \<in> set session_grants
      then \<lparr>pd_action = PActApprove, pd_gate = NoGate, pd_applied_scope = ScopeSession\<rparr>
      else case List.find (matches_shed req) (pe_rules eng) of
        Some r \<Rightarrow> \<lparr>pd_action = pr_action r, pd_gate = pr_gate r, pd_applied_scope = ScopeShed\<rparr>
      | None \<Rightarrow>
        (case List.find (matches_namespace req) (pe_rules eng) of
          Some r \<Rightarrow> \<lparr>pd_action = pr_action r, pd_gate = pr_gate r, pd_applied_scope = ScopeNamespace\<rparr>
        | None \<Rightarrow>
          (case List.find matches_default (pe_rules eng) of
            Some r \<Rightarrow> \<lparr>pd_action = pr_action r, pd_gate = pr_gate r, pd_applied_scope = ScopeDefault\<rparr>
          | None \<Rightarrow> \<lparr>pd_action = PActPrompt, pd_gate = BiometricsOrPassword, pd_applied_scope = ScopeDefault\<rparr>)))"

section \<open>Specification: the most specific matching rule, the first of its rank\<close>

fun scope_rank :: "policy_scope \<Rightarrow> nat" where
  "scope_rank ScopeDefault = 0"
| "scope_rank ScopeNamespace = 1"
| "scope_rank ScopeShed = 2"
| "scope_rank ScopeSession = 3"

definition rule_applies :: "approval_request \<Rightarrow> policy_rule \<Rightarrow> bool" where
  "rule_applies req r \<longleftrightarrow> matches_shed req r \<or> matches_namespace req r \<or> matches_default r"

definition governs :: "policy_rule list \<Rightarrow> approval_request \<Rightarrow> policy_rule \<Rightarrow> bool" where
  "governs rules req r \<longleftrightarrow>
     (\<exists>before after. rules = before @ r # after \<and> rule_applies req r
        \<and> (\<forall>r' \<in> set before. rule_applies req r' \<longrightarrow> scope_rank (pr_scope r') < scope_rank (pr_scope r))
        \<and> (\<forall>r' \<in> set after. rule_applies req r' \<longrightarrow> scope_rank (pr_scope r') \<le> scope_rank (pr_scope r)))"

definition rule_decision :: "policy_rule \<Rightarrow> policy_decision" where
  "rule_decision r = \<lparr>pd_action = pr_action r, pd_gate = pr_gate r, pd_applied_scope = pr_scope r\<rparr>"

definition fail_safe_decision :: policy_decision where
  "fail_safe_decision = \<lparr>pd_action = PActPrompt, pd_gate = BiometricsOrPassword, pd_applied_scope = ScopeDefault\<rparr>"

section \<open>Lemmas\<close>

lemmas match_defs = matches_shed_def matches_namespace_def matches_default_def rule_applies_def

lemma find_Some_split:
  "List.find P xs = Some x \<Longrightarrow> \<exists>before after. xs = before @ x # after \<and> P x \<and> (\<forall>y \<in> set before. \<not> P y)"
proof (induction xs)
  case Nil
  then show ?case by simp
next
  case (Cons a xs)
  show ?case
  proof (cases "P a")
    case True
    with Cons.prems have "x = a" by simp
    with True show ?thesis by (intro exI [of _ "[]"] exI [of _ xs]) simp
  next
    case False
    with Cons obtain b c where "xs = b @ x # c" "P x" "\<forall>y \<in> set b. \<not> P y" by auto
    with False show ?thesis by (intro exI [of _ "a # b"] exI [of _ c]) simp
  qed
qed

lemma find_None: "List.find P xs = None \<longleftrightarrow> (\<forall>y \<in> set xs. \<not> P y)"
  by (induction xs) auto

lemma rule_applies_rank:
  "rule_applies req r \<Longrightarrow> \<not> matches_shed req r \<Longrightarrow> scope_rank (pr_scope r) \<le> 1"
  "rule_applies req r \<Longrightarrow> \<not> matches_shed req r \<Longrightarrow> \<not> matches_namespace req r \<Longrightarrow> scope_rank (pr_scope r) = 0"
  "rule_applies req r \<Longrightarrow> scope_rank (pr_scope r) \<le> 2"
  by (auto simp: match_defs)

lemma governs_find:
  assumes f: "List.find P rules = Some r" and P: "\<And>x. P x \<Longrightarrow> rule_applies req x \<and> scope_rank (pr_scope x) = n"
    and other: "\<And>x. x \<in> set rules \<Longrightarrow> rule_applies req x \<Longrightarrow> \<not> P x \<Longrightarrow> scope_rank (pr_scope x) < n"
  shows "governs rules req r \<and> scope_rank (pr_scope r) = n"
proof -
  obtain before after where s: "rules = before @ r # after" "P r" "\<forall>y \<in> set before. \<not> P y"
    using find_Some_split [OF f] by blast
  have n: "scope_rank (pr_scope r) = n" "rule_applies req r" using P s(2) by auto
  have "scope_rank (pr_scope x) \<le> n" if "x \<in> set after" "rule_applies req x" for x
    using that other [of x] P [of x] s(1) by (cases "P x") auto
  moreover have "scope_rank (pr_scope x) < n" if "x \<in> set before" "rule_applies req x" for x
    using that other [of x] s by auto
  ultimately show ?thesis unfolding governs_def using s(1) n by blast
qed

lemma decide_granted:
  "grant_key req \<in> set gs \<Longrightarrow>
   decide eng req gs = \<lparr>pd_action = PActApprove, pd_gate = NoGate, pd_applied_scope = ScopeSession\<rparr>"
  by (simp add: decide_def)

lemma decide_cases:
  assumes "grant_key req \<notin> set gs"
  shows "(\<exists>r. governs (pe_rules eng) req r \<and> decide eng req gs = rule_decision r)
       \<or> (\<forall>r \<in> set (pe_rules eng). \<not> rule_applies req r) \<and> decide eng req gs = fail_safe_decision"
proof (cases "List.find (matches_shed req) (pe_rules eng)")
  case (Some r)
  have "governs (pe_rules eng) req r \<and> scope_rank (pr_scope r) = 2"
    by (rule governs_find [OF Some])
      (use rule_applies_rank(1) in \<open>fastforce simp: match_defs\<close>)+
  moreover have "pr_scope r = ScopeShed"
    using find_Some_split [OF Some] by (auto simp: matches_shed_def)
  ultimately show ?thesis using assms Some by (auto simp: decide_def rule_decision_def intro!: exI [of _ r])
next
  case sNone: None
  show ?thesis
  proof (cases "List.find (matches_namespace req) (pe_rules eng)")
    case (Some r)
    have "governs (pe_rules eng) req r \<and> scope_rank (pr_scope r) = 1"
      by (rule governs_find [OF Some])
        (use rule_applies_rank(2) sNone in \<open>auto simp: find_None match_defs\<close>)
    moreover have "pr_scope r = ScopeNamespace"
      using find_Some_split [OF Some] by (auto simp: matches_namespace_def)
    ultimately show ?thesis using assms Some sNone by (auto simp: decide_def rule_decision_def intro!: exI [of _ r])
  next
    case nNone: None
    show ?thesis
    proof (cases "List.find matches_default (pe_rules eng)")
      case (Some r)
      have "governs (pe_rules eng) req r \<and> scope_rank (pr_scope r) = 0"
        by (rule governs_find [OF Some]) (use sNone nNone in \<open>auto simp: find_None match_defs\<close>)
      moreover have "pr_scope r = ScopeDefault"
        using find_Some_split [OF Some] by (auto simp: matches_default_def)
      ultimately show ?thesis using assms Some sNone nNone by (auto simp: decide_def rule_decision_def intro!: exI [of _ r])
    next
      case None
      then have "decide eng req gs = fail_safe_decision"
        using assms sNone nNone by (simp add: decide_def fail_safe_decision_def)
      moreover have "\<forall>r \<in> set (pe_rules eng). \<not> rule_applies req r"
        using None sNone nNone by (auto simp: find_None rule_applies_def)
      ultimately show ?thesis by blast
    qed
  qed
qed

lemma governs_unique:
  assumes "governs rules req r" "governs rules req r'"
  shows "r = r'"
proof -
  obtain a b where ab: "rules = a @ r # b" "rule_applies req r"
    "\<forall>x \<in> set a. rule_applies req x \<longrightarrow> scope_rank (pr_scope x) < scope_rank (pr_scope r)"
    "\<forall>x \<in> set b. rule_applies req x \<longrightarrow> scope_rank (pr_scope x) \<le> scope_rank (pr_scope r)"
    using assms(1) unfolding governs_def by blast
  obtain c d where cd: "rules = c @ r' # d" "rule_applies req r'"
    "\<forall>x \<in> set c. rule_applies req x \<longrightarrow> scope_rank (pr_scope x) < scope_rank (pr_scope r')"
    "\<forall>x \<in> set d. rule_applies req x \<longrightarrow> scope_rank (pr_scope x) \<le> scope_rank (pr_scope r')"
    using assms(2) unfolding governs_def by blast
  have "a @ r # b = c @ r' # d" using ab(1) cd(1) by simp
  then consider "r = r'" | "r' \<in> set a" "r \<in> set d" | "r \<in> set c" "r' \<in> set b"
    by (auto simp: append_eq_append_conv2 Cons_eq_append_conv append_eq_Cons_conv)
  then show ?thesis
  proof cases
    case 2
    then have "scope_rank (pr_scope r') < scope_rank (pr_scope r)" "scope_rank (pr_scope r) \<le> scope_rank (pr_scope r')"
      using ab cd by blast+
    then show ?thesis by simp
  next
    case 3
    then have "scope_rank (pr_scope r) < scope_rank (pr_scope r')" "scope_rank (pr_scope r') \<le> scope_rank (pr_scope r)"
      using ab cd by blast+
    then show ?thesis by simp
  qed simp
qed

text \<open>
  C2. The decision of \<^const>\<open>decide\<close> for a request without a live session grant is the one of the
  governing rule: the first rule, among those that match the request, of the most specific kind
  (per-shed before per-namespace before default); and it is the fail-safe native-auth prompt exactly
  when no rule matches.
\<close>

theorem decide_refines_specificity:
  assumes "grant_key req \<notin> set gs"
  shows "(governs (pe_rules eng) req r \<longrightarrow> decide eng req gs = rule_decision r)
       \<and> ((\<forall>r \<in> set (pe_rules eng). \<not> rule_applies req r) \<longrightarrow> decide eng req gs = fail_safe_decision)
       \<and> ((\<exists>r. governs (pe_rules eng) req r) \<or> (\<forall>r \<in> set (pe_rules eng). \<not> rule_applies req r))"
proof -
  have no: "\<not> governs (pe_rules eng) req r'" if "\<forall>r \<in> set (pe_rules eng). \<not> rule_applies req r" for r'
    using that unfolding governs_def by auto
  show ?thesis using decide_cases [OF assms, of eng] governs_unique no by metis
qed

theorem decide_refines_specificity_witness:
  "let req = \<lparr>ar_id = ''r1'', ar_ts = ''t'', ar_server = ''mini3'', ar_namespace = ns_ssh, ar_op = ''sign'',
              ar_shed = ''s'', ar_detail = ''d'', ar_expires_at = ''e''\<rparr>;
       ns = \<lparr>pr_scope = ScopeNamespace, pr_server = None, pr_namespace = Some ns_ssh, pr_shed = None,
             pr_action = PActPrompt, pr_gate = BiometricsOrPassword\<rparr>;
       sh = \<lparr>pr_scope = ScopeShed, pr_server = Some ''mini3'', pr_namespace = None, pr_shed = Some ''s'',
             pr_action = PActApprove, pr_gate = NoGate\<rparr>
   in grant_key req \<notin> set [] \<and> governs [ns, sh] req sh \<and> decide \<lparr>pe_rules = [ns, sh]\<rparr> req [] = rule_decision sh"
proof -
  let ?req = "\<lparr>ar_id = ''r1'', ar_ts = ''t'', ar_server = ''mini3'', ar_namespace = ns_ssh, ar_op = ''sign'',
              ar_shed = ''s'', ar_detail = ''d'', ar_expires_at = ''e''\<rparr>"
  let ?ns = "\<lparr>pr_scope = ScopeNamespace, pr_server = None, pr_namespace = Some ns_ssh, pr_shed = None,
             pr_action = PActPrompt, pr_gate = BiometricsOrPassword\<rparr>"
  let ?sh = "\<lparr>pr_scope = ScopeShed, pr_server = Some ''mini3'', pr_namespace = None, pr_shed = Some ''s'',
             pr_action = PActApprove, pr_gate = NoGate\<rparr>"
  have h: "grant_key ?req \<notin> set []" by simp
  have g: "governs [?ns, ?sh] ?req ?sh"
    unfolding governs_def by (rule exI [of _ "[?ns]"], rule exI [of _ "[]"]) (simp add: match_defs)
  show ?thesis
    using h g decide_refines_specificity [OF h, of "\<lparr>pe_rules = [?ns, ?sh]\<rparr>" ?sh] by (simp add: Let_def)
qed

text \<open>
  A per-shed rule bound to one server never decides a request from another server: with such a
  rule in any position, the decision for a request of a different server is the decision without it.
\<close>

lemma shed_rule_server_isolation:
  assumes "pr_scope r = ScopeShed" and "pr_server r = Some sv" and "ar_server req \<noteq> sv"
  shows "decide \<lparr>pe_rules = xs @ r # ys\<rparr> req gs = decide \<lparr>pe_rules = xs @ ys\<rparr> req gs"
proof -
  have drop: "List.find P (xs @ r # ys) = List.find P (xs @ ys)" if "\<not> P r" for P
    using that by (induction xs) auto
  have "\<not> matches_shed req r" "\<not> matches_namespace req r" "\<not> matches_default r"
    using assms by (auto simp: match_defs)
  then show ?thesis by (simp add: decide_def drop cong: option.case_cong)
qed

end
