(* ===== verification/Protocol.thy ===== *)
theory Protocol
  imports Approval_Models
begin

text \<open>
  The host-agent wire protocol (\<^verbatim>\<open>core/shed-core/src/approval/protocol.rs\<close>): one JSON envelope per
  line. Reading takes serde\_json's text reader as the parameter \<^verbatim>\<open>parse\<close>; the encoders build the JSON
  value that serde\_json then prints. An error of \<^verbatim>\<open>decode\<close> is \<^const>\<open>None\<close> (every caller only skips the line).
\<close>

definition host_agent_protocol_version :: int where
  "host_agent_protocol_version = 2"

record hello_ack =
  ha_namespaces :: "string list"
  ha_gate_namespaces :: "string list"
  ha_request_timeout_ms :: int
  ha_accepted :: bool

record audit_event_frame =
  af_kind :: "string option"
  af_server :: "string option"
  af_shed :: "string option"
  af_ns :: "string option"
  af_op :: "string option"
  af_result :: string
  af_detail :: "string option"
  af_code :: "string option"
  af_reason :: "string option"
  af_approval :: "string option"
  af_request_id :: "string option"
  af_ts :: "string option"

record token_response =
  tr_in_reply_to :: string
  tr_server :: string
  tr_token :: "string option"
  tr_expires_at :: "string option"
  tr_error :: "string option"

datatype host_agent_inbound =
    InHelloAck hello_ack
  | InApprovalRequest approval_request
  | InEvent audit_event_frame
  | InPing string
  | InTokenResponse token_response
  | InUnknown string

section \<open>Decoding\<close>

definition decode_hello_ack :: "json \<Rightarrow> hello_ack option" where
  "decode_hello_ack v =
     do { fs \<leftarrow> struct_fields [(''namespaces'', True), (''gate_namespaces'', True),
                              (''request_timeout_ms'', True), (''accepted'', True)] v;
          ns \<leftarrow> rd_default [] (as_list as_str) fs ''namespaces'';
          gs \<leftarrow> rd_default [] (as_list as_str) fs ''gate_namespaces'';
          t \<leftarrow> rd_default 0 as_i64 fs ''request_timeout_ms'';
          a \<leftarrow> rd_default False as_bool fs ''accepted'';
          Some \<lparr>ha_namespaces = ns, ha_gate_namespaces = gs, ha_request_timeout_ms = t, ha_accepted = a\<rparr> }"

definition audit_event_fields :: "field_spec list" where
  "audit_event_fields =
     [(''kind'', False), (''server'', False), (''shed'', False), (''ns'', False), (''op'', False),
      (''result'', False), (''detail'', False), (''code'', False), (''reason'', False),
      (''approval'', False), (''request_id'', False), (''ts'', False)]"

definition decode_audit_event :: "json \<Rightarrow> audit_event_frame option" where
  "decode_audit_event v =
     do { fs \<leftarrow> struct_fields audit_event_fields v;
          k \<leftarrow> rd_opt as_str fs ''kind'';
          sv \<leftarrow> rd_opt as_str fs ''server'';
          sh \<leftarrow> rd_opt as_str fs ''shed'';
          n \<leftarrow> rd_opt as_str fs ''ns'';
          op \<leftarrow> rd_opt as_str fs ''op'';
          r \<leftarrow> rd_req as_str fs ''result'';
          d \<leftarrow> rd_opt as_str fs ''detail'';
          c \<leftarrow> rd_opt as_str fs ''code'';
          re \<leftarrow> rd_opt as_str fs ''reason'';
          a \<leftarrow> rd_opt as_str fs ''approval'';
          ri \<leftarrow> rd_opt as_str fs ''request_id'';
          t \<leftarrow> rd_opt as_str fs ''ts'';
          Some \<lparr>af_kind = k, af_server = sv, af_shed = sh, af_ns = n, af_op = op, af_result = r,
                af_detail = d, af_code = c, af_reason = re, af_approval = a, af_request_id = ri, af_ts = t\<rparr> }"

definition decode_token_response :: "json \<Rightarrow> token_response option" where
  "decode_token_response v =
     do { fs \<leftarrow> struct_fields [(''in_reply_to'', False), (''server'', True), (''token'', False),
                              (''expires_at'', False), (''error'', False)] v;
          i \<leftarrow> rd_req as_str fs ''in_reply_to'';
          sv \<leftarrow> rd_default [] as_str fs ''server'';
          t \<leftarrow> rd_opt as_str fs ''token'';
          e \<leftarrow> rd_opt as_str fs ''expires_at'';
          er \<leftarrow> rd_opt as_str fs ''error'';
          Some \<lparr>tr_in_reply_to = i, tr_server = sv, tr_token = t, tr_expires_at = e, tr_error = er\<rparr> }"

definition decode_type_tag :: "json \<Rightarrow> string option" where
  "decode_type_tag v =
     do { fs \<leftarrow> struct_fields [(''type'', True)] v; rd_default [] as_str fs ''type'' }"

definition decode_ping :: "json \<Rightarrow> string option" where
  "decode_ping v =
     do { fs \<leftarrow> struct_fields [(''id'', True)] v; rd_default [] as_str fs ''id'' }"

definition decode_frame :: "json \<Rightarrow> host_agent_inbound option" where
  "decode_frame v =
     (case decode_type_tag v of
        None \<Rightarrow> None
      | Some t \<Rightarrow>
          if t = ''hello_ack'' then map_option InHelloAck (decode_hello_ack v)
          else if t = ''approval_request'' then map_option InApprovalRequest (decode_approval_request v)
          else if t = ''event'' then map_option InEvent (decode_audit_event v)
          else if t = ''ping'' then map_option InPing (decode_ping v)
          else if t = ''token.response'' then map_option InTokenResponse (decode_token_response v)
          else Some (InUnknown t))"

definition decode :: "(string \<Rightarrow> json option) \<Rightarrow> string \<Rightarrow> host_agent_inbound option" where
  "decode parse line = Option.bind (parse line) decode_frame"

definition from_event_frame :: "audit_event_frame \<Rightarrow> string \<Rightarrow> string \<Rightarrow> audit_entry" where
  "from_event_frame f id_fallback ts_fallback =
     \<lparr>ae_id = unwrap_or (af_request_id f) id_fallback,
      ae_ts = unwrap_or (af_ts f) ts_fallback,
      ae_source = SrcHostAgent,
      ae_server = af_server f, ae_shed = af_shed f, ae_ns = af_ns f, ae_op = af_op f,
      ae_result = af_result f, ae_detail = af_detail f, ae_code = af_code f, ae_reason = af_reason f,
      ae_approval = af_approval f, ae_policy = None\<rparr>"

section \<open>Encoding\<close>

definition hello :: "string \<Rightarrow> string \<Rightarrow> string \<Rightarrow> string \<Rightarrow> int \<Rightarrow> string list \<Rightarrow> int \<Rightarrow> json" where
  "hello fid ts name version pid capabilities replay_events = JObj
     [(''v'', JInt host_agent_protocol_version), (''type'', JStr ''hello''), (''id'', JStr fid), (''ts'', JStr ts),
      (''client'', JObj [(''name'', JStr name), (''version'', JStr version), (''pid'', JInt pid)]),
      (''capabilities'', JArr (map JStr capabilities)), (''replay_events'', JInt replay_events)]"

definition approval_response ::
  "string \<Rightarrow> string \<Rightarrow> string \<Rightarrow> approval_decision \<Rightarrow> decided_by \<Rightarrow> string option \<Rightarrow> string option \<Rightarrow> json" where
  "approval_response fid ts request_id decision by scope ttl =
     (let obj = JObj [(''v'', JInt host_agent_protocol_version), (''type'', JStr ''approval_response''),
                      (''id'', JStr fid), (''ts'', JStr ts), (''request_id'', JStr request_id),
                      (''decision'', JStr (decision_wire decision)),
                      (''decided_by'', JStr (decided_by_wire by))];
          obj = (case scope of Some s \<Rightarrow> json_put ''scope'' (JStr s) obj | None \<Rightarrow> obj)
      in case ttl of Some t \<Rightarrow> json_put ''ttl'' (JStr t) obj | None \<Rightarrow> obj)"

definition pong :: "string \<Rightarrow> string \<Rightarrow> json" where
  "pong fid ts = JObj
     [(''v'', JInt host_agent_protocol_version), (''type'', JStr ''pong''), (''id'', JStr fid), (''ts'', JStr ts)]"

definition token_get :: "string \<Rightarrow> string \<Rightarrow> json" where
  "token_get fid server = JObj
     [(''v'', JInt host_agent_protocol_version), (''type'', JStr ''token.get''), (''id'', JStr fid),
      (''server'', JStr server)]"

section \<open>What the agent reads back from a response\<close>

text \<open>The fields of an \<^verbatim>\<open>approval_response\<close> as a reader of the JSON object finds them.\<close>

definition read_response :: "json \<Rightarrow> (string option \<times> string option \<times> string option \<times> string option \<times> string option)" where
  "read_response j =
     (let f = (\<lambda>k. Option.bind (json_get j k) as_str)
      in (f ''request_id'', f ''decision'', f ''decided_by'', f ''scope'', f ''ttl''))"

lemma decode_unknown_type:
  assumes "decode_type_tag v = Some t"
    and "t \<notin> {''hello_ack'', ''approval_request'', ''event'', ''ping'', ''token.response''}"
  shows "decode_frame v = Some (InUnknown t)"
  using assms by (simp add: decode_frame_def)

lemma decode_approval_request_frame:
  "decode_frame (JObj ((''type'', JStr ''approval_request'') # approval_request_entries r)) = Some (InApprovalRequest r)"
proof -
  have "decode_approval_request (JObj ((''type'', JStr ''approval_request'') # approval_request_entries r)) = Some r"
    by (cases r) (simp add: decode_approval_request_def approval_request_entries_def
        approval_request_fields_def rd_vals)
  moreover have "decode_type_tag (JObj ((''type'', JStr ''approval_request'') # approval_request_entries r))
      = Some ''approval_request''"
    by (simp add: decode_type_tag_def approval_request_entries_def rd_vals)
  ultimately show ?thesis by (simp add: decode_frame_def)
qed

end
