(* ===== verification/Host_Agent.thy ===== *)
theory Host_Agent
  imports Protocol
begin

text \<open>
  The host-agent client (\<^verbatim>\<open>core/shed-app/src/host_agent.rs\<close>): the connection loop with its backoff,
  the newline framing with a size cap, the dispatch of inbound frames, and the correlation of
  \<^verbatim>\<open>token.get\<close> with \<^verbatim>\<open>token.response\<close>.

  \<^item> The client's shared state is the record \<^verbatim>\<open>host_agent\<close>; every operation that runs under the state
    lock (and every turn of the loop between two awaits) is one function on it, so an interleaving of
    the tasks is a sequence of operations, run by \<^verbatim>\<open>ha_exec\<close>.
  \<^item> A writer channel is the number of its connection; it refuses sends once its writer task has
    ended. A waiting caller of \<^verbatim>\<open>request_token\<close> is a number, standing for the receiving half of its
    oneshot channel; dropping the sending half resumes the caller with \<^verbatim>\<open>Disconnected\<close>.
  \<^item> What goes out is appended to \<^verbatim>\<open>ha_out\<close>: lines sent on a connection (as JSON values, one per line),
    events for the coordinator, results for callers, and sleeps in milliseconds.
  \<^item> The socket, the peer credentials, UUIDs, the clock and serde\_json's parser are inputs.
\<close>

section \<open>State\<close>

datatype host_agent_event =
    HaConnected hello_ack
  | HaDisconnected
  | HaUntrusted
  | HaFrame host_agent_inbound

datatype host_agent_client_error = NotConnected | TimedOut | Disconnected

record hello_client_info =
  hi_name :: string
  hi_version :: string
  hi_pid :: int
  hi_capabilities :: "string list"
  hi_replay_events :: int

datatype loop_phase = LoopOff hello_client_info | LoopConnecting hello_client_info | LoopConnected hello_client_info

datatype ha_effect =
    TxOpen nat "nat option" nat
  | TxSend nat json
  | TxEvent host_agent_event
  | TxToken nat "host_agent_client_error + token_response"
  | TxSleep nat

record host_agent =
  ha_running :: bool
  ha_loop :: loop_phase
  ha_backoff :: nat
  ha_conn :: nat
  ha_writer :: "nat option"
  ha_writer_dead :: bool
  ha_pending :: "(string, nat) hmap"
  ha_out :: "ha_effect list"

record henv =
  he_id :: string
  he_now :: string
  he_parse :: "string \<Rightarrow> json option"

definition initial_backoff :: nat where "initial_backoff = 500"
definition max_backoff :: nat where "max_backoff = 5000"
definition max_frame_bytes :: nat where "max_frame_bytes = 2 ^ 20"

definition tx :: "ha_effect \<Rightarrow> host_agent \<Rightarrow> host_agent" where
  "tx e st = st\<lparr>ha_out := ha_out st @ [e]\<rparr>"

definition ha_new :: "hello_client_info \<Rightarrow> host_agent" where
  "ha_new info =
     \<lparr>ha_running = False, ha_loop = LoopOff info, ha_backoff = initial_backoff, ha_conn = 0, ha_writer = None,
      ha_writer_dead = False, ha_pending = [], ha_out = []\<rparr>"

section \<open>Requests of the rest of the app\<close>

text \<open>\<^verbatim>\<open>st.writer = None; st.pending.clear()\<close>: each dropped sender resumes its caller.\<close>

definition clear_connection :: "host_agent \<Rightarrow> host_agent" where
  "clear_connection st =
     (fold (\<lambda>(_, rep). tx (TxToken rep (Inl Disconnected))) (ha_pending st) st)\<lparr>ha_writer := None, ha_pending := []\<rparr>"

definition ha_start :: "hello_client_info \<Rightarrow> host_agent \<Rightarrow> host_agent" where
  "ha_start info st =
     (clear_connection st)\<lparr>ha_running := True, ha_loop := LoopConnecting info, ha_backoff := initial_backoff\<rparr>"

definition loop_info :: "loop_phase \<Rightarrow> hello_client_info" where
  "loop_info l = (case l of LoopOff i \<Rightarrow> i | LoopConnecting i \<Rightarrow> i | LoopConnected i \<Rightarrow> i)"

definition ha_stop :: "host_agent \<Rightarrow> host_agent" where
  "ha_stop st = clear_connection (st\<lparr>ha_running := False, ha_loop := LoopOff (loop_info (ha_loop st))\<rparr>)"

definition is_connected :: "host_agent \<Rightarrow> bool" where
  "is_connected st \<longleftrightarrow> ha_writer st \<noteq> None"

definition send_line :: "nat \<Rightarrow> json \<Rightarrow> host_agent \<Rightarrow> host_agent" where
  "send_line c j st = (if ha_writer_dead st then st else tx (TxSend c j) st)"

definition write_line :: "json \<Rightarrow> host_agent \<Rightarrow> host_agent" where
  "write_line j st = (case ha_writer st of Some c \<Rightarrow> send_line c j st | None \<Rightarrow> st)"

definition ha_respond ::
  "henv \<Rightarrow> string \<Rightarrow> approval_decision \<Rightarrow> decided_by \<Rightarrow> string option \<Rightarrow> string option \<Rightarrow> host_agent \<Rightarrow> host_agent" where
  "ha_respond env request_id decision by scope ttl st =
     write_line (approval_response (he_id env) (he_now env) request_id decision by scope ttl) st"

text \<open>The first half of \<^verbatim>\<open>request_token\<close>, up to the await; an insertion drops a sender under the same id.\<close>

definition request_token :: "henv \<Rightarrow> string \<Rightarrow> nat \<Rightarrow> host_agent \<Rightarrow> host_agent" where
  "request_token env server rep st =
     (case ha_writer st of
        None \<Rightarrow> tx (TxToken rep (Inl NotConnected)) st
      | Some c \<Rightarrow>
          (let old = hm_get (ha_pending st) (he_id env);
               st = st\<lparr>ha_pending := hm_insert (he_id env) rep (ha_pending st)\<rparr>;
               st = (case old of Some r \<Rightarrow> tx (TxToken r (Inl Disconnected)) st | None \<Rightarrow> st)
           in if ha_writer_dead st
              then tx (TxToken rep (Inl NotConnected)) (st\<lparr>ha_pending := hm_remove (he_id env) (ha_pending st)\<rparr>)
              else send_line c (token_get (he_id env) server) st))"

text \<open>The timeout of \<^verbatim>\<open>request_token\<close>; it fires only for a caller that is still waiting.\<close>

definition token_timeout :: "string \<Rightarrow> host_agent \<Rightarrow> host_agent" where
  "token_timeout i st =
     (case hm_get (ha_pending st) i of
        Some rep \<Rightarrow> tx (TxToken rep (Inl TimedOut)) (st\<lparr>ha_pending := hm_remove i (ha_pending st)\<rparr>)
      | None \<Rightarrow> st)"

definition resolve_pending :: "token_response \<Rightarrow> host_agent \<Rightarrow> host_agent" where
  "resolve_pending resp st =
     (case hm_get (ha_pending st) (tr_in_reply_to resp) of
        Some rep \<Rightarrow> tx (TxToken rep (Inr resp)) (st\<lparr>ha_pending := hm_remove (tr_in_reply_to resp) (ha_pending st)\<rparr>)
      | None \<Rightarrow> st)"

section \<open>The connection loop\<close>

definition peer_trusted :: "nat option \<Rightarrow> nat \<Rightarrow> bool" where
  "peer_trusted peer ours \<longleftrightarrow> peer = Some ours"

definition back_off :: "host_agent \<Rightarrow> host_agent" where
  "back_off st = (tx (TxSleep (ha_backoff st)) st)\<lparr>ha_backoff := min (ha_backoff st * 2) max_backoff\<rparr>"

text \<open>One turn of the loop: whether the path is a socket, whether connecting worked, the peer's UID and ours.\<close>

definition loop_attempt :: "henv \<Rightarrow> bool \<Rightarrow> bool \<Rightarrow> nat option \<Rightarrow> nat \<Rightarrow> host_agent \<Rightarrow> host_agent" where
  "loop_attempt env trustworthy connects peer ours st =
     (case ha_loop st of
        LoopConnecting info \<Rightarrow>
          if \<not> ha_running st then st\<lparr>ha_loop := LoopOff info\<rparr>
          else if \<not> (trustworthy \<and> connects) then back_off st
          else if \<not> peer_trusted peer ours then back_off (tx (TxEvent HaUntrusted) st)
          else (let c = Suc (ha_conn st);
                    st = st\<lparr>ha_backoff := initial_backoff, ha_conn := c, ha_writer := Some c,
                            ha_writer_dead := False, ha_loop := LoopConnected info\<rparr>;
                    st = tx (TxOpen c peer ours) st
                in send_line c (hello (he_id env) (he_now env) (hi_name info) (hi_version info) (hi_pid info)
                                  (hi_capabilities info) (hi_replay_events info)) st)
      | _ \<Rightarrow> st)"

text \<open>
  What a turn asks the system: the kind of file at the path (\<^verbatim>\<open>symlink_metadata\<close> does not follow links), and the
  status and UID of the call that reads the peer's credentials.
\<close>

datatype file_kind = FkSocket | FkSymlink | FkOther

definition socket_is_trustworthy :: "file_kind option \<Rightarrow> bool" where
  "socket_is_trustworthy metadata \<longleftrightarrow> metadata = Some FkSocket"

definition peer_uid :: "int \<Rightarrow> nat \<Rightarrow> nat option" where
  "peer_uid rc uid = (if rc = 0 then Some uid else None)"

definition loop_turn :: "henv \<Rightarrow> file_kind option \<Rightarrow> bool \<Rightarrow> int \<Rightarrow> nat \<Rightarrow> nat \<Rightarrow> host_agent \<Rightarrow> host_agent" where
  "loop_turn env metadata connects rc uid ours st =
     loop_attempt env (socket_is_trustworthy metadata) connects (peer_uid rc uid) ours st"

definition writer_dies :: "host_agent \<Rightarrow> host_agent" where
  "writer_dies st = (if is_connected st then st\<lparr>ha_writer_dead := True\<rparr> else st)"

text \<open>The reader or the writer task ended: \<^verbatim>\<open>select!\<close> returns and the loop cleans up.\<close>

definition connection_ended :: "host_agent \<Rightarrow> host_agent" where
  "connection_ended st =
     (case ha_loop st of
        LoopConnected info \<Rightarrow>
          (let st = tx (TxEvent HaDisconnected) (clear_connection st)
           in if ha_running st then tx (TxSleep initial_backoff) (st\<lparr>ha_loop := LoopConnecting info\<rparr>)
              else st\<lparr>ha_loop := LoopOff info\<rparr>)
      | _ \<Rightarrow> st)"

section \<open>Inbound frames\<close>

fun strip_newline_rev :: "string \<Rightarrow> string" where
  "strip_newline_rev [] = []"
| "strip_newline_rev (c # cs) = (if c = CHR 0x0A \<or> c = CHR 0x0D then strip_newline_rev cs else c # cs)"

definition strip_trailing_newline :: "string \<Rightarrow> string" where
  "strip_trailing_newline line = rev (strip_newline_rev (rev line))"

definition handle_line :: "henv \<Rightarrow> string \<Rightarrow> host_agent \<Rightarrow> host_agent" where
  "handle_line env line st =
     (let trimmed = strip_trailing_newline line in
      if trimmed = [] then st
      else case decode (he_parse env) trimmed of
        None \<Rightarrow> st
      | Some frame \<Rightarrow>
          (case frame of
             InPing i \<Rightarrow> send_line (ha_conn st) (pong i (he_now env)) st
           | InHelloAck ack \<Rightarrow> tx (TxEvent (HaConnected ack)) st
           | InTokenResponse resp \<Rightarrow> resolve_pending resp st
           | other \<Rightarrow> tx (TxEvent (HaFrame other)) st))"

text \<open>
  The reader's buffer fills: the bytes one \<^verbatim>\<open>fill_buf\<close> makes available, or an I/O error; the end of
  the list and an empty fill are the end of the stream.
\<close>

datatype fill = Avail string | IoError

datatype frame_read = FrameOk string | FrameEof | FrameErr

fun read_frame_capped :: "nat \<Rightarrow> fill list \<Rightarrow> string \<Rightarrow> frame_read \<times> fill list" where
  "read_frame_capped mx [] buf = (FrameEof, [])"
| "read_frame_capped mx (IoError # rs) buf = (FrameErr, rs)"
| "read_frame_capped mx (Avail chunk # rs) buf =
     (if chunk = [] then (FrameEof, rs)
      else case split_once (CHR 0x0A) chunk of
        Some (a, b) \<Rightarrow> (FrameOk (buf @ a @ [CHR 0x0A]), if b = [] then rs else Avail b # rs)
      | None \<Rightarrow>
          if length (buf @ chunk) > mx then (FrameErr, rs) else read_frame_capped mx rs (buf @ chunk))"

fun fill_size :: "fill \<Rightarrow> nat" where
  "fill_size (Avail c) = Suc (length c)"
| "fill_size IoError = 1"

definition fills_size :: "fill list \<Rightarrow> nat" where
  "fills_size rs = sum_list (map fill_size rs)"

lemma read_frame_capped_size:
  "read_frame_capped mx rs buf = (FrameOk line, rs') \<Longrightarrow> fills_size rs' < fills_size rs"
proof (induction mx rs buf rule: read_frame_capped.induct)
  case (3 mx chunk rs buf)
  then show ?case
    by (auto simp: fills_size_def split_once_Some split: if_splits option.splits)
qed simp_all

text \<open>The lines that \<^verbatim>\<open>read_frames\<close> hands on before it returns.\<close>

function frames_read :: "nat \<Rightarrow> fill list \<Rightarrow> string list" where
  "frames_read mx rs =
     (case read_frame_capped mx rs [] of
        (FrameOk line, rs') \<Rightarrow> line # frames_read mx rs'
      | _ \<Rightarrow> [])"
  by pat_completeness auto
termination
  by (relation "measure (\<lambda>(mx, rs). fills_size rs)") (auto dest: read_frame_capped_size [OF sym])

declare frames_read.simps [simp del]

definition read_frames :: "henv \<Rightarrow> fill list \<Rightarrow> host_agent \<Rightarrow> host_agent" where
  "read_frames env rs st = fold (handle_line env) (frames_read max_frame_bytes rs) st"

section \<open>Interleavings\<close>

datatype ha_op =
    OpStart hello_client_info
  | OpStop
  | OpAttempt bool bool "nat option" nat
  | OpLine string
  | OpWriterDies
  | OpConnectionEnded
  | OpRespond string approval_decision decided_by "string option" "string option"
  | OpRequestToken string nat
  | OpTimeout string

fun ha_exec :: "henv \<Rightarrow> ha_op \<Rightarrow> host_agent \<Rightarrow> host_agent" where
  "ha_exec env (OpStart info) st = ha_start info st"
| "ha_exec env OpStop st = ha_stop st"
| "ha_exec env (OpAttempt tr co peer ours) st = loop_attempt env tr co peer ours st"
| "ha_exec env (OpLine line) st = (if is_connected st then handle_line env line st else st)"
| "ha_exec env OpWriterDies st = writer_dies st"
| "ha_exec env OpConnectionEnded st = connection_ended st"
| "ha_exec env (OpRespond i d b sc t) st = ha_respond env i d b sc t st"
| "ha_exec env (OpRequestToken server rep) st = request_token env server rep st"
| "ha_exec env (OpTimeout i) st = token_timeout i st"

end
