(* ===== verification/Timefmt.thy ===== *)
theory Timefmt
  imports Prelude
begin

text \<open>
  Timestamp parsing and formatting (\<^verbatim>\<open>core/shed-app/src/timefmt.rs\<close>). chrono's RFC-3339 reader is the parameter
  \<^verbatim>\<open>rfc\<close> (text to unix seconds); the trailing \<^verbatim>\<open> (UTC)\<close> annotation is stripped by recursion.
\<close>

lemma strip_suffix_length: "strip_suffix p s = Some r \<Longrightarrow> length r + length p = length s"
  by (auto simp: strip_suffix_Some)

function parse_unix :: "(string \<Rightarrow> int option) \<Rightarrow> string \<Rightarrow> int option" where
  "parse_unix rfc raw =
     (let trimmed = trim raw in
      if trimmed = [] then None
      else (case rfc trimmed of
              Some t \<Rightarrow> Some t
            | None \<Rightarrow>
                (case strip_suffix '' (UTC)'' trimmed of
                   Some stripped \<Rightarrow> parse_unix rfc stripped
                 | None \<Rightarrow> None)))"
  by pat_completeness auto
termination
proof (relation "measure (\<lambda>(rfc, raw). length raw)", goal_cases)
  case 1
  then show ?case by simp
next
  case (2 rfc raw x stripped)
  then show ?case using strip_suffix_length [of "'' (UTC)''" "trim raw" stripped] length_trim [of raw]
    by simp
qed

declare parse_unix.simps [simp del]

text \<open>
  Formatting: \<open>render\<close> is chrono's text of a number of unix seconds, \<^const>\<open>None\<close> when it is out of chrono's range,
  and then the epoch is formatted instead; \<^const>\<open>None\<close> of the whole is the panic if even that fails.
\<close>

definition format_iso8601 :: "(int \<Rightarrow> string option) \<Rightarrow> int \<Rightarrow> string option" where
  "format_iso8601 render unix = (case render unix of Some s \<Rightarrow> Some s | None \<Rightarrow> render 0)"

text \<open>The system clock: the seconds since the epoch, cast to \<^verbatim>\<open>i64\<close>; 0 for a clock before it.\<close>

definition system_now_unix :: "nat option \<Rightarrow> int" where
  "system_now_unix since_epoch = (case since_epoch of Some d \<Rightarrow> i64_wrap (int d) | None \<Rightarrow> 0)"

lemma parse_unix_blank: "trim raw = [] \<Longrightarrow> parse_unix rfc raw = None"
  by (subst parse_unix.simps) simp

lemma parse_unix_rfc: "trim raw \<noteq> [] \<Longrightarrow> rfc (trim raw) = Some t \<Longrightarrow> parse_unix rfc raw = Some t"
  by (subst parse_unix.simps) simp

lemma parse_unix_Some:
  "parse_unix rfc raw = Some t \<Longrightarrow> \<exists>s. s \<noteq> [] \<and> rfc s = Some t \<and> contains s raw"
proof (induction rfc raw rule: parse_unix.induct)
  case (1 rfc raw)
  let ?tr = "trim raw"
  have ne: "?tr \<noteq> []" using "1.prems" by (auto simp: parse_unix_blank)
  have in_raw: "contains s raw" if "contains s ?tr" for s
    using that trim_infix [of raw] unfolding contains_iff by (metis append.assoc)
  show ?case
  proof (cases "rfc ?tr")
    case (Some u)
    then have "u = t" using "1.prems" ne parse_unix_rfc by fastforce
    moreover have "contains ?tr raw" using trim_infix by (simp add: contains_iff)
    ultimately show ?thesis using Some ne by blast
  next
    case None
    then obtain st where st: "strip_suffix '' (UTC)'' ?tr = Some st" "parse_unix rfc st = Some t"
      using "1.prems" ne by (subst (asm) parse_unix.simps) (auto simp: Let_def split: option.splits)
    then obtain s where s: "s \<noteq> []" "rfc s = Some t" "contains s st"
      using "1.IH" [OF refl ne None st(1)] by blast
    have "contains s ?tr" using s(3) st(1) unfolding contains_iff strip_suffix_Some
      by (metis append.assoc)
    then show ?thesis using s in_raw by blast
  qed
qed

text \<open>
  A timestamp that is written can be read: for a time in chrono's range whose text chrono reads back, parsing gives
  the time; and formatting never fails when the epoch can be written.
\<close>

lemma format_reads_back:
  assumes "render unix = Some s" "rfc s = Some unix" "trim s = s" "s \<noteq> []"
  shows "Option.bind (format_iso8601 render unix) (parse_unix rfc) = Some unix"
  using assms by (simp add: format_iso8601_def parse_unix_rfc)

lemma format_total: "render 0 \<noteq> None \<Longrightarrow> format_iso8601 render unix \<noteq> None"
  by (simp add: format_iso8601_def split: option.splits)

end
