(* ===== verification/Audit_Store.thy ===== *)
theory Audit_Store
  imports Approval_Models
begin

text \<open>
  The app's audit log (\<^verbatim>\<open>core/shed-app/src/audit_store.rs\<close>): a bounded in-memory tail of a
  \<^verbatim>\<open>VecDeque\<close> (a list, oldest first) and a best-effort JSONL file. The file write cannot influence the
  program (its result is dropped), so the lines handed to the file system are collected in
  \<^verbatim>\<open>as_attempted\<close>.
\<close>

definition default_tail_limit :: nat where
  "default_tail_limit = 500"

record audit_store =
  as_path :: string
  as_tail :: "audit_entry list"
  as_tail_limit :: nat
  as_attempted :: "json list"

definition audit_with_tail_limit :: "string \<Rightarrow> nat \<Rightarrow> audit_store" where
  "audit_with_tail_limit path lim = \<lparr>as_path = path, as_tail = [], as_tail_limit = lim, as_attempted = []\<rparr>"

definition audit_new :: "string \<Rightarrow> audit_store" where
  "audit_new path = audit_with_tail_limit path default_tail_limit"

text \<open>\<^verbatim>\<open>while tail.len() > tail_limit { tail.pop_front() }\<close>.\<close>

fun trim_tail :: "nat \<Rightarrow> 'a list \<Rightarrow> 'a list" where
  "trim_tail lim [] = []"
| "trim_tail lim (x # xs) = (if length (x # xs) > lim then trim_tail lim xs else x # xs)"

definition audit_append :: "audit_entry \<Rightarrow> audit_store \<Rightarrow> audit_store" where
  "audit_append e st =
     st\<lparr>as_attempted := as_attempted st @ [encode_audit_entry e],
        as_tail := trim_tail (as_tail_limit st) (as_tail st @ [e])\<rparr>"

definition audit_recent :: "nat \<Rightarrow> audit_store \<Rightarrow> audit_entry list" where
  "audit_recent limit st = take limit (rev (as_tail st))"

definition audit_inv :: "audit_store \<Rightarrow> bool" where
  "audit_inv st \<longleftrightarrow> length (as_tail st) \<le> as_tail_limit st"

definition audit_append_all :: "audit_entry list \<Rightarrow> audit_store \<Rightarrow> audit_store" where
  "audit_append_all es st = fold audit_append es st"

lemma trim_tail_drop: "trim_tail lim xs = drop (length xs - lim) xs"
  by (induction xs) (auto simp: Suc_diff_le)

lemma length_trim_tail: "length (trim_tail lim xs) = min lim (length xs)"
  by (simp add: trim_tail_drop)

lemma audit_append_fields [simp]:
  "as_path (audit_append e st) = as_path st"
  "as_tail_limit (audit_append e st) = as_tail_limit st"
  "as_attempted (audit_append e st) = as_attempted st @ [encode_audit_entry e]"
  by (simp_all add: audit_append_def)

lemma audit_append_inv [simp, intro]: "audit_inv (audit_append e st)"
  by (simp add: audit_inv_def audit_append_def length_trim_tail)

lemma trim_tail_append:
  "trim_tail lim (trim_tail lim xs @ ys) = trim_tail lim (xs @ ys)"
proof (cases "length xs \<le> lim")
  case True
  then show ?thesis by (simp add: trim_tail_drop)
next
  case False
  then show ?thesis by (simp add: trim_tail_drop add.commute)
qed

lemma audit_append_all_fields:
  "as_tail (audit_append_all es st) = (if es = [] then as_tail st else trim_tail (as_tail_limit st) (as_tail st @ es))
   \<and> as_tail_limit (audit_append_all es st) = as_tail_limit st
   \<and> as_attempted (audit_append_all es st) = as_attempted st @ map encode_audit_entry es"
proof (induction es rule: rev_induct)
  case Nil
  then show ?case by (simp add: audit_append_all_def)
next
  case (snoc e es)
  then have "as_tail (audit_append_all (es @ [e]) st)
      = trim_tail (as_tail_limit st) (as_tail (audit_append_all es st) @ [e])"
    by (simp add: audit_append_all_def audit_append_def)
  also have "\<dots> = trim_tail (as_tail_limit st) (as_tail st @ es @ [e])"
    using snoc trim_tail_append [of "as_tail_limit st" "as_tail st @ es" "[e]"]
    by (cases "es = []") simp_all
  finally show ?case using snoc by (simp add: audit_append_all_def)
qed

lemma take_min_length: "take (min k (length xs)) xs = take k xs"
  by (simp add: min_def)

lemma rev_trim_tail: "take n (rev (trim_tail lim xs)) = take (min n lim) (rev xs)"
proof -
  have "min n (length xs - (length xs - lim)) = min (min n lim) (length (rev xs))" by simp
  then show ?thesis by (simp only: trim_tail_drop rev_drop take_take take_min_length)
qed

text \<open>
  The Activity feed after any sequence of appends to a fresh store is the last entries in
  reverse order, as many as asked for and at most the tail limit, while every entry was handed to
  the log file in order.
\<close>

lemma activity_feed_is_recent_suffix:
  "audit_recent n (audit_append_all es (audit_with_tail_limit p lim)) = take (min n lim) (rev es)
   \<and> as_attempted (audit_append_all es (audit_with_tail_limit p lim)) = map encode_audit_entry es"
  by (cases "es = []")
    (simp_all add: audit_recent_def audit_append_all_fields audit_with_tail_limit_def rev_trim_tail)

end
