(* ===== verification/Coordinator.thy ===== *)
theory Coordinator
  imports Policy Host_Agent Timefmt Audit_Store
begin

text \<open>
  The approval coordinator (\<^verbatim>\<open>core/shed-app/src/coordinator.rs\<close>), a single-task actor: every command
  is handled to its end before the next one, so the actor is the function \<^verbatim>\<open>run_command\<close> from a state
  to a state. What the handler does to the outside (responding to the host agent, posting and
  withdrawing notifications, emitting UI events, appending to the audit log, spawning a gate task,
  answering a caller) is appended to the state's trace \<^verbatim>\<open>out\<close>, in the order of the calls.

  \<^item> The platform seams are inputs: the record \<^verbatim>\<open>cenv\<close> holds the clock reading of the command, chrono's
    RFC-3339 reader, the fresh UUID a handler may need and what \<^verbatim>\<open>Notifier::posted\<close> returns. The
    clock is read once per command.
  \<^item> A spawned gate task is the effect \<^verbatim>\<open>FxSpawnGate\<close>; its re-entry is the command \<^verbatim>\<open>GateResolved\<close>.
  \<^item> \<^verbatim>\<open>last_error\<close> keeps the ingredients of the message instead of the formatted text.
\<close>

section \<open>State\<close>

record pending_approval =
  pa_request :: approval_request
  pa_gate :: policy_gate

datatype grant_expiry = Sticky | Until int

record ssh_prefs =
  sp_method :: approval_method
  sp_policy :: ssh_approval_policy
  sp_ttl :: string

definition default_ssh_prefs :: ssh_prefs where
  "default_ssh_prefs =
     \<lparr>sp_method = MBiometricsOrPassword, sp_policy = TimeBasedAllow, sp_ttl = default_approval_ttl\<rparr>"

datatype auth_outcome = OApproved | ODenied | OCancelled | OUnavailable | OError string

record auth_prompt =
  ap_reason :: string
  ap_biometrics_only :: bool

datatype coordinator_event = EvApprovals | EvActivity | EvConnected

record posted_notification =
  pn_id :: string
  pn_title :: string
  pn_body :: string

datatype coord_error = AuthNotConfirmed string auth_outcome | PeerUidCheckFailed

text \<open>A \<^verbatim>\<open>oneshot::Sender\<close> is a number that identifies the waiting caller.\<close>

type_synonym reply = nat

datatype command =
    CHost host_agent_event
  | CExpire "reply option"
  | CDecide string approval_choice reply
  | CGateResolved string approval_request policy_gate approval_choice auth_outcome reply
  | CSetSshApproval "approval_method option" "ssh_approval_policy option" "string option" reply
  | CSetPolicyRules "policy_rule list" reply
  | CApprovalsList reply
  | CActivityList nat reply
  | CPolicyList reply
  | CNotificationsList reply
  | CNotificationInvoke string approval_decision reply reply
  | CAuditLogPath reply
  | CGateNamespaces reply
  | CSshPrefs reply

datatype answer =
    AnsUnit
  | AnsItems "pending_approval_item list"
  | AnsEntries "audit_entry list"
  | AnsRules "policy_rule list"
  | AnsNotifications "posted_notification list"
  | AnsBool bool
  | AnsText string
  | AnsTexts "string list"
  | AnsPrefs ssh_prefs

datatype effect =
    FxAudit audit_entry
  | FxRespond string approval_decision decided_by "string option" "string option"
  | FxPost approval_request
  | FxWithdraw string
  | FxEmit coordinator_event
  | FxSpawnGate auth_prompt string approval_request policy_gate approval_choice reply
  | FxReply reply answer
  | FxSelfSend command

record coord =
  pending :: "(string, pending_approval) hmap"
  gating :: "string set"
  session_grants :: "(session_grant_key, grant_expiry) hmap"
  engine :: policy_engine
  extra_rules :: "policy_rule list"
  ssh :: ssh_prefs
  provider_modes :: "(string, approval_decision) hmap"
  gate_namespaces :: "string list"
  last_error :: "coord_error option"
  audit :: audit_store
  out :: "effect list"

record cenv =
  now_unix :: int
  now_iso8601 :: string
  rfc3339 :: "string \<Rightarrow> int option"
  fresh_id :: string
  notifier_posted :: "posted_notification list"

definition fx :: "effect \<Rightarrow> coord \<Rightarrow> coord" where
  "fx e s = s\<lparr>out := out s @ [e]\<rparr>"

section \<open>Expiry and grants\<close>

definition grant_ttl_fallback_secs :: int where
  "grant_ttl_fallback_secs = 2 * 3600"

definition not_expired :: "cenv \<Rightarrow> approval_request \<Rightarrow> bool" where
  "not_expired env req =
     (case parse_unix (rfc3339 env) (ar_expires_at req) of Some e \<Rightarrow> e > now_unix env | None \<Rightarrow> False)"

definition expired_by_tick :: "cenv \<Rightarrow> approval_request \<Rightarrow> bool" where
  "expired_by_tick env req =
     (case parse_unix (rfc3339 env) (ar_expires_at req) of Some e \<Rightarrow> e < now_unix env | None \<Rightarrow> False)"

definition grant_live :: "cenv \<Rightarrow> grant_expiry \<Rightarrow> bool" where
  "grant_live env e = (case e of Sticky \<Rightarrow> True | Until t \<Rightarrow> t > now_unix env)"

definition valid_grants :: "cenv \<Rightarrow> coord \<Rightarrow> session_grant_key list" where
  "valid_grants env s = map fst (filter (\<lambda>(k, e). grant_live env e) (session_grants s))"

section \<open>Policy\<close>

definition provider_mode :: "coord \<Rightarrow> string \<Rightarrow> approval_decision" where
  "provider_mode s ns = unwrap_or (hm_get (provider_modes s) ns) Deny"

definition namespace_rule :: "string \<Rightarrow> policy_action \<Rightarrow> policy_gate \<Rightarrow> policy_rule" where
  "namespace_rule ns act g =
     \<lparr>pr_scope = ScopeNamespace, pr_server = None, pr_namespace = Some ns, pr_shed = None,
      pr_action = act, pr_gate = g\<rparr>"

definition rebuild_policy :: "coord \<Rightarrow> coord" where
  "rebuild_policy s =
     (let p = sp_policy (ssh s);
          ssh_gate = (if prompts p then method_gate (sp_method (ssh s)) else NoGate);
          rules = [namespace_rule ns_ssh (namespace_action p) ssh_gate,
                   namespace_rule ns_aws (decision_policy_action (provider_mode s ns_aws)) NoGate,
                   namespace_rule ns_docker (decision_policy_action (provider_mode s ns_docker)) NoGate]
      in s\<lparr>engine := \<lparr>pe_rules = rules @ extra_rules s\<rparr>\<rparr>)"

definition reset_ssh_grants :: "coord \<Rightarrow> coord" where
  "reset_ssh_grants s = s\<lparr>session_grants := filter (\<lambda>(k, _). gk_namespace k \<noteq> ns_ssh) (session_grants s)\<rparr>"

definition add_shed_rule :: "string \<Rightarrow> string \<Rightarrow> approval_decision \<Rightarrow> coord \<Rightarrow> coord" where
  "add_shed_rule server shed action s =
     rebuild_policy (s\<lparr>extra_rules :=
        filter (\<lambda>r. \<not> (pr_scope r = ScopeShed \<and> pr_shed r = Some shed
                        \<and> unwrap_or (pr_server r) [] = server)) (extra_rules s)
        @ [\<lparr>pr_scope = ScopeShed, pr_server = Some server, pr_namespace = None, pr_shed = Some shed,
            pr_action = decision_policy_action action, pr_gate = NoGate\<rparr>]\<rparr>)"

section \<open>Recording and responding\<close>

definition app_audit_entry :: "cenv \<Rightarrow> approval_request \<Rightarrow> approval_decision \<Rightarrow> string \<Rightarrow> audit_entry" where
  "app_audit_entry env req decision policy =
     \<lparr>ae_id = ar_id req, ae_ts = now_iso8601 env, ae_source = SrcApp,
      ae_server = (if ar_server req = [] then None else Some (ar_server req)),
      ae_shed = Some (ar_shed req), ae_ns = Some (ar_namespace req), ae_op = Some (ar_op req),
      ae_result = (if decision = Approve then ''ok'' else ''denied''),
      ae_detail = Some (ar_detail req), ae_code = None, ae_reason = None,
      ae_approval = Some ''shed-desktop'', ae_policy = Some policy\<rparr>"

definition audit_entry_append :: "audit_entry \<Rightarrow> coord \<Rightarrow> coord" where
  "audit_entry_append e s = fx (FxAudit e) (s\<lparr>audit := audit_append e (audit s)\<rparr>)"

definition record_and_respond ::
  "cenv \<Rightarrow> approval_request \<Rightarrow> approval_decision \<Rightarrow> decided_by \<Rightarrow> string \<Rightarrow> string \<Rightarrow> string \<Rightarrow> coord \<Rightarrow> coord" where
  "record_and_respond env req decision by policy scope ttl s =
     fx (FxRespond (ar_id req) decision by
           (if scope = [] then None else Some scope) (if ttl = [] then None else Some ttl))
        (audit_entry_append (app_audit_entry env req decision policy) s)"

definition respond_and_audit ::
  "cenv \<Rightarrow> approval_request \<Rightarrow> approval_decision \<Rightarrow> decided_by \<Rightarrow> string \<Rightarrow> string \<Rightarrow> string \<Rightarrow> coord \<Rightarrow> coord" where
  "respond_and_audit env req decision by policy scope ttl s =
     fx (FxEmit EvActivity) (record_and_respond env req decision by policy scope ttl s)"

section \<open>Host-agent events\<close>

definition handle_approval_request :: "cenv \<Rightarrow> approval_request \<Rightarrow> coord \<Rightarrow> coord" where
  "handle_approval_request env req s =
     (let d = decide (engine s) req (valid_grants env s) in
      case pd_action d of
        PActApprove \<Rightarrow> respond_and_audit env req Approve ByPolicy (policy_scope_wire (pd_applied_scope d)) [] [] s
      | PActDeny \<Rightarrow> respond_and_audit env req Deny ByPolicy (policy_scope_wire (pd_applied_scope d)) [] [] s
      | PActPrompt \<Rightarrow>
          (let s = s\<lparr>gating := gating s - {ar_id req}\<rparr>;
               s = fx (FxPost req) s;
               s = s\<lparr>pending := hm_insert (ar_id req) \<lparr>pa_request = req, pa_gate = pd_gate d\<rparr> (pending s)\<rparr>
           in fx (FxEmit EvApprovals) s))"

definition handle_host_event :: "cenv \<Rightarrow> host_agent_event \<Rightarrow> coord \<Rightarrow> coord" where
  "handle_host_event env ev s =
     (case ev of
        HaConnected ack \<Rightarrow> fx (FxEmit EvConnected) (s\<lparr>gate_namespaces := ha_gate_namespaces ack\<rparr>)
      | HaDisconnected \<Rightarrow>
          (let s = fold (\<lambda>i. fx (FxWithdraw i)) (hm_keys (pending s)) s;
               s = s\<lparr>pending := [], gating := {}, session_grants := []\<rparr>;
               s = fx (FxEmit EvApprovals) s
           in fx (FxEmit EvConnected) (s\<lparr>gate_namespaces := []\<rparr>))
      | HaUntrusted \<Rightarrow>
          fx (FxEmit EvConnected) (s\<lparr>last_error := Some PeerUidCheckFailed, gate_namespaces := []\<rparr>)
      | HaFrame frame \<Rightarrow>
          (case frame of
             InApprovalRequest req \<Rightarrow> handle_approval_request env req s
           | InEvent evt \<Rightarrow>
               fx (FxEmit EvActivity)
                  (audit_entry_append (from_event_frame evt (fresh_id env) (now_iso8601 env)) s)
           | _ \<Rightarrow> s))"

section \<open>User decisions: phase two, then phase one\<close>

text \<open>
  The bookkeeping of a committed decision: the grant or rule it leaves behind, and the policy label,
  scope and TTL that are recorded and sent.
\<close>

definition decision_bookkeeping ::
  "cenv \<Rightarrow> approval_request \<Rightarrow> approval_choice \<Rightarrow> coord \<Rightarrow> coord \<times> string \<times> string \<times> string" where
  "decision_bookkeeping env req choice s =
     (let decision = ch_decision choice;
          s = (if decision = Deny then s\<lparr>session_grants := hm_remove (grant_key req) (session_grants s)\<rparr> else s);
          sent_scope = (case ch_scope choice of Some sc \<Rightarrow> approval_scope_wire sc | None \<Rightarrow> ''per-request'')
      in if ch_persist choice
         then (add_shed_rule (ar_server req) (ar_shed req) decision s,
               if decision = Approve then ''shed-rule'' else ''deny-rule'', ''always'', [])
         else if decision = Approve
         then (case ch_scope choice of
                 Some PerShed \<Rightarrow>
                   (s\<lparr>session_grants := hm_insert (grant_key req) Sticky (session_grants s)\<rparr>,
                    ''session-grant'', sent_scope, [])
               | Some PerSession \<Rightarrow>
                   (let ttl_text = unwrap_or (opt_filter (\<lambda>t. ttl_shorthand_seconds t \<noteq> None) (ch_ttl choice))
                                     default_approval_ttl;
                        secs = unwrap_or (ttl_shorthand_seconds ttl_text) grant_ttl_fallback_secs
                    in (s\<lparr>session_grants :=
                            hm_insert (grant_key req) (Until (i64_wrap (now_unix env + secs))) (session_grants s)\<rparr>,
                        ''session-grant'', sent_scope, ttl_text))
               | _ \<Rightarrow> (s, ''manual'', sent_scope, []))
         else (s, ''manual'', sent_scope, []))"

definition commit_decision ::
  "cenv \<Rightarrow> string \<Rightarrow> approval_request \<Rightarrow> policy_gate \<Rightarrow> approval_choice \<Rightarrow> coord \<Rightarrow> coord" where
  "commit_decision env i req captured_gate choice s =
     (let decision = ch_decision choice;
          by = (if decision = Approve \<and> is_biometric captured_gate then ByTouchid else ByUser)
      in case decision_bookkeeping env req choice s of
           (s, policy_label, sent_scope, sent_ttl) \<Rightarrow>
             (let s = respond_and_audit env req decision by policy_label sent_scope sent_ttl s;
                  s = s\<lparr>pending := hm_remove i (pending s)\<rparr>
              in fx (FxEmit EvApprovals) (fx (FxWithdraw i) s)))"

definition finish_decide ::
  "cenv \<Rightarrow> string \<Rightarrow> approval_request \<Rightarrow> policy_gate \<Rightarrow> approval_choice \<Rightarrow> auth_outcome \<Rightarrow> coord \<Rightarrow> coord" where
  "finish_decide env i captured_request captured_gate choice outcome s =
     (let s = s\<lparr>gating := gating s - {i}\<rparr> in
      case hm_get (pending s) i of
        None \<Rightarrow> s
      | Some item \<Rightarrow>
          if pa_request item \<noteq> captured_request then s
          else if \<not> not_expired env captured_request then s
          else if ch_decision choice = Approve \<and> is_biometric captured_gate \<and> outcome \<noteq> OApproved
          then s\<lparr>last_error := Some (AuthNotConfirmed (ar_shed captured_request) outcome)\<rparr>
          else commit_decision env i captured_request captured_gate choice s)"

definition gate_prompt :: "approval_request \<Rightarrow> policy_gate \<Rightarrow> auth_prompt" where
  "gate_prompt req g =
     \<lparr>ap_reason = ''Approve '' @ ar_namespace req @ '' '' @ ar_op req @ '' for shed '' @ ar_shed req,
      ap_biometrics_only = (g = Biometrics)\<rparr>"

definition begin_decide :: "cenv \<Rightarrow> string \<Rightarrow> approval_choice \<Rightarrow> reply \<Rightarrow> coord \<Rightarrow> coord" where
  "begin_decide env i choice rep s =
     (case hm_get (pending s) i of
        None \<Rightarrow> fx (FxReply rep AnsUnit) s
      | Some item \<Rightarrow>
          if \<not> not_expired env (pa_request item) then fx (FxReply rep AnsUnit) s
          else if ch_decision choice = Approve \<and> is_biometric (pa_gate item)
          then (if i \<in> gating s then fx (FxReply rep AnsUnit) s
                else fx (FxSpawnGate (gate_prompt (pa_request item) (pa_gate item)) i (pa_request item)
                          (pa_gate item) choice rep)
                        (s\<lparr>gating := insert i (gating s)\<rparr>))
          else fx (FxReply rep AnsUnit)
                  (finish_decide env i (pa_request item) (pa_gate item) choice OApproved s))"

section \<open>Expiry sweep and re-evaluation\<close>

definition expire_one :: "cenv \<Rightarrow> approval_request \<Rightarrow> coord \<Rightarrow> coord" where
  "expire_one env req s =
     (let s = record_and_respond env req Deny ByTimeout ''expired'' [] [] s;
          s = s\<lparr>pending := hm_remove (ar_id req) (pending s)\<rparr>
      in fx (FxWithdraw (ar_id req)) s)"

definition expire_pending :: "cenv \<Rightarrow> coord \<Rightarrow> coord" where
  "expire_pending env s =
     (let expired = filter (expired_by_tick env) (map (pa_request \<circ> snd) (pending s));
          s = fold (expire_one env) expired s
      in if expired = [] then s else fx (FxEmit EvApprovals) (fx (FxEmit EvActivity) s))"

definition reevaluate_one :: "cenv \<Rightarrow> session_grant_key list \<Rightarrow> string \<Rightarrow> coord \<Rightarrow> coord" where
  "reevaluate_one env grants i s =
     (case hm_get (pending s) i of
        None \<Rightarrow> s
      | Some item \<Rightarrow>
          if expired_by_tick env (pa_request item) then s
          else (let d = decide (engine s) (pa_request item) grants in
                if pd_action d = PActPrompt
                then s\<lparr>pending := hm_insert i (item\<lparr>pa_gate := pd_gate d\<rparr>) (pending s)\<rparr>
                else (let dec = (if pd_action d = PActApprove then Approve else Deny);
                          s = respond_and_audit env (pa_request item) dec ByPolicy
                                (policy_scope_wire (pd_applied_scope d)) [] [] s;
                          s = s\<lparr>pending := hm_remove i (pending s)\<rparr>
                      in fx (FxWithdraw i) s)))"

definition reevaluate_pending :: "cenv \<Rightarrow> coord \<Rightarrow> coord" where
  "reevaluate_pending env s =
     fx (FxEmit EvApprovals) (fold (reevaluate_one env (valid_grants env s)) (hm_keys (pending s)) s)"

definition set_ssh_approval ::
  "cenv \<Rightarrow> approval_method option \<Rightarrow> ssh_approval_policy option \<Rightarrow> string option \<Rightarrow> coord \<Rightarrow> coord" where
  "set_ssh_approval env m p t s =
     (let prefs = ssh s;
          prefs = (case m of Some x \<Rightarrow> prefs\<lparr>sp_method := x\<rparr> | None \<Rightarrow> prefs);
          prefs = (case p of Some x \<Rightarrow> prefs\<lparr>sp_policy := x\<rparr> | None \<Rightarrow> prefs);
          prefs = (case t of Some x \<Rightarrow> prefs\<lparr>sp_ttl := x\<rparr> | None \<Rightarrow> prefs)
      in reevaluate_pending env (reset_ssh_grants (rebuild_policy (s\<lparr>ssh := prefs\<rparr>))))"

section \<open>Queries and the actor loop\<close>

definition sorted_items :: "coord \<Rightarrow> pending_approval_item list" where
  "sorted_items s =
     (let scope = unwrap_or (default_scope (sp_policy (ssh s))) PerRequest;
          items = sort_key (\<lambda>p. ar_expires_at (pa_request p)) (map snd (pending s))
      in map (\<lambda>p. \<lparr>pai_request = pa_request p, pai_gate = pa_gate p, pai_default_scope = scope,
                    pai_default_ttl = sp_ttl (ssh s)\<rparr>) items)"

definition coord_init ::
  "audit_store \<Rightarrow> ssh_prefs \<Rightarrow> policy_rule list \<Rightarrow> (string, approval_decision) hmap \<Rightarrow> coord" where
  "coord_init store prefs rules modes =
     rebuild_policy
       \<lparr>pending = [], gating = {}, session_grants = [], engine = \<lparr>pe_rules = []\<rparr>, extra_rules = rules,
        ssh = prefs, provider_modes = modes, gate_namespaces = [], last_error = None, audit = store,
        out = []\<rparr>"

fun run_command :: "cenv \<Rightarrow> command \<Rightarrow> coord \<Rightarrow> coord" where
  "run_command env (CHost ev) s = handle_host_event env ev s"
| "run_command env (CExpire rep) s =
     (let s = expire_pending env s in case rep of Some r \<Rightarrow> fx (FxReply r AnsUnit) s | None \<Rightarrow> s)"
| "run_command env (CDecide i choice rep) s = begin_decide env i choice rep s"
| "run_command env (CGateResolved i req g choice outcome rep) s =
     fx (FxReply rep AnsUnit) (finish_decide env i req g choice outcome s)"
| "run_command env (CSetSshApproval m p t rep) s = fx (FxReply rep AnsUnit) (set_ssh_approval env m p t s)"
| "run_command env (CSetPolicyRules rules rep) s =
     fx (FxReply rep AnsUnit) (s\<lparr>engine := \<lparr>pe_rules = rules\<rparr>\<rparr>)"
| "run_command env (CApprovalsList rep) s = fx (FxReply rep (AnsItems (sorted_items s))) s"
| "run_command env (CActivityList limit rep) s = fx (FxReply rep (AnsEntries (audit_recent limit (audit s)))) s"
| "run_command env (CPolicyList rep) s = fx (FxReply rep (AnsRules (pe_rules (engine s)))) s"
| "run_command env (CNotificationsList rep) s = fx (FxReply rep (AnsNotifications (notifier_posted env))) s"
| "run_command env (CNotificationInvoke i decision dead rep) s =
     (let exists = list_ex (\<lambda>n. pn_id n = i) (notifier_posted env);
          s = (if exists
               then fx (FxSelfSend (CDecide i \<lparr>ch_decision = decision, ch_scope = None, ch_ttl = None,
                                               ch_persist = False\<rparr> dead)) s
               else s)
      in fx (FxReply rep (AnsBool exists)) s)"
| "run_command env (CAuditLogPath rep) s = fx (FxReply rep (AnsText (as_path (audit s)))) s"
| "run_command env (CGateNamespaces rep) s = fx (FxReply rep (AnsTexts (gate_namespaces s))) s"
| "run_command env (CSshPrefs rep) s = fx (FxReply rep (AnsPrefs (ssh s))) s"

section \<open>Field lemmas\<close>

lemma fx_fields [simp]:
  "pending (fx e s) = pending s" "gating (fx e s) = gating s" "session_grants (fx e s) = session_grants s"
  "engine (fx e s) = engine s" "extra_rules (fx e s) = extra_rules s" "ssh (fx e s) = ssh s"
  "provider_modes (fx e s) = provider_modes s" "gate_namespaces (fx e s) = gate_namespaces s"
  "last_error (fx e s) = last_error s" "audit (fx e s) = audit s" "out (fx e s) = out s @ [e]"
  by (simp_all add: fx_def)

lemma rebuild_policy_fields [simp]:
  "pending (rebuild_policy s) = pending s" "gating (rebuild_policy s) = gating s"
  "session_grants (rebuild_policy s) = session_grants s" "extra_rules (rebuild_policy s) = extra_rules s"
  "ssh (rebuild_policy s) = ssh s" "provider_modes (rebuild_policy s) = provider_modes s"
  "audit (rebuild_policy s) = audit s" "out (rebuild_policy s) = out s"
  by (simp_all add: rebuild_policy_def Let_def)

lemma add_shed_rule_fields [simp]:
  "pending (add_shed_rule sv sh a s) = pending s" "gating (add_shed_rule sv sh a s) = gating s"
  "session_grants (add_shed_rule sv sh a s) = session_grants s" "ssh (add_shed_rule sv sh a s) = ssh s"
  "audit (add_shed_rule sv sh a s) = audit s" "out (add_shed_rule sv sh a s) = out s"
  by (simp_all add: add_shed_rule_def)

lemma reset_ssh_grants_fields [simp]:
  "pending (reset_ssh_grants s) = pending s" "gating (reset_ssh_grants s) = gating s"
  "engine (reset_ssh_grants s) = engine s" "extra_rules (reset_ssh_grants s) = extra_rules s"
  "ssh (reset_ssh_grants s) = ssh s" "audit (reset_ssh_grants s) = audit s" "out (reset_ssh_grants s) = out s"
  by (simp_all add: reset_ssh_grants_def)

lemma respond_fields [simp]:
  "pending (respond_and_audit env req d b p sc t s) = pending s"
  "gating (respond_and_audit env req d b p sc t s) = gating s"
  "session_grants (respond_and_audit env req d b p sc t s) = session_grants s"
  "engine (respond_and_audit env req d b p sc t s) = engine s"
  "extra_rules (respond_and_audit env req d b p sc t s) = extra_rules s"
  "ssh (respond_and_audit env req d b p sc t s) = ssh s"
  "pending (record_and_respond env req d b p sc t s) = pending s"
  "gating (record_and_respond env req d b p sc t s) = gating s"
  "session_grants (record_and_respond env req d b p sc t s) = session_grants s"
  "engine (record_and_respond env req d b p sc t s) = engine s"
  "extra_rules (record_and_respond env req d b p sc t s) = extra_rules s"
  by (simp_all add: respond_and_audit_def record_and_respond_def audit_entry_append_def)

text \<open>The effects of one recorded response.\<close>

definition response_fx ::
  "cenv \<Rightarrow> approval_request \<Rightarrow> approval_decision \<Rightarrow> decided_by \<Rightarrow> string \<Rightarrow> string \<Rightarrow> string \<Rightarrow> effect list" where
  "response_fx env req d b p sc t =
     [FxAudit (app_audit_entry env req d p),
      FxRespond (ar_id req) d b (if sc = [] then None else Some sc) (if t = [] then None else Some t)]"

lemma respond_out [simp]:
  "out (record_and_respond env req d b p sc t s) = out s @ response_fx env req d b p sc t"
  "out (respond_and_audit env req d b p sc t s) = out s @ response_fx env req d b p sc t @ [FxEmit EvActivity]"
  by (simp_all add: respond_and_audit_def record_and_respond_def audit_entry_append_def response_fx_def)

lemma decision_bookkeeping_fields:
  assumes "decision_bookkeeping env req choice s = (s', l, sc, t)"
  shows "pending s' = pending s" "gating s' = gating s" "out s' = out s" "audit s' = audit s" "ssh s' = ssh s"
  using assms
  by (auto simp: decision_bookkeeping_def Let_def split: if_splits option.splits approval_scope.splits)

end
