(* ===== verification/Coordinator_Safety.thy ===== *)
theory Coordinator_Safety
  imports Coordinator
begin

text \<open>
  The basis of the coordinator's properties: the well-formedness invariant that every handler keeps, what each
  handler does to the pending requests and to the effect trace, and the balance of responses owed and sent.
\<close>

section \<open>Invariant\<close>

definition pend_ok :: "(string, pending_approval) hmap \<Rightarrow> bool" where
  "pend_ok m \<longleftrightarrow> hm_ok m \<and> list_all (\<lambda>(k, p). ar_id (pa_request p) = k) m"

definition coord_inv :: "coord \<Rightarrow> bool" where
  "coord_inv s \<longleftrightarrow> pend_ok (pending s) \<and> hm_ok (session_grants s)"

lemma coord_inv_cong:
  "pending s' = pending s \<Longrightarrow> session_grants s' = session_grants s \<Longrightarrow> coord_inv s' = coord_inv s"
  by (simp add: coord_inv_def)

lemma pend_okD: "pend_ok m \<Longrightarrow> hm_get m i = Some p \<Longrightarrow> ar_id (pa_request p) = i"
  by (auto simp: pend_ok_def list_all_iff dest: map_of_SomeD)

lemma coord_inv_pendingD:
  "coord_inv s \<Longrightarrow> hm_get (pending s) i = Some p \<Longrightarrow> ar_id (pa_request p) = i"
  by (auto simp: coord_inv_def dest: pend_okD)

lemma set_hm_insert: "(k, v) \<in> set (hm_insert j w m) \<Longrightarrow> (k, v) \<in> set m \<or> (k = j \<and> v = w)"
  by (induction m) (auto split: if_splits)

lemma pend_ok_simps [simp]: "pend_ok []"
  by (simp add: pend_ok_def)

lemma pend_ok_remove [simp]: "pend_ok m \<Longrightarrow> pend_ok (hm_remove i m)"
  by (auto simp: pend_ok_def list_all_iff AList.delete_eq)

lemma pend_ok_filter [simp]: "pend_ok m \<Longrightarrow> pend_ok (filter P m)"
  by (auto simp: pend_ok_def list_all_iff)

lemma pend_ok_insert [simp]: "pend_ok m \<Longrightarrow> ar_id (pa_request p) = i \<Longrightarrow> pend_ok (hm_insert i p m)"
  by (auto simp: pend_ok_def list_all_iff dest!: set_hm_insert)

lemma coord_inv_set_pending [simp]:
  "coord_inv (s\<lparr>pending := m\<rparr>) \<longleftrightarrow> pend_ok m \<and> hm_ok (session_grants s)"
  by (simp add: coord_inv_def)

lemma coord_invD: "coord_inv s \<Longrightarrow> pend_ok (pending s)" "coord_inv s \<Longrightarrow> hm_ok (session_grants s)"
  by (simp_all add: coord_inv_def)

lemma coord_inv_simps [simp]:
  "coord_inv (fx e s) = coord_inv s"
  "coord_inv (rebuild_policy s) = coord_inv s"
  "coord_inv (add_shed_rule sv sh a s) = coord_inv s"
  "coord_inv (respond_and_audit env req d b p sc t s) = coord_inv s"
  "coord_inv (record_and_respond env req d b p sc t s) = coord_inv s"
  "coord_inv (audit_entry_append ae s) = coord_inv s"
  "coord_inv (s\<lparr>gating := g\<rparr>) = coord_inv s"
  "coord_inv (s\<lparr>engine := en\<rparr>) = coord_inv s"
  "coord_inv (s\<lparr>last_error := er\<rparr>) = coord_inv s"
  "coord_inv (s\<lparr>gate_namespaces := gn\<rparr>) = coord_inv s"
  "coord_inv (s\<lparr>ssh := pr\<rparr>) = coord_inv s"
  by (rule coord_inv_cong; simp add: audit_entry_append_def)+

lemma coord_inv_set_grants [simp]:
  "coord_inv (s\<lparr>session_grants := g\<rparr>) \<longleftrightarrow> pend_ok (pending s) \<and> hm_ok g"
  by (simp add: coord_inv_def)

lemma decision_bookkeeping_inv:
  assumes "coord_inv s" "decision_bookkeeping env req choice s = (s', l, sc, t)"
  shows "coord_inv s'"
proof -
  let ?s = "if ch_decision choice = Deny then s\<lparr>session_grants := hm_remove (grant_key req) (session_grants s)\<rparr> else s"
  have inv: "coord_inv ?s" using assms(1) by (simp add: coord_invD)
  then have "coord_inv (?s\<lparr>session_grants := hm_insert (grant_key req) e (session_grants ?s)\<rparr>)" for e
    unfolding coord_inv_def by (simp add: distinct_update)
  with inv assms(2) show ?thesis
    by (simp add: decision_bookkeeping_def Let_def split: if_splits option.splits approval_scope.splits) auto
qed

lemma commit_decision_inv: "coord_inv s \<Longrightarrow> coord_inv (commit_decision env i req g choice s)"
proof -
  assume inv: "coord_inv s"
  obtain s' l sc t where b: "decision_bookkeeping env req choice s = (s', l, sc, t)"
    by (metis prod_cases4)
  from decision_bookkeeping_inv [OF inv b] show ?thesis
    by (simp add: commit_decision_def Let_def b coord_invD)
qed

lemma finish_decide_inv: "coord_inv s \<Longrightarrow> coord_inv (finish_decide env i req g choice outcome s)"
  by (auto simp: finish_decide_def Let_def commit_decision_inv split: option.splits)

lemma begin_decide_inv: "coord_inv s \<Longrightarrow> coord_inv (begin_decide env i choice rep s)"
  by (auto simp: begin_decide_def finish_decide_inv split: option.splits)

lemma expire_one_inv: "coord_inv s \<Longrightarrow> coord_inv (expire_one env req s)"
  by (simp add: expire_one_def Let_def coord_invD)

lemma reevaluate_one_inv: "coord_inv s \<Longrightarrow> coord_inv (reevaluate_one env gs i s)"
  by (auto simp: reevaluate_one_def Let_def coord_invD coord_inv_pendingD
      split: option.splits)

lemma fold_keeps: "P s \<Longrightarrow> (\<And>x s. P s \<Longrightarrow> P (f x s)) \<Longrightarrow> P (fold f xs s)"
  by (induction xs arbitrary: s) auto

lemma expire_pending_inv: "coord_inv s \<Longrightarrow> coord_inv (expire_pending env s)"
  by (auto simp: expire_pending_def Let_def intro!: fold_keeps [where P = coord_inv] expire_one_inv)

lemma reevaluate_pending_inv: "coord_inv s \<Longrightarrow> coord_inv (reevaluate_pending env s)"
  by (auto simp: reevaluate_pending_def intro!: fold_keeps [where P = coord_inv] reevaluate_one_inv)

lemma set_ssh_approval_inv: "coord_inv s \<Longrightarrow> coord_inv (set_ssh_approval env m p t s)"
proof -
  assume "coord_inv s"
  then have "coord_inv (reset_ssh_grants (rebuild_policy (s\<lparr>ssh := prefs\<rparr>)))" for prefs
    by (auto simp: coord_inv_def reset_ssh_grants_def)
  then show ?thesis by (simp add: set_ssh_approval_def Let_def reevaluate_pending_inv)
qed

lemma handle_host_event_inv: "coord_inv s \<Longrightarrow> coord_inv (handle_host_event env ev s)"
proof (cases ev)
  case (HaFrame frame)
  then show "coord_inv s \<Longrightarrow> ?thesis"
    by (cases frame)
      (auto simp: handle_host_event_def handle_approval_request_def Let_def coord_invD
        split: policy_action.splits)
qed (auto simp: handle_host_event_def Let_def coord_inv_def)

lemma run_command_inv: "coord_inv s \<Longrightarrow> coord_inv (run_command env c s)"
  by (cases c) (auto simp: Let_def handle_host_event_inv expire_pending_inv begin_decide_inv
      finish_decide_inv set_ssh_approval_inv split: option.splits)

lemma coord_init_inv: "coord_inv (coord_init store prefs rules modes)"
  by (simp add: coord_init_def) (simp add: coord_inv_def)

interpretation coordinator: machine "\<lambda>(env, c). run_command env c" coord_inv
  by unfold_locales (auto intro: run_command_inv)

section \<open>Effects of the handlers\<close>

definition decision_commits ::
  "cenv \<Rightarrow> string \<Rightarrow> approval_request \<Rightarrow> policy_gate \<Rightarrow> approval_choice \<Rightarrow> auth_outcome \<Rightarrow> coord \<Rightarrow> bool" where
  "decision_commits env i req g choice outcome s \<longleftrightarrow>
     (case hm_get (pending s) i of None \<Rightarrow> False | Some item \<Rightarrow> pa_request item = req)
     \<and> not_expired env req
     \<and> \<not> (ch_decision choice = Approve \<and> is_biometric g \<and> outcome \<noteq> OApproved)"

definition user_decided_by :: "approval_choice \<Rightarrow> policy_gate \<Rightarrow> decided_by" where
  "user_decided_by choice g = (if ch_decision choice = Approve \<and> is_biometric g then ByTouchid else ByUser)"

lemma commit_decision_result:
  "\<exists>l sc t. out (commit_decision env i req g choice s) =
     out s @ response_fx env req (ch_decision choice) (user_decided_by choice g) l sc t
       @ [FxEmit EvActivity, FxWithdraw i, FxEmit EvApprovals]
   \<and> pending (commit_decision env i req g choice s) = hm_remove i (pending s)
   \<and> gating (commit_decision env i req g choice s) = gating s"
proof -
  obtain s' l sc t where b: "decision_bookkeeping env req choice s = (s', l, sc, t)"
    by (metis prod_cases4)
  show ?thesis
    using decision_bookkeeping_fields [OF b] b
    by (intro exI [of _ l] exI [of _ sc] exI [of _ t])
      (simp add: commit_decision_def Let_def user_decided_by_def)
qed

lemma finish_decide_idle:
  assumes "\<not> decision_commits env i req g choice outcome s"
  shows "pending (finish_decide env i req g choice outcome s) = pending s"
    "gating (finish_decide env i req g choice outcome s) = gating s - {i}"
    "session_grants (finish_decide env i req g choice outcome s) = session_grants s"
    "engine (finish_decide env i req g choice outcome s) = engine s"
    "extra_rules (finish_decide env i req g choice outcome s) = extra_rules s"
    "out (finish_decide env i req g choice outcome s) = out s"
  using assms by (auto simp: finish_decide_def decision_commits_def Let_def split: option.splits)

lemma finish_decide_commits:
  assumes "decision_commits env i req g choice outcome s"
  shows "finish_decide env i req g choice outcome s
    = commit_decision env i req g choice (s\<lparr>gating := gating s - {i}\<rparr>)"
  using assms by (auto simp: finish_decide_def decision_commits_def Let_def split: option.splits)

lemma finish_decide_out:
  obtains l sc t where
    "out (finish_decide env i req g choice outcome s) = out s @
      (if decision_commits env i req g choice outcome s
       then response_fx env req (ch_decision choice) (user_decided_by choice g) l sc t
         @ [FxEmit EvActivity, FxWithdraw i, FxEmit EvApprovals]
       else [])"
    "pending (finish_decide env i req g choice outcome s) =
      (if decision_commits env i req g choice outcome s then hm_remove i (pending s) else pending s)"
    "gating (finish_decide env i req g choice outcome s) = gating s - {i}"
proof (cases "decision_commits env i req g choice outcome s")
  case True
  then show ?thesis
    using that commit_decision_result [of env i req g choice "s\<lparr>gating := gating s - {i}\<rparr>"]
    by (auto simp: finish_decide_commits)
next
  case False
  then show ?thesis using that finish_decide_idle [OF False] by auto
qed

definition expired_requests :: "cenv \<Rightarrow> coord \<Rightarrow> approval_request list" where
  "expired_requests env s = filter (expired_by_tick env) (map (pa_request \<circ> snd) (pending s))"

definition expire_fx :: "cenv \<Rightarrow> approval_request \<Rightarrow> effect list" where
  "expire_fx env r = response_fx env r Deny ByTimeout ''expired'' [] [] @ [FxWithdraw (ar_id r)]"

lemma fold_expire_one:
  "out (fold (expire_one env) rs s) = out s @ concat (map (expire_fx env) rs)
   \<and> pending (fold (expire_one env) rs s) = filter (\<lambda>(k, _). k \<notin> ar_id ` set rs) (pending s)
   \<and> gating (fold (expire_one env) rs s) = gating s
   \<and> session_grants (fold (expire_one env) rs s) = session_grants s"
proof (induction rs arbitrary: s)
  case Nil
  then show ?case by (simp add: case_prod_unfold)
next
  case (Cons r rs)
  then show ?case
    by (auto simp: expire_one_def expire_fx_def Let_def AList.delete_eq intro!: filter_cong)
qed

lemma expire_pending_result:
  "out (expire_pending env s) = out s @ concat (map (expire_fx env) (expired_requests env s))
     @ (if expired_requests env s = [] then [] else [FxEmit EvActivity, FxEmit EvApprovals])"
  "pending (expire_pending env s) = filter (\<lambda>(k, _). k \<notin> ar_id ` set (expired_requests env s)) (pending s)"
  "gating (expire_pending env s) = gating s"
  "session_grants (expire_pending env s) = session_grants s"
proof -
  have e: "expire_pending env s = (let s' = fold (expire_one env) (expired_requests env s) s in
      if expired_requests env s = [] then s' else fx (FxEmit EvApprovals) (fx (FxEmit EvActivity) s'))"
    by (simp add: expire_pending_def expired_requests_def Let_def)
  note f = fold_expire_one [of env "expired_requests env s" s]
  show "out (expire_pending env s) = out s @ concat (map (expire_fx env) (expired_requests env s))
     @ (if expired_requests env s = [] then [] else [FxEmit EvActivity, FxEmit EvApprovals])"
    using f by (simp add: e Let_def)
  show "pending (expire_pending env s) = filter (\<lambda>(k, _). k \<notin> ar_id ` set (expired_requests env s)) (pending s)"
    using f by (simp add: e Let_def case_prod_unfold)
  show "gating (expire_pending env s) = gating s" "session_grants (expire_pending env s) = session_grants s"
    using f by (simp_all add: e Let_def)
qed

lemma reevaluate_one_idle:
  "hm_get (pending s) i = None \<or> hm_get (pending s) i = Some item \<and> expired_by_tick env (pa_request item)
   \<Longrightarrow> reevaluate_one env gs i s = s"
  by (auto simp: reevaluate_one_def)

lemma reevaluate_one_prompt:
  assumes "hm_get (pending s) i = Some item" "\<not> expired_by_tick env (pa_request item)"
    and "pd_action (decide (engine s) (pa_request item) gs) = PActPrompt"
  shows "reevaluate_one env gs i s = s\<lparr>pending :=
     hm_insert i (item\<lparr>pa_gate := pd_gate (decide (engine s) (pa_request item) gs)\<rparr>) (pending s)\<rparr>"
  using assms by (simp add: reevaluate_one_def)

definition policy_verdict :: "policy_decision \<Rightarrow> approval_decision" where
  "policy_verdict d = (if pd_action d = PActApprove then Approve else Deny)"

lemma reevaluate_one_resolve:
  assumes "hm_get (pending s) i = Some item" "\<not> expired_by_tick env (pa_request item)"
    and "pd_action (decide (engine s) (pa_request item) gs) \<noteq> PActPrompt"
  shows "out (reevaluate_one env gs i s) = out s
      @ response_fx env (pa_request item) (policy_verdict (decide (engine s) (pa_request item) gs)) ByPolicy
          (policy_scope_wire (pd_applied_scope (decide (engine s) (pa_request item) gs))) [] []
      @ [FxEmit EvActivity, FxWithdraw i]"
    "pending (reevaluate_one env gs i s) = hm_remove i (pending s)"
    "gating (reevaluate_one env gs i s) = gating s"
  using assms by (simp_all add: reevaluate_one_def policy_verdict_def Let_def)

lemma reevaluate_one_cases [case_names idle prompt resolve]:
  obtains (idle) "reevaluate_one env gs i s = s"
      "hm_get (pending s) i = None \<or> (\<exists>item. hm_get (pending s) i = Some item \<and> expired_by_tick env (pa_request item))"
  | (prompt) item where "hm_get (pending s) i = Some item" "\<not> expired_by_tick env (pa_request item)"
      "pd_action (decide (engine s) (pa_request item) gs) = PActPrompt"
  | (resolve) item where "hm_get (pending s) i = Some item" "\<not> expired_by_tick env (pa_request item)"
      "pd_action (decide (engine s) (pa_request item) gs) \<noteq> PActPrompt"
  using reevaluate_one_idle by (cases "hm_get (pending s) i") blast+

lemma reevaluate_one_frame [simp]:
  "engine (reevaluate_one env gs i s) = engine s"
  "session_grants (reevaluate_one env gs i s) = session_grants s"
  "gating (reevaluate_one env gs i s) = gating s"
  by (simp_all add: reevaluate_one_def Let_def split: option.splits)

lemma handle_host_event_out_append: "\<exists>fxs. out (handle_host_event env ev s) = out s @ fxs"
proof -
  have w: "out (fold (\<lambda>i. fx (FxWithdraw i)) is s) = out s @ map FxWithdraw is" for "is" and s :: coord
    by (induction "is" arbitrary: s) auto
  show ?thesis
    by (auto simp: handle_host_event_def handle_approval_request_def Let_def w audit_entry_append_def
        split: host_agent_event.splits host_agent_inbound.splits policy_action.splits)
qed

section \<open>Responses\<close>

definition responds_to :: "string \<Rightarrow> effect \<Rightarrow> bool" where
  "responds_to i e = (case e of FxRespond j _ _ _ _ \<Rightarrow> j = i | _ \<Rightarrow> False)"

definition resp_count :: "string \<Rightarrow> effect list \<Rightarrow> nat" where
  "resp_count i fxs = length (filter (responds_to i) fxs)"

text \<open>Responses given for an id plus the one still owed while it is pending.\<close>

definition owed :: "string \<Rightarrow> coord \<Rightarrow> nat" where
  "owed i s = resp_count i (out s) + (if hm_get (pending s) i = None then 0 else 1)"

definition arrivals :: "string \<Rightarrow> command \<Rightarrow> nat" where
  "arrivals i c =
     (case c of CHost (HaFrame (InApprovalRequest r)) \<Rightarrow> if ar_id r = i then 1 else 0 | _ \<Rightarrow> 0)"

lemma responds_to_simps [simp]:
  "responds_to i (FxRespond j d b sc t) \<longleftrightarrow> j = i"
  "\<not> responds_to i (FxAudit e)" "\<not> responds_to i (FxPost r)" "\<not> responds_to i (FxWithdraw j)"
  "\<not> responds_to i (FxEmit ev)" "\<not> responds_to i (FxSpawnGate p j r g ch rep)"
  "\<not> responds_to i (FxReply rep a)" "\<not> responds_to i (FxSelfSend c)"
  by (simp_all add: responds_to_def)

lemma resp_count_simps [simp]:
  "resp_count i [] = 0"
  "resp_count i (xs @ ys) = resp_count i xs + resp_count i ys"
  "resp_count i (e # xs) = (if responds_to i e then 1 else 0) + resp_count i xs"
  by (simp_all add: resp_count_def)

lemma resp_count_response_fx [simp]:
  "resp_count i (response_fx env req d b p sc t) = (if ar_id req = i then 1 else 0)"
  by (simp add: response_fx_def)

lemma resp_count_withdraws [simp]: "resp_count i (map (FxWithdraw \<circ> f) xs) = 0"
  by (induction xs) simp_all

lemma owed_simps [simp]:
  "\<not> responds_to i e \<Longrightarrow> owed i (fx e s) = owed i s"
  "owed i (s\<lparr>gating := g\<rparr>) = owed i s" "owed i (s\<lparr>last_error := er\<rparr>) = owed i s"
  "owed i (s\<lparr>gate_namespaces := gn\<rparr>) = owed i s" "owed i (s\<lparr>engine := en\<rparr>) = owed i s"
  "owed i (s\<lparr>ssh := pr\<rparr>) = owed i s" "owed i (rebuild_policy s) = owed i s"
  "owed i (reset_ssh_grants s) = owed i s" "owed i (audit_entry_append ae s) = owed i s"
  by (simp_all add: owed_def audit_entry_append_def)

lemma owed_finish_decide:
  assumes inv: "coord_inv s"
  shows "owed i (finish_decide env j req g choice outcome s) \<le> owed i s"
proof -
  have "ar_id req = j" if "decision_commits env j req g choice outcome s"
    using that coord_inv_pendingD [OF inv, of j] by (auto simp: decision_commits_def split: option.splits)
  then show ?thesis
    by (rule_tac finish_decide_out [of env j req g choice outcome s])
      (auto simp: owed_def decision_commits_def split: option.splits)
qed

lemma owed_begin_decide: "coord_inv s \<Longrightarrow> owed i (begin_decide env j choice rep s) \<le> owed i s"
  using owed_finish_decide by (auto simp: begin_decide_def split: option.splits)

lemma resp_count_expire_fx: "resp_count i (concat (map (expire_fx env) rs)) = count_list (map ar_id rs) i"
  by (induction rs) (simp_all add: expire_fx_def)

lemma expired_ids_distinct:
  assumes "coord_inv s"
  shows "distinct (map ar_id (expired_requests env s))"
proof -
  have "map ar_id (map (pa_request \<circ> snd) (pending s)) = hm_keys (pending s)"
    using assms by (auto simp: coord_inv_def pend_ok_def list_all_iff)
  moreover have "distinct (hm_keys (pending s))"
    using assms by (simp add: coord_inv_def pend_ok_def)
  ultimately have "distinct (map ar_id (map (pa_request \<circ> snd) (pending s)))"
    by (simp only:)
  then show ?thesis unfolding expired_requests_def by (rule distinct_map_filter)
qed

lemma expired_id_pending:
  assumes "coord_inv s" "r \<in> set (expired_requests env s)"
  shows "\<exists>g. hm_get (pending s) (ar_id r) = Some \<lparr>pa_request = r, pa_gate = g\<rparr>"
proof -
  obtain k p where kp: "(k, p) \<in> set (pending s)" "pa_request p = r"
    using assms(2) by (auto simp: expired_requests_def)
  moreover have "k = ar_id r" using assms(1) kp by (auto simp: coord_inv_def pend_ok_def list_all_iff)
  ultimately have "hm_get (pending s) (ar_id r) = Some p"
    using assms(1) by (simp add: coord_inv_def pend_ok_def)
  then show ?thesis using kp(2) by (cases p) auto
qed

lemma count_list_distinct: "distinct xs \<Longrightarrow> count_list xs x = (if x \<in> set xs then 1 else 0)"
  by (induction xs) auto

lemma owed_expire_pending: "coord_inv s \<Longrightarrow> owed i (expire_pending env s) \<le> owed i s"
proof -
  assume inv: "coord_inv s"
  let ?E = "map ar_id (expired_requests env s)"
  have "count_list ?E i = (if i \<in> set ?E then 1 else 0)"
    using expired_ids_distinct [OF inv] count_list_distinct by metis
  moreover have "hm_get (pending s) i \<noteq> None" if "i \<in> set ?E"
    using that expired_id_pending [OF inv] by fastforce
  moreover have "hm_get (pending (expire_pending env s)) i
      = (if i \<in> set ?E then None else hm_get (pending s) i)"
    using inv by (auto simp: expire_pending_result(2) hm_get_filter coord_inv_def pend_ok_def split: option.splits)
  ultimately show ?thesis
    by (simp add: owed_def expire_pending_result(1) resp_count_expire_fx)
qed

lemma owed_reevaluate_one:
  assumes inv: "coord_inv s"
  shows "owed i (reevaluate_one env gs j s) \<le> owed i s"
proof (cases rule: reevaluate_one_cases [of env gs j s])
  case idle
  then show ?thesis by simp
next
  case (prompt item)
  then show ?thesis by (simp add: reevaluate_one_prompt owed_def)
next
  case (resolve item)
  then show ?thesis
    using coord_inv_pendingD [OF inv resolve(1)] by (simp add: reevaluate_one_resolve owed_def)
qed

lemma owed_set_ssh_approval: "coord_inv s \<Longrightarrow> owed i (set_ssh_approval env m p t s) \<le> owed i s"
proof -
  assume inv: "coord_inv s"
  have fold: "coord_inv (fold (reevaluate_one env gs) js u) \<and> owed i (fold (reevaluate_one env gs) js u) \<le> owed i u"
    if "coord_inv u" for gs js u
    by (rule fold_keeps [where P = "\<lambda>v. coord_inv v \<and> owed i v \<le> owed i u"])
      (use that reevaluate_one_inv owed_reevaluate_one le_trans in \<open>blast+\<close>)
  have "coord_inv (reset_ssh_grants (rebuild_policy (s\<lparr>ssh := prefs\<rparr>)))" for prefs
    using inv by (auto simp: coord_inv_def reset_ssh_grants_def)
  with fold show ?thesis
    by (fastforce simp: set_ssh_approval_def Let_def reevaluate_pending_def)
qed

lemma owed_handle_host_event: "owed i (handle_host_event env ev s) \<le> owed i s + arrivals i (CHost ev)"
proof (cases ev)
  case HaDisconnected
  have "out (fold (\<lambda>i. fx (FxWithdraw i)) is s) = out s @ map FxWithdraw is" for "is" and s :: coord
    by (induction "is" arbitrary: s) auto
  then show ?thesis using HaDisconnected by (simp add: handle_host_event_def Let_def owed_def)
next
  case (HaFrame frame)
  then show ?thesis
    by (cases frame)
      (auto simp: handle_host_event_def handle_approval_request_def arrivals_def Let_def owed_def
        audit_entry_append_def split: policy_action.splits)
qed (simp_all add: handle_host_event_def arrivals_def)

lemma run_command_owed: "coord_inv s \<Longrightarrow> owed i (run_command env c s) \<le> owed i s + arrivals i c"
proof (cases c)
  case (CExpire rep)
  then show "coord_inv s \<Longrightarrow> ?thesis"
    using owed_expire_pending by (cases rep) (auto simp: trans_le_add1)
next
  case (CNotificationInvoke j d dead rep)
  then show "coord_inv s \<Longrightarrow> ?thesis" by (simp add: Let_def)
qed (auto simp: owed_handle_host_event owed_begin_decide owed_finish_decide owed_set_ssh_approval trans_le_add1)

end
