(* ===== verification/Coordinator_System.thy ===== *)
theory Coordinator_System
  imports Coordinator_Safety
begin

text \<open>
  The coordinator together with the gate tasks it spawned: a step is either an external command or
  the re-entry of one task in flight with some outcome, in any interleaving. The properties of whole
  executions are proved here.
\<close>

section \<open>New effects of a command\<close>

definition new_fx :: "cenv \<Rightarrow> command \<Rightarrow> coord \<Rightarrow> effect list" where
  "new_fx env c s = drop (length (out s)) (out (run_command env c s))"

lemma out_reevaluate_one: "\<exists>fxs. out (reevaluate_one env gs i s) = out s @ fxs"
  by (cases rule: reevaluate_one_cases [of env gs i s])
    (auto simp: reevaluate_one_prompt reevaluate_one_resolve)

lemma out_fold_reevaluate: "\<exists>fxs. out (fold (reevaluate_one env gs) is s) = out s @ fxs"
  by (rule fold_keeps [where P = "\<lambda>v. \<exists>fxs. out v = out s @ fxs"])
    (use out_reevaluate_one append_assoc in \<open>metis append_Nil2\<close>)+

lemma set_ssh_approval_unfold:
  "\<exists>s1. set_ssh_approval env m p t s =
      fx (FxEmit EvApprovals) (fold (reevaluate_one env (valid_grants env s1)) (hm_keys (pending s1)) s1)
    \<and> out s1 = out s \<and> pending s1 = pending s \<and> (coord_inv s \<longrightarrow> coord_inv s1)"
  unfolding set_ssh_approval_def reevaluate_pending_def Let_def
  by (rule exI, rule conjI, rule refl) (auto simp: coord_inv_def reset_ssh_grants_def)

lemma out_set_ssh_approval: "\<exists>fxs. out (set_ssh_approval env m p t s) = out s @ fxs"
proof -
  obtain s1 gs js where "set_ssh_approval env m p t s = fx (FxEmit EvApprovals) (fold (reevaluate_one env gs) js s1)"
      "out s1 = out s"
    using set_ssh_approval_unfold by blast
  moreover obtain fxs where "out (fold (reevaluate_one env gs) js s1) = out s1 @ fxs"
    using out_fold_reevaluate by blast
  ultimately show ?thesis by simp
qed

lemma out_finish_decide: "\<exists>fxs. out (finish_decide env i req g choice outcome s) = out s @ fxs"
  by (rule finish_decide_out [of env i req g choice outcome s]) blast

lemma out_begin_decide: "\<exists>fxs. out (begin_decide env i choice rep s) = out s @ fxs"
proof (cases "hm_get (pending s) i")
  case (Some item)
  obtain fxs where "out (finish_decide env i (pa_request item) (pa_gate item) choice OApproved s) = out s @ fxs"
    using out_finish_decide by blast
  then show ?thesis using Some by (simp add: begin_decide_def)
qed (simp add: begin_decide_def)

lemma run_command_out: "out (run_command env c s) = out s @ new_fx env c s"
proof -
  have "\<exists>fxs. out (run_command env c s) = out s @ fxs"
  proof (cases c)
    case (CHost ev)
    then show ?thesis using handle_host_event_out_append by simp
  next
    case (CExpire rep)
    then show ?thesis by (cases rep) (simp_all add: expire_pending_result(1))
  next
    case (CDecide i choice rep)
    then show ?thesis using out_begin_decide by simp
  next
    case (CGateResolved i req g choice outcome rep)
    then show ?thesis using out_finish_decide [of env i req g choice outcome s] by auto
  next
    case (CSetSshApproval m p t rep)
    then show ?thesis using out_set_ssh_approval [of env m p t s] by auto
  qed (simp_all add: Let_def)
  then show ?thesis by (auto simp: new_fx_def)
qed

lemma new_fxI: "out (run_command env c s) = out s @ fxs \<Longrightarrow> new_fx env c s = fxs"
  by (simp add: new_fx_def)

section \<open>Why a response is sent\<close>

lemma respond_in_response_fx [simp]:
  "FxRespond i d b sc t \<in> set (response_fx env req d' b' l sc' t') \<longleftrightarrow>
   i = ar_id req \<and> d = d' \<and> b = b' \<and> sc = (if sc' = [] then None else Some sc') \<and> t = (if t' = [] then None else Some t')"
  by (auto simp: response_fx_def)

definition policy_justified ::
    "cenv \<Rightarrow> session_grant_key list \<Rightarrow> coord \<Rightarrow> string \<Rightarrow> approval_decision \<Rightarrow> decided_by \<Rightarrow> bool" where
  "policy_justified env gs s0 i d b \<longleftrightarrow> b = ByPolicy \<and>
     (\<exists>item. hm_get (pending s0) i = Some item \<and> \<not> expired_by_tick env (pa_request item)
        \<and> pd_action (decide (engine s0) (pa_request item) gs) \<noteq> PActPrompt
        \<and> d = policy_verdict (decide (engine s0) (pa_request item) gs))"

definition reevaluated_from :: "cenv \<Rightarrow> session_grant_key list \<Rightarrow> coord \<Rightarrow> coord \<Rightarrow> bool" where
  "reevaluated_from env gs s0 v \<longleftrightarrow> coord_inv v \<and> engine v = engine s0
     \<and> (\<forall>i item. hm_get (pending v) i = Some item \<longrightarrow>
          (\<exists>item0. hm_get (pending s0) i = Some item0 \<and> pa_request item0 = pa_request item))
     \<and> (\<exists>fxs. out v = out s0 @ fxs \<and>
          (\<forall>i d b sc t. FxRespond i d b sc t \<in> set fxs \<longrightarrow> policy_justified env gs s0 i d b))"

lemma reevaluate_one_from:
  assumes P: "reevaluated_from env gs s0 v"
  shows "reevaluated_from env gs s0 (reevaluate_one env gs j v)"
proof -
  note P' = P [unfolded reevaluated_from_def]
  then obtain fxs where o: "out v = out s0 @ fxs"
      "\<forall>i d b sc t. FxRespond i d b sc t \<in> set fxs \<longrightarrow> policy_justified env gs s0 i d b"
    by blast
  have inv': "coord_inv (reevaluate_one env gs j v)" using P' reevaluate_one_inv by blast
  show ?thesis
  proof (cases rule: reevaluate_one_cases [of env gs j v])
    case idle
    then show ?thesis using P by simp
  next
    case (prompt item)
    then show ?thesis using P' inv' by (auto simp: reevaluated_from_def reevaluate_one_prompt)
  next
    case (resolve item)
    obtain item0 where i0: "hm_get (pending s0) j = Some item0" "pa_request item0 = pa_request item"
      using P' resolve(1) by blast
    have id: "ar_id (pa_request item) = j" using P' resolve(1) coord_inv_pendingD by blast
    have "\<forall>i d b sc t. FxRespond i d b sc t \<in> set (fxs
         @ response_fx env (pa_request item) (policy_verdict (decide (engine v) (pa_request item) gs)) ByPolicy
             (policy_scope_wire (pd_applied_scope (decide (engine v) (pa_request item) gs))) [] []
         @ [FxEmit EvActivity, FxWithdraw j]) \<longrightarrow> policy_justified env gs s0 i d b"
      using o(2) i0 id P' resolve by (auto simp: policy_justified_def)
    then show ?thesis
      using P' inv' reevaluate_one_resolve [OF resolve] o(1) by (auto simp: reevaluated_from_def)
  qed
qed

lemma reevaluate_responses:
  assumes inv: "coord_inv s0"
    and r: "FxRespond i d b sc t \<in> set (drop (length (out s0)) (out (fold (reevaluate_one env gs) js s0)))"
  shows "policy_justified env gs s0 i d b"
proof -
  have "reevaluated_from env gs s0 (fold (reevaluate_one env gs) js s0)"
    by (rule fold_keeps [where P = "reevaluated_from env gs s0"])
      (use inv in \<open>auto simp: reevaluated_from_def [of _ _ s0 s0] intro: reevaluate_one_from\<close>)
  then show ?thesis using r unfolding reevaluated_from_def by (metis append_eq_conv_conj)
qed

lemma fold_reevaluate_frame:
  "engine (fold (reevaluate_one env gs) js s) = engine s \<and>
   session_grants (fold (reevaluate_one env gs) js s) = session_grants s \<and>
   gating (fold (reevaluate_one env gs) js s) = gating s"
  by (induction js arbitrary: s) simp_all

lemma valid_grants_cong: "session_grants s' = session_grants s \<Longrightarrow> valid_grants env s' = valid_grants env s"
  by (simp add: valid_grants_def)

text \<open>
  The reasons for which a response with a given decision is sent by one command: a policy decision on
  arrival, a policy decision after a change of the SSH settings, a user decision without a gate or a
  denial, a resolved gate, an expiry.
\<close>

definition policy_reason :: "cenv \<Rightarrow> command \<Rightarrow> coord \<Rightarrow> string \<Rightarrow> approval_decision \<Rightarrow> bool" where
  "policy_reason env c s i d \<longleftrightarrow>
     (\<exists>req. ar_id req = i
        \<and> (c = CHost (HaFrame (InApprovalRequest req))
           \<or> (\<exists>m p t rep g. c = CSetSshApproval m p t rep \<and> hm_get (pending s) i = Some \<lparr>pa_request = req, pa_gate = g\<rparr>
                \<and> \<not> expired_by_tick env req))
        \<and> pd_action (decide (engine (run_command env c s)) req (valid_grants env (run_command env c s)))
            = decision_policy_action d)"

definition user_reason :: "cenv \<Rightarrow> command \<Rightarrow> coord \<Rightarrow> string \<Rightarrow> approval_decision \<Rightarrow> bool" where
  "user_reason env c s i d \<longleftrightarrow>
     (\<exists>item. hm_get (pending s) i = Some item \<and> not_expired env (pa_request item)
        \<and> ((\<exists>choice rep. c = CDecide i choice rep \<and> ch_decision choice = d \<and> (d = Approve \<longrightarrow> pa_gate item = NoGate))
           \<or> (\<exists>g choice outcome rep. c = CGateResolved i (pa_request item) g choice outcome rep \<and> ch_decision choice = d
                \<and> (d = Approve \<and> is_biometric g \<longrightarrow> outcome = OApproved))))"

definition expiry_reason :: "cenv \<Rightarrow> command \<Rightarrow> coord \<Rightarrow> string \<Rightarrow> approval_decision \<Rightarrow> bool" where
  "expiry_reason env c s i d \<longleftrightarrow>
     d = Deny \<and> (\<exists>rep item. c = CExpire rep \<and> hm_get (pending s) i = Some item \<and> expired_by_tick env (pa_request item))"

lemma policy_verdict_action:
  "pd_action d \<noteq> PActPrompt \<Longrightarrow> decision_policy_action (policy_verdict d) = pd_action d"
  by (cases "pd_action d") (simp_all add: policy_verdict_def)

lemma set_ssh_reason:
  assumes inv: "coord_inv s" and r: "FxRespond i d b sc t \<in> set (new_fx env (CSetSshApproval m p tt rep) s)"
  shows "b = ByPolicy \<and> policy_reason env (CSetSshApproval m p tt rep) s i d"
proof -
  obtain s1 where s1: "set_ssh_approval env m p tt s =
      fx (FxEmit EvApprovals) (fold (reevaluate_one env (valid_grants env s1)) (hm_keys (pending s1)) s1)"
      "out s1 = out s" "pending s1 = pending s" "coord_inv s1"
    using set_ssh_approval_unfold inv by blast
  let ?f = "fold (reevaluate_one env (valid_grants env s1)) (hm_keys (pending s1)) s1"
  obtain fxs where f: "out ?f = out s1 @ fxs" using out_fold_reevaluate by blast
  have "new_fx env (CSetSshApproval m p tt rep) s = fxs @ [FxEmit EvApprovals, FxReply rep AnsUnit]"
    by (rule new_fxI) (simp add: s1(1,2) f)
  then have "FxRespond i d b sc t \<in> set (drop (length (out s1)) (out ?f))" using r f by simp
  from reevaluate_responses [OF s1(4) this, unfolded policy_justified_def] obtain item where item: "b = ByPolicy"
      "hm_get (pending s) i = Some item" "\<not> expired_by_tick env (pa_request item)"
      "pd_action (decide (engine s1) (pa_request item) (valid_grants env s1)) \<noteq> PActPrompt"
      "d = policy_verdict (decide (engine s1) (pa_request item) (valid_grants env s1))"
    using s1(3) by auto
  have "engine (run_command env (CSetSshApproval m p tt rep) s) = engine s1"
    "valid_grants env (run_command env (CSetSshApproval m p tt rep) s) = valid_grants env s1"
    using fold_reevaluate_frame by (simp_all add: s1(1) valid_grants_def)
  then have "policy_reason env (CSetSshApproval m p tt rep) s i d"
    unfolding policy_reason_def
    using item coord_inv_pendingD [OF inv item(2)] policy_verdict_action [OF item(4)]
    by (intro exI [of _ "pa_request item"]) (cases item, auto)
  then show ?thesis using item(1) by blast
qed

lemma host_event_reason:
  assumes r: "FxRespond i d b sc t \<in> set (new_fx env (CHost ev) s)"
  shows "b = ByPolicy \<and> policy_reason env (CHost ev) s i d"
proof -
  have w: "out (fold (\<lambda>i. fx (FxWithdraw i)) js s) = out s @ map FxWithdraw js" for js and s :: coord
    by (induction js arbitrary: s) auto
  obtain req where ev: "ev = HaFrame (InApprovalRequest req)"
    using r by (cases ev; cases "case ev of HaFrame f \<Rightarrow> f")
      (auto simp: new_fx_def handle_host_event_def Let_def w audit_entry_append_def)
  let ?d = "decide (engine s) req (valid_grants env s)"
  have act: "pd_action ?d \<noteq> PActPrompt \<and> i = ar_id req \<and> b = ByPolicy \<and> d = policy_verdict ?d"
    using r by (cases "pd_action ?d")
      (auto simp: ev new_fx_def handle_host_event_def handle_approval_request_def Let_def policy_verdict_def)
  then have "engine (run_command env (CHost ev) s) = engine s"
    "valid_grants env (run_command env (CHost ev) s) = valid_grants env s"
    by (cases "pd_action ?d"; simp add: ev handle_host_event_def handle_approval_request_def Let_def valid_grants_def)+
  then show ?thesis
    using act policy_verdict_action [of ?d] by (auto simp: policy_reason_def ev)
qed

lemma expire_reason:
  assumes inv: "coord_inv s" and r: "FxRespond i d b sc t \<in> set (new_fx env (CExpire rep) s)"
  shows "b = ByTimeout \<and> expiry_reason env (CExpire rep) s i d"
proof -
  obtain tl where "new_fx env (CExpire rep) s = concat (map (expire_fx env) (expired_requests env s)) @ tl"
      "\<forall>e \<in> set tl. \<not> responds_to i e"
    by (cases rep) (auto simp: new_fx_def expire_pending_result(1) split: if_splits)
  then obtain req where req: "req \<in> set (expired_requests env s)" "FxRespond i d b sc t \<in> set (expire_fx env req)"
    using r by fastforce
  then have "expired_by_tick env req" "i = ar_id req" "d = Deny" "b = ByTimeout"
    by (auto simp: expire_fx_def expired_requests_def)
  then show ?thesis using expired_id_pending [OF inv req(1)] by (fastforce simp: expiry_reason_def)
qed

lemma finish_decide_reason:
  assumes inv: "coord_inv s"
    and r: "FxRespond j d b sc t \<in> set (drop (length (out s)) (out (finish_decide env i req g choice outcome s)))"
  shows "decision_commits env i req g choice outcome s \<and> j = i \<and> d = ch_decision choice
     \<and> b = user_decided_by choice g"
proof (rule finish_decide_out [of env i req g choice outcome s])
  fix l sc' t'
  assume o: "out (finish_decide env i req g choice outcome s) = out s @
      (if decision_commits env i req g choice outcome s
       then response_fx env req (ch_decision choice) (user_decided_by choice g) l sc' t'
         @ [FxEmit EvActivity, FxWithdraw i, FxEmit EvApprovals] else [])"
  then have c: "decision_commits env i req g choice outcome s" using r by (auto split: if_splits)
  then have "ar_id req = i"
    using coord_inv_pendingD [OF inv] by (auto simp: decision_commits_def split: option.splits)
  then show ?thesis using c r by (simp add: o)
qed

lemma decide_reason:
  assumes inv: "coord_inv s" and r: "FxRespond j d b sc t \<in> set (new_fx env (CDecide i choice rep) s)"
  shows "b = ByUser \<and> user_reason env (CDecide i choice rep) s j d"
proof -
  obtain item where item: "hm_get (pending s) i = Some item"
    using r by (cases "hm_get (pending s) i") (auto simp: new_fx_def begin_decide_def)
  then have ne: "not_expired env (pa_request item)"
    and ung: "\<not> (ch_decision choice = Approve \<and> is_biometric (pa_gate item))"
    using r by (auto simp: new_fx_def begin_decide_def split: if_splits)
  let ?f = "finish_decide env i (pa_request item) (pa_gate item) choice OApproved s"
  obtain fxs where f: "out ?f = out s @ fxs" using out_finish_decide by blast
  have "new_fx env (CDecide i choice rep) s = fxs @ [FxReply rep AnsUnit]"
    by (rule new_fxI) (use item ne ung f in \<open>auto simp: begin_decide_def\<close>)
  then have "FxRespond j d b sc t \<in> set (drop (length (out s)) (out ?f))" using r f by simp
  from finish_decide_reason [OF inv this] have "j = i" "d = ch_decision choice" "b = user_decided_by choice (pa_gate item)"
    by blast+
  moreover have "b = ByUser" using calculation(3) ung by (simp add: user_decided_by_def)
  ultimately show ?thesis using item ne ung by (auto simp: user_reason_def is_biometric_def)
qed

lemma gate_reason:
  assumes inv: "coord_inv s" and r: "FxRespond j d b sc t \<in> set (new_fx env (CGateResolved i req g choice outcome rep) s)"
  shows "b = user_decided_by choice g \<and> user_reason env (CGateResolved i req g choice outcome rep) s j d"
proof -
  let ?f = "finish_decide env i req g choice outcome s"
  obtain fxs where f: "out ?f = out s @ fxs" using out_finish_decide by blast
  have "new_fx env (CGateResolved i req g choice outcome rep) s = fxs @ [FxReply rep AnsUnit]"
    by (rule new_fxI) (simp add: f)
  then have "FxRespond j d b sc t \<in> set (drop (length (out s)) (out ?f))" using r f by simp
  from finish_decide_reason [OF inv this] show ?thesis
    by (auto simp: user_reason_def decision_commits_def split: option.splits)
qed

lemma response_reasons:
  assumes "coord_inv s" and "FxRespond i d b sc t \<in> set (new_fx env c s)"
  shows "b = ByPolicy \<and> policy_reason env c s i d
       \<or> b \<in> {ByUser, ByTouchid} \<and> user_reason env c s i d
       \<or> b = ByTimeout \<and> expiry_reason env c s i d"
proof (cases c)
  case (CHost ev)
  then show ?thesis using host_event_reason assms by blast
next
  case (CExpire rep)
  then show ?thesis using expire_reason assms by blast
next
  case (CDecide j choice rep)
  then show ?thesis using decide_reason assms by blast
next
  case (CGateResolved j req g choice outcome rep)
  then have "b = user_decided_by choice g" "user_reason env c s i d"
    using gate_reason [OF assms(1), of i d b sc t env j req g choice outcome rep] assms(2) by simp_all
  then show ?thesis by (simp add: user_decided_by_def)
next
  case (CSetSshApproval m p tt rep)
  then show ?thesis using set_ssh_reason assms by blast
qed (use assms in \<open>auto simp: new_fx_def Let_def split: if_splits\<close>)

section \<open>Gate tasks in flight\<close>

record gate_task =
  gt_id :: string
  gt_request :: approval_request
  gt_gate :: policy_gate
  gt_choice :: approval_choice
  gt_reply :: reply

fun spawned :: "effect list \<Rightarrow> gate_task list" where
  "spawned [] = []"
| "spawned (FxSpawnGate p i r g ch rep # fxs) =
     \<lparr>gt_id = i, gt_request = r, gt_gate = g, gt_choice = ch, gt_reply = rep\<rparr> # spawned fxs"
| "spawned (_ # fxs) = spawned fxs"

record sys =
  sy_coord :: coord
  sy_gates :: "gate_task list"

fun is_gate_resolved :: "command \<Rightarrow> bool" where
  "is_gate_resolved (CGateResolved i r g ch oc rep) = True"
| "is_gate_resolved _ = False"

definition resolve_command :: "gate_task \<Rightarrow> auth_outcome \<Rightarrow> command" where
  "resolve_command t oc = CGateResolved (gt_id t) (gt_request t) (gt_gate t) (gt_choice t) oc (gt_reply t)"

text \<open>A step runs one command; it returns the command that ran and the effects it had.\<close>

inductive sys_step :: "sys \<Rightarrow> cenv \<Rightarrow> command \<Rightarrow> sys \<Rightarrow> bool" where
  external: "\<not> is_gate_resolved c \<Longrightarrow>
     sys_step y env c \<lparr>sy_coord = run_command env c (sy_coord y),
                       sy_gates = sy_gates y @ spawned (new_fx env c (sy_coord y))\<rparr>"
| resolve: "t \<in> set (sy_gates y) \<Longrightarrow> c = resolve_command t oc \<Longrightarrow>
     sys_step y env c \<lparr>sy_coord = run_command env c (sy_coord y), sy_gates = remove1 t (sy_gates y)\<rparr>"

inductive sys_reachable :: "sys \<Rightarrow> bool" where
  start: "sys_reachable \<lparr>sy_coord = coord_init store prefs rules modes, sy_gates = []\<rparr>"
| step: "sys_reachable y \<Longrightarrow> sys_step y env c y' \<Longrightarrow> sys_reachable y'"

inductive_cases sys_stepE: "sys_step y env c y'"

definition sys_inv :: "sys \<Rightarrow> bool" where
  "sys_inv y \<longleftrightarrow> coord_inv (sy_coord y)
     \<and> (\<forall>t \<in> set (sy_gates y). is_biometric (gt_gate t) \<and> ch_decision (gt_choice t) = Approve)
     \<and> gating (sy_coord y) \<subseteq> gt_id ` set (sy_gates y)"

lemma spawned_append [simp]: "spawned (xs @ ys) = spawned xs @ spawned ys"
  by (induction xs rule: spawned.induct) simp_all

lemma new_fx_decide_gated:
  assumes "hm_get (pending s) i = Some item" "not_expired env (pa_request item)"
    and "ch_decision choice = Approve" "is_biometric (pa_gate item)" "i \<notin> gating s"
  shows "new_fx env (CDecide i choice rep) s =
      [FxSpawnGate (gate_prompt (pa_request item) (pa_gate item)) i (pa_request item) (pa_gate item) choice rep]"
    "gating (run_command env (CDecide i choice rep) s) = insert i (gating s)"
  using assms by (auto simp: new_fx_def begin_decide_def)

lemma spawned_response_fx [simp]: "spawned (response_fx env req d b p sc t) = []"
  by (simp add: response_fx_def)

lemma spawned_withdraws [simp]: "spawned (map (FxWithdraw \<circ> f) xs) = []"
  by (induction xs) simp_all

lemma spawned_finish_decide [simp]:
  "spawned (out (finish_decide env i req g choice oc s)) = spawned (out s)"
  by (rule finish_decide_out [of env i req g choice oc s]) simp

lemma spawned_expire_pending [simp]: "spawned (out (expire_pending env s)) = spawned (out s)"
proof -
  have "spawned (concat (map (expire_fx env) rs)) = []" for rs
    by (induction rs) (simp_all add: expire_fx_def)
  then show ?thesis by (simp add: expire_pending_result(1))
qed

lemma spawned_reevaluate_one [simp]: "spawned (out (reevaluate_one env gs i s)) = spawned (out s)"
  by (cases rule: reevaluate_one_cases [of env gs i s])
    (simp_all add: reevaluate_one_prompt reevaluate_one_resolve)

lemma spawned_set_ssh_approval [simp]: "spawned (out (set_ssh_approval env m p t s)) = spawned (out s)"
proof -
  have "spawned (out (fold (reevaluate_one env gs) js u)) = spawned (out u)" for gs js u
    by (induction js arbitrary: u) simp_all
  moreover obtain s1 gs js where
      "set_ssh_approval env m p t s = fx (FxEmit EvApprovals) (fold (reevaluate_one env gs) js s1)" "out s1 = out s"
    using set_ssh_approval_unfold by blast
  ultimately show ?thesis by simp
qed

lemma gating_set_ssh_approval [simp]: "gating (set_ssh_approval env m p t s) = gating s"
  by (simp add: set_ssh_approval_def reevaluate_pending_def Let_def fold_reevaluate_frame)

lemma host_event_gates:
  "spawned (out (handle_host_event env ev s)) = spawned (out s) \<and> gating (handle_host_event env ev s) \<subseteq> gating s"
proof -
  have w: "out (fold (\<lambda>i. fx (FxWithdraw i)) js s) = out s @ map FxWithdraw js" for js and s :: coord
    by (induction js arbitrary: s) auto
  show ?thesis
    by (auto simp: handle_host_event_def handle_approval_request_def Let_def w audit_entry_append_def
        split: host_agent_event.splits host_agent_inbound.splits policy_action.splits)
qed

lemma spawned_new_fx: "spawned (out (run_command env c s)) = spawned (out s) @ spawned (new_fx env c s)"
  by (simp add: run_command_out)

lemma decide_gates:
  "(\<exists>t. spawned (new_fx env (CDecide i choice rep) s) = [t] \<and> gt_id t = i \<and> is_biometric (gt_gate t)
      \<and> ch_decision (gt_choice t) = Approve \<and> i \<notin> gating s
      \<and> gating (run_command env (CDecide i choice rep) s) = insert i (gating s))
   \<or> spawned (new_fx env (CDecide i choice rep) s) = [] \<and> gating (run_command env (CDecide i choice rep) s) \<subseteq> gating s"
proof (cases "\<exists>item. hm_get (pending s) i = Some item \<and> not_expired env (pa_request item)
      \<and> ch_decision choice = Approve \<and> is_biometric (pa_gate item) \<and> i \<notin> gating s")
  case True
  then obtain item where "hm_get (pending s) i = Some item" "not_expired env (pa_request item)"
      "ch_decision choice = Approve" "is_biometric (pa_gate item)" "i \<notin> gating s"
    by blast
  then show ?thesis using new_fx_decide_gated by auto
next
  case False
  have g: "gating (finish_decide env i req g choice oc s) = gating s - {i}" for req g oc
    by (rule finish_decide_out [of env i req g choice oc s])
  have "spawned (out (run_command env (CDecide i choice rep) s)) = spawned (out s)
      \<and> gating (run_command env (CDecide i choice rep) s) \<subseteq> gating s"
    using False by (auto simp: begin_decide_def g split: option.splits)
  then have "spawned (new_fx env (CDecide i choice rep) s) = []"
      "gating (run_command env (CDecide i choice rep) s) \<subseteq> gating s"
    using spawned_new_fx [of env "CDecide i choice rep" s] by simp_all
  then show ?thesis by blast
qed

lemma external_gates:
  assumes "\<not> is_gate_resolved c" "\<forall>i choice rep. c \<noteq> CDecide i choice rep"
  shows "spawned (new_fx env c s) = []" "gating (run_command env c s) \<subseteq> gating s"
proof -
  have "spawned (out (run_command env c s)) = spawned (out s) \<and> gating (run_command env c s) \<subseteq> gating s"
    using assms host_event_gates
    by (cases c) (auto simp: Let_def expire_pending_result(3) split: option.splits)
  then show "spawned (new_fx env c s) = []" "gating (run_command env c s) \<subseteq> gating s"
    by (auto simp: spawned_new_fx)
qed

lemma sys_step_inv: "sys_step y env c y' \<Longrightarrow> sys_inv y \<Longrightarrow> sys_inv y'"
proof (induction rule: sys_step.induct)
  case (external c y env)
  show ?case
  proof (cases "\<exists>i choice rep. c = CDecide i choice rep")
    case True
    then obtain i choice rep where "c = CDecide i choice rep" by blast
    then show ?thesis
      using external.prems decide_gates [of env i choice rep "sy_coord y"] run_command_inv [of "sy_coord y" env c]
      by (auto simp: sys_inv_def)
  next
    case False
    then show ?thesis
      using external external_gates [of c env "sy_coord y"] run_command_inv [of "sy_coord y" env c]
      by (auto simp: sys_inv_def)
  qed
next
  case (resolve t y c oc env)
  have g: "gating (run_command env c (sy_coord y)) = gating (sy_coord y) - {gt_id t}"
    by (rule finish_decide_out [of env "gt_id t" "gt_request t" "gt_gate t" "gt_choice t" oc "sy_coord y"])
      (simp add: resolve.hyps(2) resolve_command_def)
  have "gt_id u \<in> gt_id ` set (remove1 t (sy_gates y))" if "u \<in> set (sy_gates y)" "gt_id u \<noteq> gt_id t" for u
    using that by (metis image_eqI in_set_remove1)
  then have "gating (sy_coord y) - {gt_id t} \<subseteq> gt_id ` set (remove1 t (sy_gates y))"
    using resolve.prems by (fastforce simp: sys_inv_def)
  then show ?case
    using resolve.prems g run_command_inv [of "sy_coord y" env c] set_remove1_subset [of t "sy_gates y"]
    by (auto simp: sys_inv_def)
qed

lemma sys_reachable_inv: "sys_reachable y \<Longrightarrow> sys_inv y"
proof (induction rule: sys_reachable.induct)
  case (start store prefs rules modes)
  then show ?case using coord_init_inv by (simp add: sys_inv_def coord_init_def)
next
  case (step y env c y')
  then show ?case using sys_step_inv by blast
qed

end
