(* ===== verification/Coordinator_Theorems.thy ===== *)
theory Coordinator_Theorems
  imports Coordinator_System
begin

text \<open>
  The properties of the approval coordinator over whole executions, and a small concrete run on which
  their hypotheses hold.
\<close>

section \<open>A concrete run\<close>

definition demo_request :: approval_request where
  "demo_request = \<lparr>ar_id = ''r1'', ar_ts = ''t'', ar_server = ''mini3'', ar_namespace = ns_ssh, ar_op = ''sign'',
     ar_shed = ''s'', ar_detail = ''ed25519'', ar_expires_at = ''T100''\<rparr>"

definition demo_env :: "int \<Rightarrow> cenv" where
  "demo_env n = \<lparr>now_unix = n, now_iso8601 = ''now'', rfc3339 = (\<lambda>s. if s = ''T100'' then Some 100 else None),
     fresh_id = ''u'', notifier_posted = []\<rparr>"

definition demo_init :: coord where
  "demo_init = coord_init (audit_new ''audit.jsonl'') default_ssh_prefs [] []"

definition demo_choice :: approval_choice where
  "demo_choice = \<lparr>ch_decision = Approve, ch_scope = Some PerSession, ch_ttl = Some ''1h'', ch_persist = False\<rparr>"

definition demo_pending :: coord where
  "demo_pending = run_command (demo_env 10) (CHost (HaFrame (InApprovalRequest demo_request))) demo_init"

definition demo_gated :: coord where
  "demo_gated = run_command (demo_env 11) (CDecide ''r1'' demo_choice 7) demo_pending"

definition demo_task :: gate_task where
  "demo_task = \<lparr>gt_id = ''r1'', gt_request = demo_request, gt_gate = BiometricsOrPassword, gt_choice = demo_choice,
     gt_reply = 7\<rparr>"

lemmas demo_defs = demo_request_def demo_env_def demo_init_def demo_choice_def demo_pending_def
  demo_gated_def demo_task_def

lemma demo_parse [simp]: "parse_unix (rfc3339 (demo_env n)) ''T100'' = Some 100"
proof -
  have "trim ''T100'' = ''T100''" by code_simp
  then show ?thesis by (intro parse_unix_rfc) (simp_all add: demo_env_def)
qed

lemma demo_not_expired [simp]: "not_expired (demo_env n) demo_request \<longleftrightarrow> n < 100"
  by (simp add: not_expired_def demo_request_def) (simp add: demo_env_def)

lemma demo_expired [simp]: "expired_by_tick (demo_env n) demo_request \<longleftrightarrow> 100 < n"
  by (simp add: expired_by_tick_def demo_request_def) (simp add: demo_env_def)

lemma demo_pending_state:
  "hm_get (pending demo_pending) ''r1'' = Some \<lparr>pa_request = demo_request, pa_gate = BiometricsOrPassword\<rparr>"
  "gating demo_pending = {}" "session_grants demo_pending = []"
  "out demo_pending = [FxPost demo_request, FxEmit EvApprovals]"
  "pe_rules (engine demo_pending) = pe_rules (engine demo_init)"
  by (simp_all add: demo_pending_def demo_init_def demo_request_def handle_host_event_def handle_approval_request_def
      coord_init_def rebuild_policy_def Let_def decide_def matches_shed_def matches_namespace_def
      namespace_rule_def default_ssh_prefs_def prompts_def ns_ssh_def ns_aws_def ns_docker_def valid_grants_def)

lemma demo_gated_state:
  "hm_get (pending demo_gated) ''r1'' = Some \<lparr>pa_request = demo_request, pa_gate = BiometricsOrPassword\<rparr>"
  "new_fx (demo_env 11) (CDecide ''r1'' demo_choice 7) demo_pending =
     [FxSpawnGate (gate_prompt demo_request BiometricsOrPassword) ''r1'' demo_request BiometricsOrPassword demo_choice 7]"
proof -
  have c: "ch_decision demo_choice = Approve" by (simp add: demo_choice_def)
  show "new_fx (demo_env 11) (CDecide ''r1'' demo_choice 7) demo_pending =
     [FxSpawnGate (gate_prompt demo_request BiometricsOrPassword) ''r1'' demo_request BiometricsOrPassword demo_choice 7]"
    using new_fx_decide_gated [OF demo_pending_state(1), of "demo_env 11" demo_choice 7] c demo_pending_state(2)
    by simp
  show "hm_get (pending demo_gated) ''r1'' = Some \<lparr>pa_request = demo_request, pa_gate = BiometricsOrPassword\<rparr>"
    using demo_pending_state c by (simp add: demo_gated_def begin_decide_def)
qed

lemma demo_inv: "coord_inv demo_init" "coord_inv demo_pending" "coord_inv demo_gated"
  by (simp_all only: demo_init_def demo_pending_def demo_gated_def coord_init_inv run_command_inv)

lemma demo_reachable:
  "sys_reachable \<lparr>sy_coord = demo_gated, sy_gates = [demo_task]\<rparr>"
proof -
  let ?c1 = "CHost (HaFrame (InApprovalRequest demo_request))"
  have "sys_reachable \<lparr>sy_coord = demo_init, sy_gates = []\<rparr>"
    unfolding demo_init_def by (rule sys_reachable.start)
  moreover have "sys_step \<lparr>sy_coord = demo_init, sy_gates = []\<rparr> (demo_env 10) ?c1
      \<lparr>sy_coord = demo_pending, sy_gates = []\<rparr>"
    using sys_step.external [of ?c1 "\<lparr>sy_coord = demo_init, sy_gates = []\<rparr>" "demo_env 10"]
      external_gates(1) [of ?c1 "demo_env 10" demo_init]
    by (simp add: demo_pending_def)
  ultimately have "sys_reachable \<lparr>sy_coord = demo_pending, sy_gates = []\<rparr>" by (rule sys_reachable.step)
  moreover have "sys_step \<lparr>sy_coord = demo_pending, sy_gates = []\<rparr> (demo_env 11) (CDecide ''r1'' demo_choice 7)
      \<lparr>sy_coord = demo_gated, sy_gates = [demo_task]\<rparr>"
    using sys_step.external [of "CDecide ''r1'' demo_choice 7" "\<lparr>sy_coord = demo_pending, sy_gates = []\<rparr>" "demo_env 11"]
    by (simp add: demo_gated_state demo_task_def) (simp add: demo_gated_def)
  ultimately show ?thesis by (rule sys_reachable.step)
qed

lemma demo_commits:
  "decision_commits (demo_env 12) ''r1'' demo_request BiometricsOrPassword demo_choice OApproved demo_gated"
  by (simp add: decision_commits_def demo_gated_state)

lemma demo_respond:
  "\<exists>sc t. FxRespond ''r1'' Approve ByTouchid sc t \<in> set (new_fx (demo_env 12) (resolve_command demo_task OApproved) demo_gated)"
proof (rule finish_decide_out [of "demo_env 12" "''r1''" demo_request BiometricsOrPassword demo_choice OApproved demo_gated])
  fix l sc t
  assume o: "out (finish_decide (demo_env 12) ''r1'' demo_request BiometricsOrPassword demo_choice OApproved demo_gated) = out demo_gated @
      (if decision_commits (demo_env 12) ''r1'' demo_request BiometricsOrPassword demo_choice OApproved demo_gated
       then response_fx (demo_env 12) demo_request (ch_decision demo_choice) (user_decided_by demo_choice BiometricsOrPassword) l sc t
         @ [FxEmit EvActivity, FxWithdraw ''r1'', FxEmit EvApprovals] else [])"
  have "ar_id demo_request = ''r1''" "ch_decision demo_choice = Approve"
    by (simp_all add: demo_request_def demo_choice_def)
  then show ?thesis using demo_commits o
    by (auto simp: new_fx_def resolve_command_def demo_task_def user_decided_by_def)
qed

section \<open>Every response has a reason\<close>

text \<open>
  C1. Every approve or deny that a command sends to the host agent has one of these reasons: the
  policy in force after the command decides so (on arrival of the request, or for a pending request
  that has not expired when the SSH settings change); the user decided on a request that is pending
  and not expired, where an approval needs either no gate or a resolved native-auth gate with outcome
  Approved for exactly the pending request; or the request expired and the answer is deny. The
  recorded decider tells which.
\<close>

theorem responses_are_justified:
  assumes "coord_inv s" and "FxRespond i d b sc t \<in> set (new_fx env c s)"
  shows "b = ByPolicy \<and> policy_reason env c s i d
       \<or> b \<in> {ByUser, ByTouchid} \<and> user_reason env c s i d
       \<or> b = ByTimeout \<and> expiry_reason env c s i d"
  using assms by (rule response_reasons)

theorem responses_are_justified_witness:
  "coord_inv demo_gated \<and> (\<exists>sc t. FxRespond ''r1'' Approve ByTouchid sc t
      \<in> set (new_fx (demo_env 12) (resolve_command demo_task OApproved) demo_gated))
   \<and> user_reason (demo_env 12) (resolve_command demo_task OApproved) demo_gated ''r1'' Approve"
proof -
  obtain sc t where "FxRespond ''r1'' Approve ByTouchid sc t
      \<in> set (new_fx (demo_env 12) (resolve_command demo_task OApproved) demo_gated)"
    using demo_respond by blast
  from responses_are_justified [OF demo_inv(3) this] this demo_inv(3) show ?thesis by auto
qed

section \<open>User approvals and native authentication\<close>

text \<open>
  C3. In every reachable state of the coordinator and its gate tasks, a step that sends an approve
  not decided by policy acts on a request that is pending and not expired; either the request was
  queued without a gate and the user approved it directly, or the step is the return, with outcome
  Approved, of a native-auth task that was opened for exactly that request.
\<close>

theorem user_approval_needs_native_auth:
  assumes "sys_reachable y" and "sys_step y env c y'"
    and "FxRespond i Approve b sc t \<in> set (new_fx env c (sy_coord y))" and "b \<noteq> ByPolicy"
  shows "\<exists>item. hm_get (pending (sy_coord y)) i = Some item \<and> not_expired env (pa_request item)
     \<and> (b = ByUser \<and> pa_gate item = NoGate \<and> (\<exists>choice rep. c = CDecide i choice rep)
        \<or> b = ByTouchid \<and> (\<exists>t \<in> set (sy_gates y). gt_id t = i \<and> gt_request t = pa_request item \<and> c = resolve_command t OApproved))"
proof -
  have inv: "sys_inv y" using assms(1) by (rule sys_reachable_inv)
  then have ci: "coord_inv (sy_coord y)" by (simp add: sys_inv_def)
  from response_reasons [OF ci assms(3)] assms(4) have u: "user_reason env c (sy_coord y) i Approve"
    and b: "b \<in> {ByUser, ByTouchid}" by (auto simp: expiry_reason_def)
  from assms(2) show ?thesis
  proof (cases rule: sys_step.cases)
    case external
    with u obtain choice rep where c: "c = CDecide i choice rep" by (auto simp: user_reason_def)
    then have "b = ByUser" using decide_reason [OF ci] assms(3) by blast
    then show ?thesis using u c by (auto simp: user_reason_def)
  next
    case (resolve t oc)
    then have bio: "is_biometric (gt_gate t)" "ch_decision (gt_choice t) = Approve"
      using inv by (auto simp: sys_inv_def)
    have "b = user_decided_by (gt_choice t) (gt_gate t)"
      using gate_reason [OF ci] assms(3) resolve(3) unfolding resolve_command_def by blast
    then have "b = ByTouchid" using bio by (simp add: user_decided_by_def)
    moreover obtain item where "hm_get (pending (sy_coord y)) i = Some item" "not_expired env (pa_request item)"
        "gt_id t = i" "gt_request t = pa_request item" "oc = OApproved"
      using u resolve(3) bio by (auto simp: user_reason_def resolve_command_def)
    ultimately show ?thesis using resolve by auto
  qed
qed

theorem user_approval_needs_native_auth_witness:
  "sys_reachable \<lparr>sy_coord = demo_gated, sy_gates = [demo_task]\<rparr>
   \<and> (\<exists>item. hm_get (pending demo_gated) ''r1'' = Some item \<and> not_expired (demo_env 12) (pa_request item))"
proof -
  let ?y = "\<lparr>sy_coord = demo_gated, sy_gates = [demo_task]\<rparr>"
  obtain sc t where r: "FxRespond ''r1'' Approve ByTouchid sc t
      \<in> set (new_fx (demo_env 12) (resolve_command demo_task OApproved) (sy_coord ?y))"
    using demo_respond by auto
  have "sys_step ?y (demo_env 12) (resolve_command demo_task OApproved)
      \<lparr>sy_coord = run_command (demo_env 12) (resolve_command demo_task OApproved) (sy_coord ?y),
       sy_gates = remove1 demo_task (sy_gates ?y)\<rparr>"
    by (rule sys_step.resolve) simp_all
  from user_approval_needs_native_auth [OF demo_reachable this r] demo_reachable show ?thesis by auto
qed

section \<open>At most one response per request\<close>

text \<open>
  However commands interleave, the number of responses sent for a request id never exceeds the
  number of approval requests with that id that arrived; a request still pending has not been
  answered yet.
\<close>

lemma at_most_one_response:
  "owed i (fold (\<lambda>(env, c). run_command env c) cmds (coord_init store prefs rules modes))
   \<le> sum_list (map (\<lambda>(env, c). arrivals i c) cmds)"
proof -
  have zero: "owed i (coord_init store prefs rules modes) = 0" by (simp add: owed_def coord_init_def)
  have "owed i (fold (\<lambda>(env, c). run_command env c) cmds (coord_init store prefs rules modes))
      \<le> owed i (coord_init store prefs rules modes) + sum_list (map (\<lambda>(env, c). arrivals i c) cmds)"
  proof (rule coordinator.run_measure [OF _ coord_init_inv])
    fix op s
    assume "coord_inv s"
    then show "owed i ((case op of (env, c) \<Rightarrow> run_command env c) s) \<le> owed i s + (case op of (env, c) \<Rightarrow> arrivals i c)"
      by (cases op) (simp add: run_command_owed)
  qed
  then show ?thesis using zero by simp
qed

section \<open>Disconnect\<close>

text \<open>
  C6. A disconnect drops every pending request, every session grant and every gate marker, withdraws
  every notification, and sends nothing; a gate that returns afterwards changes neither the queue nor
  the grants nor the policy and sends no response.
\<close>

theorem disconnect_drops_everything:
  defines "d \<equiv> \<lambda>env s. run_command env (CHost HaDisconnected) s"
  shows "pending (d env s) = [] \<and> session_grants (d env s) = [] \<and> gating (d env s) = {} \<and> gate_namespaces (d env s) = []
    \<and> new_fx env (CHost HaDisconnected) s = map FxWithdraw (hm_keys (pending s)) @ [FxEmit EvApprovals, FxEmit EvConnected]
    \<and> new_fx env' (CGateResolved i req g choice oc rep) (d env s) = [FxReply rep AnsUnit]
    \<and> pending (run_command env' (CGateResolved i req g choice oc rep) (d env s)) = []
    \<and> session_grants (run_command env' (CGateResolved i req g choice oc rep) (d env s)) = []
    \<and> engine (run_command env' (CGateResolved i req g choice oc rep) (d env s)) = engine s"
proof -
  have w: "fold (\<lambda>i. fx (FxWithdraw i)) js s = s\<lparr>out := out s @ map FxWithdraw js\<rparr>" for js and s :: coord
    by (induction js arbitrary: s) (simp_all add: fx_def)
  show ?thesis
    by (simp add: d_def new_fx_def handle_host_event_def Let_def w finish_decide_def)
qed

end
