(* ===== verification/Coordinator_Trace.thy ===== *)
theory Coordinator_Trace
  imports Coordinator_System
begin

text \<open>
  What can be read off the coordinator's effect trace: the audit trail (every response is recorded
  first, and the audit store holds exactly the recorded entries), and the notifications shown, with
  the contract of the \<^verbatim>\<open>Notifier\<close> trait as a locale and \<^verbatim>\<open>FakeNotifier\<close>
  (\<^verbatim>\<open>core/shed-app/src/fakes.rs\<close>) as its interpretation.
\<close>

section \<open>Audit trail\<close>

definition records :: "audit_entry \<Rightarrow> string \<Rightarrow> approval_decision \<Rightarrow> bool" where
  "records e i d \<longleftrightarrow>
     ae_id e = i \<and> ae_source e = SrcApp \<and> ae_result e = (if d = Approve then ''ok'' else ''denied'')"

text \<open>Every response of the trace directly follows the audit record of the same decision.\<close>

fun audited_after :: "effect option \<Rightarrow> effect list \<Rightarrow> bool" where
  "audited_after p [] \<longleftrightarrow> True"
| "audited_after p (x # xs) \<longleftrightarrow>
     (case x of
        FxRespond i d _ _ _ \<Rightarrow> (case p of Some (FxAudit e) \<Rightarrow> records e i d | _ \<Rightarrow> False)
      | _ \<Rightarrow> True)
     \<and> audited_after (Some x) xs"

fun audit_entries :: "effect list \<Rightarrow> audit_entry list" where
  "audit_entries [] = []"
| "audit_entries (x # xs) = (case x of FxAudit e \<Rightarrow> e # audit_entries xs | _ \<Rightarrow> audit_entries xs)"

fun plain :: "effect \<Rightarrow> bool" where
  "plain (FxAudit e) = False"
| "plain (FxRespond i d b sc t) = False"
| "plain _ = True"

lemma audited_after_append:
  "audited_after p (xs @ ys) \<longleftrightarrow> audited_after p xs \<and> audited_after (if xs = [] then p else Some (last xs)) ys"
  by (induction xs arbitrary: p) auto

lemma audited_after_None: "audited_after None ys \<Longrightarrow> audited_after p ys"
  by (cases ys) (auto split: effect.splits)

lemma audited_append: "audited_after None xs \<Longrightarrow> audited_after None ys \<Longrightarrow> audited_after None (xs @ ys)"
  by (simp add: audited_after_append audited_after_None)

lemma audit_entries_append [simp]: "audit_entries (xs @ ys) = audit_entries xs @ audit_entries ys"
  by (induction xs) (auto split: effect.splits)

definition trail :: "coord \<Rightarrow> coord \<Rightarrow> bool" where
  "trail s u \<longleftrightarrow> (\<exists>fxs. out u = out s @ fxs \<and> audited_after None fxs
     \<and> audit u = audit_append_all (audit_entries fxs) (audit s))"

lemma trail_refl [simp]: "trail s s"
  by (auto simp: trail_def audit_append_all_def)

lemma trail_extend:
  assumes "trail s u" "out v = out u @ fxs" "audited_after None fxs" "audit v = audit_append_all (audit_entries fxs) (audit u)"
  shows "trail s v"
proof -
  obtain gxs where "out u = out s @ gxs" "audited_after None gxs" "audit u = audit_append_all (audit_entries gxs) (audit s)"
    using assms(1) by (auto simp: trail_def)
  then show ?thesis
    unfolding trail_def using assms(2-4)
    by (intro exI [of _ "gxs @ fxs"]) (simp add: audited_append audit_append_all_def)
qed

lemma trail_trans: "trail s u \<Longrightarrow> trail u v \<Longrightarrow> trail s v"
  by (metis trail_def trail_extend)

lemma trail_cong: "out v = out u \<Longrightarrow> audit v = audit u \<Longrightarrow> trail s u \<Longrightarrow> trail s v"
  by (simp add: trail_def)

lemma trail_plain [simp]: "trail s u \<Longrightarrow> plain e \<Longrightarrow> trail s (fx e u)"
  by (cases e) (auto intro!: trail_extend [of s u _ "[e]"] simp: audit_append_all_def)

lemma trail_record [simp]:
  assumes "trail s u" shows "trail s (audit_entry_append e u)"
  by (rule trail_extend [OF assms, of _ "[FxAudit e]"]) (simp_all add: audit_entry_append_def audit_append_all_def)

lemma trail_record_and_respond [simp]:
  assumes "trail s u" shows "trail s (record_and_respond env req d b p sc t u)"
proof (rule trail_extend [OF assms])
  show "out (record_and_respond env req d b p sc t u) = out u @ response_fx env req d b p sc t"
    by simp
  show "audited_after None (response_fx env req d b p sc t)"
    by (simp add: response_fx_def records_def app_audit_entry_def)
  show "audit (record_and_respond env req d b p sc t u)
      = audit_append_all (audit_entries (response_fx env req d b p sc t)) (audit u)"
    by (simp add: record_and_respond_def audit_entry_append_def response_fx_def audit_append_all_def)
qed

lemma trail_respond_and_audit [simp]: "trail s u \<Longrightarrow> trail s (respond_and_audit env req d b p sc t u)"
  by (simp add: respond_and_audit_def)

lemma trail_simps [simp]:
  "trail s (u\<lparr>pending := m\<rparr>) = trail s u" "trail s (u\<lparr>gating := g\<rparr>) = trail s u"
  "trail s (u\<lparr>session_grants := gr\<rparr>) = trail s u" "trail s (u\<lparr>engine := en\<rparr>) = trail s u"
  "trail s (u\<lparr>gate_namespaces := gn\<rparr>) = trail s u" "trail s (u\<lparr>last_error := er\<rparr>) = trail s u"
  "trail s (u\<lparr>ssh := pr\<rparr>) = trail s u" "trail s (rebuild_policy u) = trail s u"
  "trail s (reset_ssh_grants u) = trail s u"
  by (simp_all add: trail_def)

lemma trail_fold: "trail s u \<Longrightarrow> (\<And>x v. trail s v \<Longrightarrow> trail s (f x v)) \<Longrightarrow> trail s (fold f xs u)"
  by (rule fold_keeps [where P = "trail s"])

lemma trail_commit: "trail s u \<Longrightarrow> trail s (commit_decision env i req g choice u)"
proof -
  assume t: "trail s u"
  obtain v l sc tt where b: "decision_bookkeeping env req choice u = (v, l, sc, tt)"
    by (metis prod_cases4)
  then have "trail s v" using t decision_bookkeeping_fields [OF b] trail_cong by metis
  then show ?thesis by (simp add: commit_decision_def Let_def b)
qed

lemma trail_finish_decide: "trail s u \<Longrightarrow> trail s (finish_decide env i req g choice oc u)"
  by (auto simp: finish_decide_def Let_def trail_commit split: option.splits)

lemma trail_begin_decide: "trail s u \<Longrightarrow> trail s (begin_decide env i choice rep u)"
  by (auto simp: begin_decide_def trail_finish_decide split: option.splits)

lemma trail_expire_pending: "trail s u \<Longrightarrow> trail s (expire_pending env u)"
proof -
  assume t: "trail s u"
  then have "trail s (fold (expire_one env) rs u)" for rs
    by (rule trail_fold) (simp add: expire_one_def Let_def)
  with t show ?thesis by (simp add: expire_pending_def Let_def)
qed

lemma trail_reevaluate_one: "trail s u \<Longrightarrow> trail s (reevaluate_one env gs i u)"
  by (auto simp: reevaluate_one_def Let_def split: option.splits)

lemma trail_set_ssh_approval: "trail s u \<Longrightarrow> trail s (set_ssh_approval env m p t u)"
  unfolding set_ssh_approval_def reevaluate_pending_def Let_def
  by (intro trail_plain trail_fold trail_reevaluate_one) simp_all

lemma trail_host_event: "trail s u \<Longrightarrow> trail s (handle_host_event env ev u)"
proof -
  assume t: "trail s u"
  then have "trail s (fold (\<lambda>i. fx (FxWithdraw i)) js u)" for js
    by (rule trail_fold) simp
  then show ?thesis
    using t by (auto simp: handle_host_event_def handle_approval_request_def Let_def
        split: host_agent_event.splits host_agent_inbound.splits policy_action.splits)
qed

lemma trail_run_command: "trail s u \<Longrightarrow> trail s (run_command env c u)"
  by (cases c) (auto simp: Let_def trail_host_event trail_expire_pending trail_begin_decide trail_finish_decide
      trail_set_ssh_approval split: option.splits)

interpretation trail: machine "\<lambda>(env, c). run_command env c" "trail s0" for s0
  by unfold_locales (auto intro: trail_run_command)

text \<open>
  C5. Over every run of the coordinator, each response to the host agent comes directly after an
  audit record of the same request and the same decision by the app, and the audit store is exactly
  the initial store with the recorded entries appended in order.
\<close>

theorem every_response_is_audited:
  defines "final \<equiv> \<lambda>cmds store prefs rules modes.
     fold (\<lambda>(env, c). run_command env c) cmds (coord_init store prefs rules modes)"
  shows "audited_after None (out (final cmds store prefs rules modes))
    \<and> audit (final cmds store prefs rules modes)
        = audit_append_all (audit_entries (out (final cmds store prefs rules modes))) store"
proof -
  let ?s0 = "coord_init store prefs rules modes"
  have "trail ?s0 (final cmds store prefs rules modes)"
    unfolding final_def by (rule trail.run_inv) simp
  moreover have "out ?s0 = []" "audit ?s0 = store" by (simp_all add: coord_init_def)
  ultimately show ?thesis by (auto simp: trail_def)
qed

section \<open>Notifications\<close>

text \<open>\<^verbatim>\<open>approval_notification_text\<close>; the separator is U+00B7 between blanks.\<close>

definition notification_title :: "approval_request \<Rightarrow> string" where
  "notification_title req = ''Approve '' @ ar_namespace req @ ''?''"

definition notification_body :: "approval_request \<Rightarrow> string" where
  "notification_body req =
     (let sep = [CHR '' '', CHR 0xC2, CHR 0xB7, CHR '' '']
      in ar_op req @ sep @ qualified_shed req @ sep @ ar_detail req)"

text \<open>\<^verbatim>\<open>FakeNotifier\<close>: the recorded posts.\<close>

definition fake_withdraw :: "string \<Rightarrow> posted_notification list \<Rightarrow> posted_notification list" where
  "fake_withdraw i ns = filter (\<lambda>n. pn_id n \<noteq> i) ns"

definition fake_post :: "approval_request \<Rightarrow> posted_notification list \<Rightarrow> posted_notification list" where
  "fake_post req ns =
     filter (\<lambda>n. pn_id n \<noteq> ar_id req) ns
     @ [\<lparr>pn_id = ar_id req, pn_title = notification_title req, pn_body = notification_body req\<rparr>]"

text \<open>Running the trace's notifier calls against a notifier.\<close>

fun deliver :: "(approval_request \<Rightarrow> 'n \<Rightarrow> 'n) \<Rightarrow> (string \<Rightarrow> 'n \<Rightarrow> 'n) \<Rightarrow> effect \<Rightarrow> 'n \<Rightarrow> 'n" where
  "deliver post withdraw (FxPost req) n = post req n"
| "deliver post withdraw (FxWithdraw i) n = withdraw i n"
| "deliver post withdraw _ n = n"

fun shown_step :: "effect \<Rightarrow> string set \<Rightarrow> string set" where
  "shown_step (FxPost req) x = insert (ar_id req) x"
| "shown_step (FxWithdraw i) x = x - {i}"
| "shown_step _ x = x"

definition shown :: "effect list \<Rightarrow> string set \<Rightarrow> string set" where
  "shown fxs x = fold shown_step fxs x"

locale notifier =
  fixes post :: "approval_request \<Rightarrow> 'n \<Rightarrow> 'n"
    and withdraw :: "string \<Rightarrow> 'n \<Rightarrow> 'n"
    and posted_ids :: "'n \<Rightarrow> string set"
  assumes posted_ids_post: "posted_ids (post req n) = insert (ar_id req) (posted_ids n)"
    and posted_ids_withdraw: "posted_ids (withdraw i n) = posted_ids n - {i}"
begin

lemma posted_ids_deliver: "posted_ids (deliver post withdraw e n) = shown_step e (posted_ids n)"
  by (cases e) (simp_all add: posted_ids_post posted_ids_withdraw)

lemma posted_ids_trace: "posted_ids (fold (deliver post withdraw) fxs n) = shown fxs (posted_ids n)"
  by (induction fxs arbitrary: n) (simp_all add: shown_def posted_ids_deliver)

end

interpretation fake_notifier: notifier fake_post fake_withdraw "\<lambda>ns. pn_id ` set ns"
  by unfold_locales (auto simp: fake_post_def fake_withdraw_def)

lemma shown_simps [simp]:
  "shown [] x = x" "shown (xs @ ys) x = shown ys (shown xs x)" "shown (e # xs) x = shown xs (shown_step e x)"
  by (simp_all add: shown_def)

lemma shown_response_fx [simp]: "shown (response_fx env req d b p sc t) x = x"
  by (simp add: response_fx_def)

lemma shown_withdraws: "shown (map FxWithdraw is) x = x - set is"
  by (induction "is" arbitrary: x) auto

definition mirrors :: "coord \<Rightarrow> bool" where
  "mirrors s \<longleftrightarrow> shown (out s) {} = set (hm_keys (pending s))"

lemma mirrors_simps [simp]:
  "shown_step e = id \<Longrightarrow> mirrors (fx e s) = mirrors s"
  "mirrors (s\<lparr>gating := g\<rparr>) = mirrors s" "mirrors (s\<lparr>engine := en\<rparr>) = mirrors s"
  "mirrors (s\<lparr>last_error := er\<rparr>) = mirrors s" "mirrors (s\<lparr>gate_namespaces := gn\<rparr>) = mirrors s"
  "mirrors (s\<lparr>ssh := pr\<rparr>) = mirrors s" "mirrors (rebuild_policy s) = mirrors s"
  "mirrors (reset_ssh_grants s) = mirrors s" "mirrors (audit_entry_append ae s) = mirrors s"
  by (simp_all add: mirrors_def audit_entry_append_def)

lemma shown_step_id [simp]:
  "shown_step (FxEmit ev) = id" "shown_step (FxReply rep a) = id" "shown_step (FxSelfSend c) = id"
  "shown_step (FxSpawnGate p i r g ch rp) = id" "shown_step (FxAudit e) = id" "shown_step (FxRespond i d b sc t) = id"
  by (simp_all add: fun_eq_iff)

lemma keys_remove [simp]: "set (hm_keys (hm_remove i m)) = set (hm_keys m) - {i}"
  by (auto simp: AList.delete_eq)

lemma keys_insert [simp]: "set (hm_keys (hm_insert i v m)) = insert i (set (hm_keys m))"
  by (simp add: dom_map_of_conv_image_fst [symmetric] update_conv')

lemma mirrors_finish_decide: "mirrors s \<Longrightarrow> mirrors (finish_decide env i req g choice oc s)"
  by (rule finish_decide_out [of env i req g choice oc s]) (auto simp: mirrors_def simp del: set_map)

lemma mirrors_begin_decide: "mirrors s \<Longrightarrow> mirrors (begin_decide env i choice rep s)"
  by (auto simp: begin_decide_def mirrors_finish_decide split: option.splits)

lemma mirrors_expire_one: "mirrors s \<Longrightarrow> mirrors (expire_one env req s)"
  by (simp add: mirrors_def expire_one_def Let_def del: set_map)

lemma mirrors_reevaluate_one: "mirrors s \<Longrightarrow> mirrors (reevaluate_one env gs i s)"
proof (cases rule: reevaluate_one_cases [of env gs i s])
  case (prompt item)
  moreover have "i \<in> set (hm_keys (pending s))" using prompt(1) by (force dest: map_of_SomeD)
  ultimately show "mirrors s \<Longrightarrow> ?thesis"
    by (auto simp: mirrors_def reevaluate_one_prompt insert_absorb simp del: set_map)
qed (auto simp: mirrors_def reevaluate_one_resolve simp del: set_map)

lemma mirrors_host_event: "mirrors s \<Longrightarrow> mirrors (handle_host_event env ev s)"
proof (cases ev)
  case HaDisconnected
  have "out (fold (\<lambda>i. fx (FxWithdraw i)) js s) = out s @ map FxWithdraw js" for js and s :: coord
    by (induction js arbitrary: s) auto
  then show "mirrors s \<Longrightarrow> ?thesis"
    using HaDisconnected shown_withdraws [of "hm_keys (pending s)"]
    by (simp add: handle_host_event_def Let_def mirrors_def)
next
  case (HaFrame frame)
  then show "mirrors s \<Longrightarrow> ?thesis"
    by (cases frame) (auto simp: handle_host_event_def handle_approval_request_def Let_def mirrors_def
        audit_entry_append_def simp del: set_map split: policy_action.splits)
qed (auto simp: handle_host_event_def)

lemma mirrors_run_command: "mirrors s \<Longrightarrow> mirrors (run_command env c s)"
proof (cases c)
  case (CExpire rep)
  have "mirrors s \<Longrightarrow> mirrors (fold (expire_one env) rs s)" for rs
    by (rule fold_keeps [where P = mirrors]) (simp_all add: mirrors_expire_one)
  then have "mirrors s \<Longrightarrow> mirrors (expire_pending env s)"
    by (simp add: expire_pending_def Let_def)
  then show "mirrors s \<Longrightarrow> ?thesis" using CExpire by (auto simp: Let_def split: option.splits)
next
  case (CSetSshApproval m p t rep)
  have "mirrors u \<Longrightarrow> mirrors (fold (reevaluate_one env gs) js u)" for gs js u
    by (rule fold_keeps [where P = mirrors]) (simp_all add: mirrors_reevaluate_one)
  then show "mirrors s \<Longrightarrow> ?thesis"
    using CSetSshApproval by (simp add: set_ssh_approval_def reevaluate_pending_def Let_def)
qed (auto simp: Let_def mirrors_host_event mirrors_begin_decide mirrors_finish_decide)

interpretation mirror: machine "\<lambda>(env, c). run_command env c" mirrors
  by unfold_locales (auto intro: mirrors_run_command)

text \<open>
  C19. Over every run of the coordinator, the notifications that the recording notifier holds after
  the posts and withdrawals of the run are those of the pending requests: none is left over for a
  resolved, expired or dropped request, and none is missing.
\<close>

theorem notifications_mirror_pending:
  defines "final \<equiv> \<lambda>cmds store prefs rules modes.
     fold (\<lambda>(env, c). run_command env c) cmds (coord_init store prefs rules modes)"
  shows "pn_id ` set (fold (deliver fake_post fake_withdraw) (out (final cmds store prefs rules modes)) [])
    = set (hm_keys (pending (final cmds store prefs rules modes)))"
proof -
  have "mirrors (final cmds store prefs rules modes)"
    unfolding final_def by (rule mirror.run_inv) (simp add: mirrors_def coord_init_def)
  then show ?thesis using fake_notifier.posted_ids_trace [of _ "[]"] by (simp add: mirrors_def)
qed

end
