(* ===== verification/Coordinator_Behaviour.thy ===== *)
theory Coordinator_Behaviour
  imports Coordinator_Theorems Coordinator_Trace "HOL-Library.Multiset"
begin

text \<open>
  The functional behaviour of the coordinator's operations on their branches: the expiry sweep, a
  change of the SSH settings, the life of a session grant, a persisted per-shed rule, the default
  policy and the list of pending approvals; and the edges: a TTL that overflows, an expiry that cannot be read or
  is now, and the return of a gate whose request was replaced.
\<close>

section \<open>Expiry sweep\<close>

lemma expired_ids_iff:
  assumes "coord_inv s"
  shows "i \<in> ar_id ` set (expired_requests env s) \<longleftrightarrow>
    (\<exists>p. hm_get (pending s) i = Some p \<and> expired_by_tick env (pa_request p))"
proof
  assume "i \<in> ar_id ` set (expired_requests env s)"
  then obtain r where r: "r \<in> set (expired_requests env s)" "i = ar_id r" by blast
  then have "expired_by_tick env r" by (simp add: expired_requests_def)
  then show "\<exists>p. hm_get (pending s) i = Some p \<and> expired_by_tick env (pa_request p)"
    using expired_id_pending [OF assms r(1)] r(2) by fastforce
next
  assume "\<exists>p. hm_get (pending s) i = Some p \<and> expired_by_tick env (pa_request p)"
  then obtain p where p: "hm_get (pending s) i = Some p" "expired_by_tick env (pa_request p)" by blast
  then have "pa_request p \<in> set (expired_requests env s)"
    by (force simp: expired_requests_def dest: map_of_SomeD)
  then show "i \<in> ar_id ` set (expired_requests env s)"
    using coord_inv_pendingD [OF assms p(1)] by blast
qed

lemma new_fx_expire:
  "\<exists>tl. new_fx env (CExpire rep) s = concat (map (expire_fx env) (expired_requests env s)) @ tl
    \<and> (\<forall>i. resp_count i tl = 0)"
  by (cases rep) (auto simp: new_fx_def expire_pending_result(1))

text \<open>
  C7. An expiry sweep removes from the queue exactly the pending requests whose expiry has passed,
  leaves the others with their gate, and answers each removed request exactly once and no other.
\<close>

theorem expiry_sweep_exact:
  assumes "coord_inv s"
  shows "hm_get (pending (run_command env (CExpire rep) s)) i
      = opt_filter (\<lambda>p. \<not> expired_by_tick env (pa_request p)) (hm_get (pending s) i)
    \<and> resp_count i (new_fx env (CExpire rep) s)
      = (case hm_get (pending s) i of
           Some p \<Rightarrow> if expired_by_tick env (pa_request p) then 1 else 0 | None \<Rightarrow> 0)"
proof
  have "pending (run_command env (CExpire rep) s) = pending (expire_pending env s)"
    by (simp add: Let_def split: option.splits)
  moreover have "hm_ok (pending s)" using assms by (simp add: coord_inv_def pend_ok_def)
  ultimately show "hm_get (pending (run_command env (CExpire rep) s)) i
      = opt_filter (\<lambda>p. \<not> expired_by_tick env (pa_request p)) (hm_get (pending s) i)"
    using expired_ids_iff [OF assms, of i env]
    by (cases "hm_get (pending s) i") (auto simp: expire_pending_result(2) hm_get_filter)
  have "count_list (map ar_id (expired_requests env s)) i
      = (if i \<in> ar_id ` set (expired_requests env s) then 1 else 0)"
    using count_list_distinct [OF expired_ids_distinct [OF assms]] by (metis set_map)
  then show "resp_count i (new_fx env (CExpire rep) s)
      = (case hm_get (pending s) i of
           Some p \<Rightarrow> if expired_by_tick env (pa_request p) then 1 else 0 | None \<Rightarrow> 0)"
    using new_fx_expire [of env rep s] expired_ids_iff [OF assms, of i env]
    by (auto simp: resp_count_expire_fx split: option.splits)
qed

theorem expiry_sweep_exact_witness:
  "coord_inv demo_pending \<and> hm_get (pending (run_command (demo_env 101) (CExpire None) demo_pending)) ''r1'' = None
   \<and> resp_count ''r1'' (new_fx (demo_env 101) (CExpire None) demo_pending) = 1"
  using expiry_sweep_exact [OF demo_inv(2), of "demo_env 101" None "''r1''"] demo_inv(2) demo_pending_state(1)
  by simp

section \<open>A change of the SSH settings\<close>

lemma reevaluate_one_other: "i \<noteq> j \<Longrightarrow> hm_get (pending (reevaluate_one env gs j s)) i = hm_get (pending s) i"
  by (cases rule: reevaluate_one_cases [of env gs j s])
    (simp_all add: reevaluate_one_prompt reevaluate_one_resolve)

definition reevaluated :: "cenv \<Rightarrow> session_grant_key list \<Rightarrow> policy_engine \<Rightarrow> pending_approval \<Rightarrow> pending_approval option" where
  "reevaluated env gs eng item =
     (if expired_by_tick env (pa_request item) then Some item
      else (let d = decide eng (pa_request item) gs
            in if pd_action d = PActPrompt then Some (item\<lparr>pa_gate := pd_gate d\<rparr>) else None))"

lemma reevaluated_again:
  "reevaluated env gs eng item = Some item' \<Longrightarrow> reevaluated env gs eng item' = Some item'"
  by (auto simp: reevaluated_def Let_def split: if_splits)

lemma reevaluate_one_same:
  "hm_get (pending (reevaluate_one env gs i s)) i = Option.bind (hm_get (pending s) i) (reevaluated env gs (engine s))"
  by (cases rule: reevaluate_one_cases [of env gs i s])
    (auto simp: reevaluate_one_prompt reevaluate_one_resolve reevaluated_def)

lemma pending_fold_reevaluate:
  "hm_get (pending (fold (reevaluate_one env gs) js s)) i =
     (if i \<in> set js then Option.bind (hm_get (pending s) i) (reevaluated env gs (engine s)) else hm_get (pending s) i)"
proof (induction js arbitrary: s)
  case (Cons j js)
  show ?case
  proof (cases "i = j")
    case True
    have "Option.bind (Option.bind (hm_get (pending s) i) (reevaluated env gs (engine s))) (reevaluated env gs (engine s))
        = Option.bind (hm_get (pending s) i) (reevaluated env gs (engine s))"
      by (cases "hm_get (pending s) i") (auto simp: reevaluated_again split: bind_splits)
    then show ?thesis using True Cons.IH by (simp add: reevaluate_one_same)
  next
    case False
    then show ?thesis using Cons.IH by (simp add: reevaluate_one_other)
  qed
qed simp

lemma fold_reevaluate_answers:
  assumes "hm_get (pending s) i = Some item" "reevaluated env gs (engine s) item = None" "i \<in> set js"
  shows "\<exists>fxs. out (fold (reevaluate_one env gs) js s) = out s @ fxs
    \<and> FxRespond (ar_id (pa_request item)) (policy_verdict (decide (engine s) (pa_request item) gs)) ByPolicy None None \<in> set fxs"
  using assms
proof (induction js arbitrary: s)
  case (Cons j js)
  obtain f1 where f1: "out (reevaluate_one env gs j s) = out s @ f1" using out_reevaluate_one by blast
  show ?case
  proof (cases "i = j")
    case True
    have "\<not> expired_by_tick env (pa_request item)" "pd_action (decide (engine s) (pa_request item) gs) \<noteq> PActPrompt"
      using Cons.prems(2) by (auto simp: reevaluated_def Let_def split: if_splits)
    from reevaluate_one_resolve(1) [OF Cons.prems(1) this] True f1
    have "FxRespond (ar_id (pa_request item)) (policy_verdict (decide (engine s) (pa_request item) gs)) ByPolicy None None
        \<in> set f1" by (simp add: response_fx_def)
    moreover obtain f2 where "out (fold (reevaluate_one env gs) js (reevaluate_one env gs j s))
        = out (reevaluate_one env gs j s) @ f2" using out_fold_reevaluate by blast
    ultimately show ?thesis using f1 by auto
  next
    case False
    then show ?thesis using Cons.IH [of "reevaluate_one env gs j s"] Cons.prems f1 by (auto simp: reevaluate_one_other)
  qed
qed simp

text \<open>The rules that settings stand for, written out: what each policy does with an SSH request and
  which native authentication each method asks for.\<close>

definition settings_rules :: "ssh_prefs \<Rightarrow> coord \<Rightarrow> policy_rule list" where
  "settings_rules prefs s =
     (let rule = (\<lambda>ns act g. \<lparr>pr_scope = ScopeNamespace, pr_server = None, pr_namespace = Some ns, pr_shed = None,
                              pr_action = act, pr_gate = g\<rparr>);
          mode = (\<lambda>ns. if hm_get (provider_modes s) ns = Some Approve then PActApprove else PActDeny);
          ask = rule ''ssh-agent'' PActPrompt
                  (case sp_method prefs of MBiometricsOrPassword \<Rightarrow> BiometricsOrPassword
                   | MBiometrics \<Rightarrow> Biometrics | MPrompt \<Rightarrow> NoGate)
      in (case sp_policy prefs of
            AlwaysAllow \<Rightarrow> rule ''ssh-agent'' PActApprove NoGate
          | AlwaysDeny \<Rightarrow> rule ''ssh-agent'' PActDeny NoGate
          | PerShedAllow \<Rightarrow> ask | TimeBasedAllow \<Rightarrow> ask | AlwaysAsk \<Rightarrow> ask)
         # rule ''aws-credentials'' (mode ''aws-credentials'') NoGate
         # rule ''docker-credentials'' (mode ''docker-credentials'') NoGate
         # extra_rules s)"

lemma rebuild_policy_rules: "engine (rebuild_policy s) = \<lparr>pe_rules = settings_rules (ssh s) s\<rparr>"
proof -
  have m: "decision_policy_action (unwrap_or (hm_get (provider_modes s) n) Deny)
      = (if hm_get (provider_modes s) n = Some Approve then PActApprove else PActDeny)" for n
    by (cases "hm_get (provider_modes s) n"; cases "unwrap_or (hm_get (provider_modes s) n) Deny") auto
  show ?thesis
    by (cases "sp_policy (ssh s)"; cases "sp_method (ssh s)")
      (simp_all add: rebuild_policy_def settings_rules_def namespace_rule_def provider_mode_def m prompts_def
        ns_ssh_def ns_aws_def ns_docker_def Let_def)
qed

definition new_prefs ::
  "approval_method option \<Rightarrow> ssh_approval_policy option \<Rightarrow> string option \<Rightarrow> ssh_prefs \<Rightarrow> ssh_prefs" where
  "new_prefs m p t old =
     \<lparr>sp_method = unwrap_or m (sp_method old), sp_policy = unwrap_or p (sp_policy old), sp_ttl = unwrap_or t (sp_ttl old)\<rparr>"

lemma set_ssh_approval_result:
  "set_ssh_approval env m p t s =
     reevaluate_pending env (reset_ssh_grants (rebuild_policy (s\<lparr>ssh := new_prefs m p t (ssh s)\<rparr>)))"
proof -
  have "(let prefs = ssh s;
          prefs = (case m of Some x \<Rightarrow> prefs\<lparr>sp_method := x\<rparr> | None \<Rightarrow> prefs);
          prefs = (case p of Some x \<Rightarrow> prefs\<lparr>sp_policy := x\<rparr> | None \<Rightarrow> prefs)
      in (case t of Some x \<Rightarrow> prefs\<lparr>sp_ttl := x\<rparr> | None \<Rightarrow> prefs)) = new_prefs m p t (ssh s)"
    by (cases "ssh s") (simp add: new_prefs_def unwrap_or_def Let_def split: option.splits)
  then show ?thesis unfolding set_ssh_approval_def Let_def by simp
qed

lemma ssh_fold_reevaluate: "ssh (fold (reevaluate_one env gs) js s) = ssh s"
  by (rule fold_keeps [where P = "\<lambda>v. ssh v = ssh s"])
    (auto simp: reevaluate_one_def respond_and_audit_def record_and_respond_def audit_entry_append_def Let_def
      split: option.splits)

lemma after_settings:
  fixes env m p t rep s
  defines "s' \<equiv> run_command env (CSetSshApproval m p t rep) s"
    and "eng \<equiv> \<lparr>pe_rules = settings_rules (new_prefs m p t (ssh s)) s\<rparr>"
    and "kept \<equiv> filter (\<lambda>(k, _). gk_namespace k \<noteq> ''ssh-agent'') (session_grants s)"
  defines "live \<equiv> map fst (filter (\<lambda>(_, e). grant_live env e) kept)"
  shows "ssh s' = new_prefs m p t (ssh s)" and "engine s' = eng" and "session_grants s' = kept"
    and "hm_get (pending s') i = Option.bind (hm_get (pending s) i) (reevaluated env live eng)"
    and "hm_get (pending s) i = Some item \<Longrightarrow> hm_get (pending s') i = None \<Longrightarrow>
      FxRespond (ar_id (pa_request item)) (policy_verdict (decide eng (pa_request item) live)) ByPolicy None None
      \<in> set (new_fx env (CSetSshApproval m p t rep) s)"
proof -
  define s1 where "s1 = reset_ssh_grants (rebuild_policy (s\<lparr>ssh := new_prefs m p t (ssh s)\<rparr>))"
  let ?f = "fold (reevaluate_one env live) (hm_keys (pending s1)) s1"
  have s1: "engine s1 = eng" "pending s1 = pending s" "ssh s1 = new_prefs m p t (ssh s)" "out s1 = out s"
    "session_grants s1 = kept"
    by (simp_all add: s1_def eng_def kept_def reset_ssh_grants_def rebuild_policy_rules settings_rules_def ns_ssh_def)
  have "valid_grants env s1 = live" by (simp only: valid_grants_def s1(5) live_def)
  then have s': "s' = fx (FxReply rep AnsUnit) (fx (FxEmit EvApprovals) ?f)"
    by (simp add: s'_def set_ssh_approval_result reevaluate_pending_def s1_def)
  show "ssh s' = new_prefs m p t (ssh s)" "engine s' = eng" "session_grants s' = kept"
    using fold_reevaluate_frame by (simp_all add: s' s1 ssh_fold_reevaluate)
  show pend: "hm_get (pending s') i = Option.bind (hm_get (pending s) i) (reevaluated env live eng)"
  proof (cases "hm_get (pending s) i")
    case (Some item)
    then have "i \<in> set (hm_keys (pending s1))" using s1 by (force dest: map_of_SomeD)
    then show ?thesis by (simp add: s' pending_fold_reevaluate s1)
  qed (simp add: s' pending_fold_reevaluate s1)
  assume i: "hm_get (pending s) i = Some item" "hm_get (pending s') i = None"
  then have "i \<in> set (hm_keys (pending s1))" using s1 by (force dest: map_of_SomeD)
  then obtain fxs where "out ?f = out s @ fxs"
      "FxRespond (ar_id (pa_request item)) (policy_verdict (decide eng (pa_request item) live)) ByPolicy None None \<in> set fxs"
    using fold_reevaluate_answers [of s1 i item env live "hm_keys (pending s1)"] i pend s1 by auto
  moreover have "new_fx env (CSetSshApproval m p t rep) s = drop (length (out s)) (out s')"
    by (simp only: new_fx_def s'_def)
  ultimately show "FxRespond (ar_id (pa_request item)) (policy_verdict (decide eng (pa_request item) live)) ByPolicy None None
      \<in> set (new_fx env (CSetSshApproval m p t rep) s)"
    by (auto simp: s')
qed

text \<open>
  C8. A change of the SSH approval settings takes effect at once and completely. Afterwards the
  settings are the old ones with the given method, policy and TTL in place of the fields that were
  given; the engine holds exactly the rules of those settings, written out in settings_rules (with the
  credential modes and the extra rules as they were); the SSH session grants are gone and the others
  are kept, whether or not anything is pending; and each pending request is left as it is when its
  expiry has passed (the sweep answers it), stays with the gate of the new policy when the new policy
  prompts for it, and otherwise is dropped from the queue and answered with the new policy's decision.
\<close>

theorem settings_change_is_fresh:
  "let s' = run_command env (CSetSshApproval m p t rep) s;
       prefs = \<lparr>sp_method = (case m of Some x \<Rightarrow> x | None \<Rightarrow> sp_method (ssh s)),
                sp_policy = (case p of Some x \<Rightarrow> x | None \<Rightarrow> sp_policy (ssh s)),
                sp_ttl = (case t of Some x \<Rightarrow> x | None \<Rightarrow> sp_ttl (ssh s))\<rparr>;
       kept = filter (\<lambda>(k, _). gk_namespace k \<noteq> ''ssh-agent'') (session_grants s);
       live = map fst (filter (\<lambda>(_, e). grant_live env e) kept);
       verdict = (\<lambda>req. decide \<lparr>pe_rules = settings_rules prefs s\<rparr> req live)
   in ssh s' = prefs
    \<and> engine s' = \<lparr>pe_rules = settings_rules prefs s\<rparr>
    \<and> session_grants s' = kept
    \<and> (\<forall>i. hm_get (pending s') i = (case hm_get (pending s) i of None \<Rightarrow> None | Some item \<Rightarrow>
          if expired_by_tick env (pa_request item) then Some item
          else if pd_action (verdict (pa_request item)) = PActPrompt
          then Some (item\<lparr>pa_gate := pd_gate (verdict (pa_request item))\<rparr>) else None))
    \<and> (\<forall>i item. hm_get (pending s) i = Some item \<longrightarrow> hm_get (pending s') i = None \<longrightarrow>
          FxRespond (ar_id (pa_request item))
            (if pd_action (verdict (pa_request item)) = PActApprove then Approve else Deny) ByPolicy None None
          \<in> set (new_fx env (CSetSshApproval m p t rep) s))"
proof -
  have p: "new_prefs m p t (ssh s) = \<lparr>sp_method = (case m of Some x \<Rightarrow> x | None \<Rightarrow> sp_method (ssh s)),
        sp_policy = (case p of Some x \<Rightarrow> x | None \<Rightarrow> sp_policy (ssh s)),
        sp_ttl = (case t of Some x \<Rightarrow> x | None \<Rightarrow> sp_ttl (ssh s))\<rparr>"
    by (simp add: new_prefs_def unwrap_or_def)
  show ?thesis
    unfolding Let_def p [symmetric]
    using after_settings(5) [of s _ _ env m p t rep]
    by (simp add: after_settings(1-4) reevaluated_def policy_verdict_def del: run_command.simps split: option.split)
qed

lemma demo_pending_fields:
  "pending demo_pending = [(''r1'', \<lparr>pa_request = demo_request, pa_gate = BiometricsOrPassword\<rparr>)]"
  "session_grants demo_pending = []" "ssh demo_pending = default_ssh_prefs" "extra_rules demo_pending = []"
  by (simp_all add: demo_pending_def demo_init_def demo_request_def handle_host_event_def handle_approval_request_def
      coord_init_def rebuild_policy_def Let_def decide_def matches_shed_def matches_namespace_def
      namespace_rule_def default_ssh_prefs_def prompts_def ns_ssh_def ns_aws_def ns_docker_def valid_grants_def)

theorem settings_change_is_fresh_witness:
  "pa_gate (the (hm_get (pending demo_pending) ''r1'')) = BiometricsOrPassword
   \<and> hm_get (pending (run_command (demo_env 11) (CSetSshApproval (Some MPrompt) None None 3) demo_pending)) ''r1''
       = Some \<lparr>pa_request = demo_request, pa_gate = NoGate\<rparr>
   \<and> hm_get (pending (run_command (demo_env 11) (CSetSshApproval None (Some AlwaysDeny) None 3) demo_pending)) ''r1'' = None
   \<and> FxRespond ''r1'' Deny ByPolicy None None
       \<in> set (new_fx (demo_env 11) (CSetSshApproval None (Some AlwaysDeny) None 3) demo_pending)"
proof -
  note k = demo_pending_fields and run_command.simps [simp del]
  have d: "decide \<lparr>pe_rules = settings_rules \<lparr>sp_method = m, sp_policy = p, sp_ttl = t\<rparr> demo_pending\<rparr> demo_request []
      = (if p = AlwaysDeny then \<lparr>pd_action = PActDeny, pd_gate = NoGate, pd_applied_scope = ScopeNamespace\<rparr>
         else \<lparr>pd_action = PActPrompt, pd_gate = method_gate m, pd_applied_scope = ScopeNamespace\<rparr>)"
    if "p = AlwaysDeny \<or> p = TimeBasedAllow" for m p t
    using that by (cases m) (auto simp: settings_rules_def decide_def match_defs k demo_request_def ns_ssh_def)
  have e: "\<not> expired_by_tick (demo_env 11) demo_request"
    by simp
  have id: "ar_id demo_request = ''r1''" by (simp add: demo_request_def)
  have p: "sp_method default_ssh_prefs = MBiometricsOrPassword" "sp_policy default_ssh_prefs = TimeBasedAllow"
    by (simp_all add: default_ssh_prefs_def)
  have "hm_get (pending (run_command (demo_env 11) (CSetSshApproval (Some MPrompt) None None 3) demo_pending)) ''r1''
       = Some \<lparr>pa_request = demo_request, pa_gate = NoGate\<rparr>"
    using settings_change_is_fresh [of "demo_env 11" "Some MPrompt" None None 3 demo_pending]
    by (simp add: Let_def k p d e)
  moreover have deny: "hm_get (pending (run_command (demo_env 11) (CSetSshApproval None (Some AlwaysDeny) None 3) demo_pending)) ''r1'' = None"
    using settings_change_is_fresh [of "demo_env 11" None "Some AlwaysDeny" None 3 demo_pending]
    by (simp add: Let_def k p d e)
  moreover have "FxRespond ''r1'' Deny ByPolicy None None
       \<in> set (new_fx (demo_env 11) (CSetSshApproval None (Some AlwaysDeny) None 3) demo_pending)"
    using settings_change_is_fresh [of "demo_env 11" None "Some AlwaysDeny" None 3 demo_pending]
    unfolding Let_def using deny by (elim conjE allE [of _ "''r1''"]) (simp add: k p d id)
  ultimately show ?thesis by (simp add: k)
qed

section \<open>Grants and persisted rules\<close>

lemma valid_grants_iff:
  "hm_ok (session_grants s) \<Longrightarrow>
   k \<in> set (valid_grants env s) \<longleftrightarrow> (\<exists>e. hm_get (session_grants s) k = Some e \<and> grant_live env e)"
  by (force simp: valid_grants_def)

lemma decide_session_iff: "pd_applied_scope (decide eng req gs) = ScopeSession \<longleftrightarrow> grant_key req \<in> set gs"
  by (auto simp: decide_def split: option.splits)

lemma commit_frame:
  assumes "decision_bookkeeping env req choice s = (s', l, sc, t)"
  shows "session_grants (commit_decision env i req g choice s) = session_grants s'"
    "engine (commit_decision env i req g choice s) = engine s'"
  using assms by (simp_all add: commit_decision_def Let_def)

lemma ttl_shorthand_range:
  "ttl_shorthand_seconds t = Some secs \<Longrightarrow> - (2 ^ 63) \<le> secs \<and> secs < 2 ^ 63"
  using i64_wrap_range by (auto simp: ttl_shorthand_seconds_def Let_def split: option.splits if_splits list.splits)

lemma per_session_grant_stored:
  assumes "decision_commits env i req g choice oc s"
    and "ch_decision choice = Approve" "ch_scope choice = Some PerSession" "\<not> ch_persist choice"
    and "ch_ttl choice = Some t" "ttl_shorthand_seconds t = Some secs"
  shows "session_grants (finish_decide env i req g choice oc s)
      = hm_insert (grant_key req) (Until (i64_wrap (now_unix env + secs))) (session_grants s)"
proof -
  let ?u = "s\<lparr>gating := gating s - {i}\<rparr>"
  have "decision_bookkeeping env req choice ?u
      = (?u\<lparr>session_grants := hm_insert (grant_key req) (Until (i64_wrap (now_unix env + secs))) (session_grants ?u)\<rparr>,
         ''session-grant'', approval_scope_wire PerSession, t)"
    using assms(2-) by (simp add: decision_bookkeeping_def Let_def)
  then show ?thesis using finish_decide_commits [OF assms(1)] commit_frame(1) by simp
qed

text \<open>
  C9. A per-session approval with a valid TTL leaves a grant for exactly its server, namespace and
  shed that lives for the TTL: under any rules, a later request with that key is decided by the
  session scope exactly until the TTL has run out.
\<close>

theorem session_grant_lifetime:
  assumes "coord_inv s" and "decision_commits env i req g choice oc s"
    and "ch_decision choice = Approve" "ch_scope choice = Some PerSession" "\<not> ch_persist choice"
    and "ch_ttl choice = Some t" "ttl_shorthand_seconds t = Some secs"
    and "0 \<le> now_unix env" "now_unix env + secs < 2 ^ 63" and "grant_key req' = grant_key req"
  shows "pd_applied_scope (decide eng req' (valid_grants env' (finish_decide env i req g choice oc s))) = ScopeSession
      \<longleftrightarrow> now_unix env' < now_unix env + secs"
proof -
  let ?f = "finish_decide env i req g choice oc s"
  have "- (2 ^ 63) \<le> now_unix env + secs" using ttl_shorthand_range [OF assms(7)] assms(8) by simp
  then have w: "i64_wrap (now_unix env + secs) = now_unix env + secs" using assms(9) by (rule i64_wrap_id)
  have "hm_get (session_grants ?f) (grant_key req') = Some (Until (now_unix env + secs))"
    using per_session_grant_stored [OF assms(2-7)] assms(10) w by simp
  moreover have "hm_ok (session_grants ?f)" using finish_decide_inv [OF assms(1)] by (rule coord_invD)
  ultimately show ?thesis by (auto simp: decide_session_iff valid_grants_iff grant_live_def)
qed

theorem session_grant_lifetime_witness:
  "let f = finish_decide (demo_env 12) ''r1'' demo_request BiometricsOrPassword demo_choice OApproved demo_gated in
   pd_applied_scope (decide (engine f) demo_request (valid_grants (demo_env 3611) f)) = ScopeSession
   \<and> pd_applied_scope (decide (engine f) demo_request (valid_grants (demo_env 3612) f)) \<noteq> ScopeSession"
proof -
  let ?f = "finish_decide (demo_env 12) ''r1'' demo_request BiometricsOrPassword demo_choice OApproved demo_gated"
  have t: "ttl_shorthand_seconds ''1h'' = Some 3600" by code_simp
  have c: "ch_decision demo_choice = Approve" "ch_scope demo_choice = Some PerSession" "\<not> ch_persist demo_choice"
    "ch_ttl demo_choice = Some ''1h''" by (simp_all add: demo_choice_def)
  have n: "now_unix (demo_env k) = k" for k by (simp add: demo_env_def)
  show ?thesis
    using session_grant_lifetime [OF demo_inv(3) demo_commits c t _ _ refl, of "engine ?f" "demo_env 3611"]
      session_grant_lifetime [OF demo_inv(3) demo_commits c t _ _ refl, of "engine ?f" "demo_env 3612"]
    by (simp add: n Let_def)
qed

text \<open>
  A committed deny takes effect at once: whatever grants were live for the request's server,
  namespace and shed, none is valid afterwards.
\<close>

lemma deny_revokes_grant:
  assumes "coord_inv s" and "decision_commits env i req g choice oc s" and "ch_decision choice = Deny"
  shows "grant_key req \<notin> set (valid_grants env' (finish_decide env i req g choice oc s))"
proof -
  let ?u = "s\<lparr>gating := gating s - {i}\<rparr>"
  obtain s' l sc t where b: "decision_bookkeeping env req choice ?u = (s', l, sc, t)" by (metis prod_cases4)
  then have "session_grants s' = hm_remove (grant_key req) (session_grants s)"
    using assms(3) by (auto simp: decision_bookkeeping_def Let_def split: if_splits)
  then have "session_grants (finish_decide env i req g choice oc s) = hm_remove (grant_key req) (session_grants s)"
    using finish_decide_commits [OF assms(2)] commit_frame(1) [OF b] by simp
  moreover have "hm_ok (session_grants (finish_decide env i req g choice oc s))"
    using finish_decide_inv [OF assms(1)] by (rule coord_invD)
  ultimately show ?thesis by (simp add: valid_grants_iff)
qed

lemma persist_engine:
  assumes "decision_commits env i req g choice oc s" and "ch_persist choice"
  shows "pe_rules (engine (finish_decide env i req g choice oc s)) =
    take 3 (pe_rules (engine (finish_decide env i req g choice oc s)))
      @ filter (\<lambda>r. \<not> (pr_scope r = ScopeShed \<and> pr_shed r = Some (ar_shed req) \<and> unwrap_or (pr_server r) [] = ar_server req))
          (extra_rules s)
      @ [\<lparr>pr_scope = ScopeShed, pr_server = Some (ar_server req), pr_namespace = None, pr_shed = Some (ar_shed req),
          pr_action = decision_policy_action (ch_decision choice), pr_gate = NoGate\<rparr>]"
    "\<forall>r \<in> set (take 3 (pe_rules (engine (finish_decide env i req g choice oc s)))). pr_scope r = ScopeNamespace"
proof -
  let ?u = "s\<lparr>gating := gating s - {i}\<rparr>"
  obtain s' l sc t where b: "decision_bookkeeping env req choice ?u = (s', l, sc, t)" by (metis prod_cases4)
  obtain v where v: "s' = add_shed_rule (ar_server req) (ar_shed req) (ch_decision choice) v" "extra_rules v = extra_rules s"
    using b assms(2) by (auto simp: decision_bookkeeping_def Let_def split: if_splits)
  have e: "engine (finish_decide env i req g choice oc s) = engine s'"
    using finish_decide_commits [OF assms(1)] commit_frame(2) [OF b] by simp
  show "pe_rules (engine (finish_decide env i req g choice oc s)) =
    take 3 (pe_rules (engine (finish_decide env i req g choice oc s)))
      @ filter (\<lambda>r. \<not> (pr_scope r = ScopeShed \<and> pr_shed r = Some (ar_shed req) \<and> unwrap_or (pr_server r) [] = ar_server req))
          (extra_rules s)
      @ [\<lparr>pr_scope = ScopeShed, pr_server = Some (ar_server req), pr_namespace = None, pr_shed = Some (ar_shed req),
          pr_action = decision_policy_action (ch_decision choice), pr_gate = NoGate\<rparr>]"
    unfolding e v(1) add_shed_rule_def v(2) by (simp add: rebuild_policy_def Let_def)
  show "\<forall>r \<in> set (take 3 (pe_rules (engine (finish_decide env i req g choice oc s)))). pr_scope r = ScopeNamespace"
    unfolding e v(1) add_shed_rule_def by (simp add: rebuild_policy_def Let_def namespace_rule_def)
qed

lemma find_append_skip: "\<forall>x \<in> set xs. \<not> P x \<Longrightarrow> List.find P (xs @ ys) = List.find P ys"
  by (induction xs) auto

text \<open>
  A persisted decision becomes the rule for its shed: every later request of the same server and
  shed, in any namespace, that no session grant covers is decided as the user decided, without a
  gate, unless a rule of that shed for every server was configured before.
\<close>

lemma persisted_rule_decides:
  assumes "decision_commits env i req g choice oc s" and "ch_persist choice"
    and "\<forall>r \<in> set (extra_rules s). pr_scope r = ScopeShed \<longrightarrow> pr_server r \<noteq> None"
    and "ar_server req' = ar_server req" "ar_shed req' = ar_shed req"
    and "grant_key req' \<notin> set gs"
  shows "decide (engine (finish_decide env i req g choice oc s)) req' gs
    = \<lparr>pd_action = decision_policy_action (ch_decision choice), pd_gate = NoGate, pd_applied_scope = ScopeShed\<rparr>"
proof -
  let ?e = "engine (finish_decide env i req g choice oc s)"
  let ?new = "\<lparr>pr_scope = ScopeShed, pr_server = Some (ar_server req), pr_namespace = None, pr_shed = Some (ar_shed req),
          pr_action = decision_policy_action (ch_decision choice), pr_gate = NoGate\<rparr>"
  have "\<forall>r \<in> set (take 3 (pe_rules ?e)). \<not> matches_shed req' r"
    using persist_engine(2) [OF assms(1,2)] by (auto simp: matches_shed_def)
  moreover have "\<forall>r \<in> set (filter (\<lambda>r. \<not> (pr_scope r = ScopeShed \<and> pr_shed r = Some (ar_shed req)
      \<and> unwrap_or (pr_server r) [] = ar_server req)) (extra_rules s)). \<not> matches_shed req' r"
    using assms(3-5) by (auto simp: matches_shed_def)
  ultimately have "List.find (matches_shed req') (pe_rules ?e) = List.find (matches_shed req') [?new]"
    by (subst persist_engine(1) [OF assms(1,2)]) (simp only: find_append_skip not_False_eq_True)
  moreover have "matches_shed req' ?new" using assms(4,5) by (simp add: matches_shed_def)
  ultimately show ?thesis using assms(6) by (simp add: decide_def)
qed

section \<open>Default policy\<close>

text \<open>
  The policy the coordinator starts with, before any rule or grant: SSH requests are decided by
  the SSH settings (prompting through the gate of the configured method when they prompt), AWS and
  Docker requests by their configured mode and by deny when none is configured, and a request of any
  other namespace gets the fail-safe native-auth prompt.
\<close>

lemma initial_policy:
  defines "eng \<equiv> \<lambda>store prefs modes. engine (coord_init store prefs [] modes)"
  shows "decide (eng store prefs modes) req [] =
    (if ar_namespace req = ns_ssh
     then \<lparr>pd_action = namespace_action (sp_policy prefs),
           pd_gate = (if prompts (sp_policy prefs) then method_gate (sp_method prefs) else NoGate),
           pd_applied_scope = ScopeNamespace\<rparr>
     else if ar_namespace req = ns_aws \<or> ar_namespace req = ns_docker
     then \<lparr>pd_action = (if hm_get modes (ar_namespace req) = Some Approve then PActApprove else PActDeny),
           pd_gate = NoGate, pd_applied_scope = ScopeNamespace\<rparr>
     else fail_safe_decision)"
proof -
  have m: "decision_policy_action (unwrap_or (hm_get modes n) Deny)
      = (if hm_get modes n = Some Approve then PActApprove else PActDeny)" for n
    by (cases "hm_get modes n"; cases "unwrap_or (hm_get modes n) Deny") auto
  have n: "ns_ssh \<noteq> ns_aws" "ns_ssh \<noteq> ns_docker" "ns_aws \<noteq> ns_docker"
    by (simp_all add: ns_ssh_def ns_aws_def ns_docker_def)
  show ?thesis
    using n by (auto simp: eng_def coord_init_def rebuild_policy_def Let_def decide_def match_defs namespace_rule_def
        provider_mode_def m fail_safe_decision_def)
qed

section \<open>The list of pending approvals\<close>

lemma mset_map_sort_key: "mset (map f (sort_key k xs)) = mset (map f xs)"
  by (metis mset_map mset_sort)

text \<open>
  The list of approvals has every pending request exactly once, with the gate it is queued
  under, in the order of the expiry texts, and each item carries the scope and TTL that the SSH
  settings suggest.
\<close>

lemma approvals_list_correct:
  "mset (map (\<lambda>p. (pai_request p, pai_gate p)) (sorted_items s)) = mset (map (\<lambda>(k, p). (pa_request p, pa_gate p)) (pending s))
   \<and> sorted (map (\<lambda>p. ar_expires_at (pai_request p)) (sorted_items s))
   \<and> list_all (\<lambda>p. pai_default_ttl p = sp_ttl (ssh s)
        \<and> pai_default_scope p = unwrap_or (default_scope (sp_policy (ssh s))) PerRequest) (sorted_items s)"
  by (simp add: sorted_items_def Let_def comp_def list_all_iff case_prod_unfold mset_map_sort_key del: mset_map)

section \<open>Edges\<close>

text \<open>
  The product of a TTL is a 64-bit one: a count of days that is a valid number can give a negative number of
  seconds, and the grant of such an approval is over before it starts.
\<close>

lemma ttl_multiplication_wraps: "ttl_shorthand_seconds ''200000000000000d'' = Some (- 1166744073709551616)"
proof -
  have t: "trim ''200000000000000d'' = ''200000000000000d''" "ttl_unit (CHR ''d'') = Some 86400" by code_simp+
  have d: "digit_value (CHR ''2'') = Some 2" "digit_value (CHR ''0'') = Some 0" by code_simp+
  show ?thesis
    by (simp add: ttl_shorthand_seconds_def t parse_i64_def parse_nat_def d i64_wrap_def)
qed

text \<open>
  A request whose expiry cannot be read is refused to the user, but a change to a policy that allows it approves
  it: the re-evaluation only leaves out what the tick would expire.
\<close>

lemma unreadable_expiry_is_approved_on_flip:
  assumes "hm_get (pending s) i = Some item" "parse_unix (rfc3339 env) (ar_expires_at (pa_request item)) = None"
    and "pd_action (decide (engine s) (pa_request item) gs) = PActApprove"
  shows "\<not> not_expired env (pa_request item) \<and> hm_get (pending (reevaluate_one env gs i s)) i = None
     \<and> FxRespond (ar_id (pa_request item)) Approve ByPolicy None None \<in> set (out (reevaluate_one env gs i s))"
  using assms
  by (simp add: not_expired_def reevaluate_one_def expired_by_tick_def respond_and_audit_def record_and_respond_def Let_def fx_def)

text \<open>The same in the very second a request expires: the user can no longer approve it, a change of the policy does.\<close>

lemma expiry_second_is_approved_on_flip:
  assumes "hm_get (pending s) i = Some item" "parse_unix (rfc3339 env) (ar_expires_at (pa_request item)) = Some (now_unix env)"
    and "pd_action (decide (engine s) (pa_request item) gs) = PActApprove"
  shows "\<not> not_expired env (pa_request item) \<and> hm_get (pending (reevaluate_one env gs i s)) i = None
     \<and> FxRespond (ar_id (pa_request item)) Approve ByPolicy None None \<in> set (out (reevaluate_one env gs i s))"
  using assms
  by (simp add: not_expired_def reevaluate_one_def expired_by_tick_def respond_and_audit_def record_and_respond_def Let_def fx_def)

section \<open>Two prompts for one request\<close>

text \<open>
  A gate that returns for a replaced request clears the marker of its id, also when that marker belongs to the gate
  of the replacement: the next approve opens a second native prompt beside the one in flight.
\<close>

lemma stale_gate_clears_the_marker:
  assumes "hm_get (pending s) i = Some item" "pa_request item \<noteq> old" "i \<in> gating s"
    and "ch_decision choice = Approve" "is_biometric (pa_gate item)" "not_expired env (pa_request item)"
  shows "new_fx env (CDecide i choice rep) s = [FxReply rep AnsUnit]"
    and "new_fx env (CDecide i choice rep) (run_command env' (CGateResolved i old g choice' oc rep') s)
      = [FxSpawnGate (gate_prompt (pa_request item) (pa_gate item)) i (pa_request item) (pa_gate item) choice rep]"
  using assms by (auto simp: new_fx_def begin_decide_def finish_decide_def Let_def)

definition demo_replacement :: approval_request where
  "demo_replacement = demo_request\<lparr>ar_detail := ''rsa''\<rparr>"

lemma demo_replaced:
  assumes "s = run_command (demo_env 12) (CHost (HaFrame (InApprovalRequest demo_replacement))) demo_gated"
  shows "hm_get (pending s) ''r1'' = Some \<lparr>pa_request = demo_replacement, pa_gate = BiometricsOrPassword\<rparr>" "''r1'' \<notin> gating s"
proof -
  have g: "pe_rules (engine demo_gated) = pe_rules (engine demo_init)" "session_grants demo_gated = []"
    using demo_pending_state by (simp_all add: demo_gated_def begin_decide_def demo_choice_def)
  have "decide (engine demo_gated) demo_replacement (valid_grants (demo_env 12) demo_gated)
      = \<lparr>pd_action = PActPrompt, pd_gate = BiometricsOrPassword, pd_applied_scope = ScopeNamespace\<rparr>"
    unfolding decide_def g
    by (simp add: g demo_init_def demo_replacement_def demo_request_def coord_init_def rebuild_policy_def Let_def matches_shed_def
        matches_namespace_def namespace_rule_def default_ssh_prefs_def prompts_def ns_ssh_def ns_aws_def ns_docker_def valid_grants_def)
  moreover have "ar_id demo_replacement = ''r1''" by (simp add: demo_replacement_def demo_request_def)
  ultimately show "hm_get (pending s) ''r1'' = Some \<lparr>pa_request = demo_replacement, pa_gate = BiometricsOrPassword\<rparr>" "''r1'' \<notin> gating s"
    by (simp_all add: assms handle_host_event_def handle_approval_request_def)
qed

lemma two_prompts_for_one_request:
  "\<exists>y t u. sys_reachable y \<and> sy_gates y = [t, u] \<and> gt_reply t \<noteq> gt_reply u
     \<and> gt_id t = ''r1'' \<and> gt_id u = ''r1'' \<and> gt_request t = gt_request u"
proof -
  let ?r = "CHost (HaFrame (InApprovalRequest demo_replacement))"
  let ?d = "\<lambda>n. CDecide ''r1'' demo_choice n"
  define s1 where "s1 = run_command (demo_env 12) ?r demo_gated"
  define s2 where "s2 = run_command (demo_env 13) (?d 8) s1"
  define s3 where "s3 = run_command (demo_env 14) (resolve_command demo_task OCancelled) s2"
  define s4 where "s4 = run_command (demo_env 15) (?d 9) s3"
  let ?item = "\<lparr>pa_request = demo_replacement, pa_gate = BiometricsOrPassword\<rparr>"
  let ?t = "\<lambda>n. \<lparr>gt_id = ''r1'', gt_request = demo_replacement, gt_gate = BiometricsOrPassword, gt_choice = demo_choice, gt_reply = n\<rparr>"
  have c: "ch_decision demo_choice = Approve" by (simp add: demo_choice_def)
  have ne: "not_expired (demo_env n) demo_replacement \<longleftrightarrow> n < 100" for n
    using demo_not_expired [of n] by (simp add: not_expired_def demo_replacement_def)
  have p1: "hm_get (pending s1) ''r1'' = Some ?item" "''r1'' \<notin> gating s1"
    using demo_replaced [OF s1_def] by simp_all
  have f2: "new_fx (demo_env 13) (?d 8) s1 = [FxSpawnGate (gate_prompt demo_replacement BiometricsOrPassword) ''r1'' demo_replacement BiometricsOrPassword demo_choice 8]"
      "gating s2 = insert ''r1'' (gating s1)"
    using new_fx_decide_gated [OF p1(1), of "demo_env 13" demo_choice 8] p1(2) c ne by (simp_all add: s2_def)
  have p2: "hm_get (pending s2) ''r1'' = Some ?item"
    using p1 c ne by (simp add: s2_def begin_decide_def)
  have p3: "hm_get (pending s3) ''r1'' = Some ?item" "''r1'' \<notin> gating s3"
    using p2 by (simp_all add: s3_def resolve_command_def demo_task_def finish_decide_def demo_replacement_def demo_request_def)
  have f4: "new_fx (demo_env 15) (?d 9) s3 = [FxSpawnGate (gate_prompt demo_replacement BiometricsOrPassword) ''r1'' demo_replacement BiometricsOrPassword demo_choice 9]"
    using new_fx_decide_gated(1) [OF p3(1), of "demo_env 15" demo_choice 9] p3(2) c ne by simp
  have "sys_reachable \<lparr>sy_coord = s1, sy_gates = [demo_task]\<rparr>"
    using sys_reachable.step [OF demo_reachable sys_step.external [of ?r _ "demo_env 12"]] external_gates(1) [of ?r "demo_env 12" demo_gated]
    by (simp add: s1_def)
  from sys_reachable.step [OF this sys_step.external [of "?d 8" _ "demo_env 13"]]
  have "sys_reachable \<lparr>sy_coord = s2, sy_gates = [demo_task, ?t 8]\<rparr>" using f2 by (simp add: s2_def)
  from sys_reachable.step [OF this sys_step.resolve [of demo_task _ "resolve_command demo_task OCancelled" OCancelled "demo_env 14"]]
  have "sys_reachable \<lparr>sy_coord = s3, sy_gates = [?t 8]\<rparr>" by (simp add: s3_def)
  from sys_reachable.step [OF this sys_step.external [of "?d 9" _ "demo_env 15"]]
  have "sys_reachable \<lparr>sy_coord = s4, sy_gates = [?t 8, ?t 9]\<rparr>" using f4 by (simp add: s4_def)
  then show ?thesis by (intro exI [of _ "\<lparr>sy_coord = s4, sy_gates = [?t 8, ?t 9]\<rparr>"] exI [of _ "?t 8"] exI [of _ "?t 9"]) simp
qed

end
