(* ===== verification/Host_Agent_Safety.thy ===== *)
theory Host_Agent_Safety
  imports Host_Agent
begin

text \<open>
  What the host-agent client guarantees over every interleaving: it is fail-closed when not connected,
  each token request is answered at most once and never forgotten, and nothing is written to a peer that
  failed the UID check.
\<close>

section \<open>Field lemmas and the invariant\<close>

lemma tx_fields [simp]:
  "ha_running (tx e st) = ha_running st" "ha_loop (tx e st) = ha_loop st" "ha_backoff (tx e st) = ha_backoff st"
  "ha_conn (tx e st) = ha_conn st" "ha_writer (tx e st) = ha_writer st" "ha_writer_dead (tx e st) = ha_writer_dead st"
  "ha_pending (tx e st) = ha_pending st" "ha_out (tx e st) = ha_out st @ [e]"
  by (simp_all add: tx_def)

lemma send_line_fields [simp]:
  "ha_running (send_line c j st) = ha_running st" "ha_loop (send_line c j st) = ha_loop st"
  "ha_backoff (send_line c j st) = ha_backoff st" "ha_conn (send_line c j st) = ha_conn st"
  "ha_writer (send_line c j st) = ha_writer st" "ha_writer_dead (send_line c j st) = ha_writer_dead st"
  "ha_pending (send_line c j st) = ha_pending st"
  "ha_out (send_line c j st) = ha_out st @ (if ha_writer_dead st then [] else [TxSend c j])"
  by (simp_all add: send_line_def)

lemma fail_all:
  "fold (\<lambda>(_, rep). tx (TxToken rep (Inl Disconnected))) ps st
    = st\<lparr>ha_out := ha_out st @ map (\<lambda>(_, rep). TxToken rep (Inl Disconnected)) ps\<rparr>"
  by (induction ps arbitrary: st) (auto simp: tx_def)

lemma clear_connection_eq:
  "clear_connection st = st\<lparr>ha_writer := None, ha_pending := [],
     ha_out := ha_out st @ map (\<lambda>(_, rep). TxToken rep (Inl Disconnected)) (ha_pending st)\<rparr>"
  by (simp add: clear_connection_def fail_all)

lemmas ha_ops = ha_start_def ha_stop_def ha_respond_def write_line_def request_token_def token_timeout_def
  resolve_pending_def loop_attempt_def back_off_def writer_dies_def connection_ended_def handle_line_def
  clear_connection_eq Let_def is_connected_def

definition loop_connected :: "loop_phase \<Rightarrow> bool" where
  "loop_connected l \<longleftrightarrow> (case l of LoopConnected _ \<Rightarrow> True | _ \<Rightarrow> False)"

definition ha_inv :: "host_agent \<Rightarrow> bool" where
  "ha_inv st \<longleftrightarrow> hm_ok (ha_pending st)
     \<and> (ha_writer st = None \<longrightarrow> ha_pending st = [])
     \<and> ha_writer st = (if loop_connected (ha_loop st) then Some (ha_conn st) else None)
     \<and> initial_backoff \<le> ha_backoff st \<and> ha_backoff st \<le> max_backoff"

lemma ha_inv_new: "ha_inv (ha_new info)"
  by (simp add: ha_inv_def ha_new_def loop_connected_def initial_backoff_def max_backoff_def)

lemma ha_inv_handle_line: "ha_inv st \<Longrightarrow> ha_inv (handle_line env line st)"
  by (auto simp: ha_inv_def ha_ops split: option.splits host_agent_inbound.splits)

lemma ha_inv_loop_attempt: "ha_inv st \<Longrightarrow> ha_inv (loop_attempt env tr co peer ours st)"
  by (auto simp: ha_inv_def ha_ops loop_connected_def initial_backoff_def max_backoff_def split: loop_phase.splits)

lemma ha_inv_connection_ended: "ha_inv st \<Longrightarrow> ha_inv (connection_ended st)"
  by (auto simp: ha_inv_def ha_ops loop_connected_def split: loop_phase.splits)

lemma ha_inv_request_token: "ha_inv st \<Longrightarrow> ha_inv (request_token env server rep st)"
  by (auto simp: ha_inv_def ha_ops split: option.splits)

lemma ha_exec_inv: "ha_inv st \<Longrightarrow> ha_inv (ha_exec env op st)"
proof (cases op)
  case (OpStart info)
  then show "ha_inv st \<Longrightarrow> ?thesis"
    by (simp add: ha_inv_def ha_ops loop_connected_def initial_backoff_def max_backoff_def)
next
  case OpStop
  then show "ha_inv st \<Longrightarrow> ?thesis" by (simp add: ha_inv_def ha_ops loop_connected_def)
next
  case OpWriterDies
  then show "ha_inv st \<Longrightarrow> ?thesis" by (simp add: ha_inv_def ha_ops)
next
  case (OpRespond i d b sc t)
  then show "ha_inv st \<Longrightarrow> ?thesis" by (simp add: ha_inv_def ha_ops split: option.splits)
next
  case (OpTimeout i)
  then show "ha_inv st \<Longrightarrow> ?thesis" by (auto simp: ha_inv_def ha_ops split: option.splits)
qed (simp_all add: ha_inv_handle_line ha_inv_loop_attempt ha_inv_connection_ended ha_inv_request_token)

interpretation host_agent: machine "\<lambda>(env, op). ha_exec env op" ha_inv
  by unfold_locales (auto intro: ha_exec_inv)

section \<open>Fail-closed\<close>

lemma disconnected_ops:
  assumes "\<not> is_connected st"
  shows "ha_respond env i d b sc t st = st"
    "request_token env server rep st = tx (TxToken rep (Inl NotConnected)) st"
  using assms by (simp_all add: ha_ops)

text \<open>
  C20. In every state that a sequence of operations of the client reaches, being disconnected means
  that no token request is in flight, that a response writes nothing, and that a token request fails
  at once.
\<close>

theorem disconnected_is_fail_closed:
  defines "final \<equiv> \<lambda>ops info. fold (\<lambda>(env, op). ha_exec env op) ops (ha_new info)"
  assumes "\<not> is_connected (final ops info)"
  shows "ha_pending (final ops info) = []
    \<and> ha_out (ha_exec env (OpRespond i d b sc t) (final ops info)) = ha_out (final ops info)
    \<and> ha_out (ha_exec env (OpRequestToken server rep) (final ops info))
        = ha_out (final ops info) @ [TxToken rep (Inl NotConnected)]"
proof -
  have "ha_inv (final ops info)" unfolding final_def by (rule host_agent.run_inv) (rule ha_inv_new)
  then show ?thesis using assms(2) disconnected_ops by (auto simp: ha_inv_def is_connected_def)
qed

definition demo_info :: hello_client_info where
  "demo_info = \<lparr>hi_name = ''shed-desktop'', hi_version = ''0.1'', hi_pid = 42, hi_capabilities = [''approvals''],
     hi_replay_events = 50\<rparr>"

definition demo_henv :: "string \<Rightarrow> henv" where
  "demo_henv i = \<lparr>he_id = i, he_now = ''now'', he_parse = (\<lambda>_. None)\<rparr>"

theorem disconnected_is_fail_closed_witness:
  "let st = fold (\<lambda>(env, op). ha_exec env op)
       [(demo_henv ''h'', OpStart demo_info), (demo_henv ''h'', OpAttempt True True (Some 501) 501),
        (demo_henv ''t1'', OpRequestToken ''mini3'' 7), (demo_henv ''x'', OpConnectionEnded)] (ha_new demo_info)
   in \<not> is_connected st \<and> ha_pending st = [] \<and> TxToken 7 (Inl Disconnected) \<in> set (ha_out st)"
  using disconnected_is_fail_closed [of "[(demo_henv ''h'', OpStart demo_info), (demo_henv ''h'', OpAttempt True True (Some 501) 501),
        (demo_henv ''t1'', OpRequestToken ''mini3'' 7), (demo_henv ''x'', OpConnectionEnded)]" demo_info]
  by (simp add: ha_ops ha_new_def peer_trusted_def demo_henv_def)

section \<open>Token requests\<close>

fun token_result :: "nat \<Rightarrow> ha_effect \<Rightarrow> nat" where
  "token_result r (TxToken rep _) = (if rep = r then 1 else 0)"
| "token_result r _ = 0"

definition results :: "nat \<Rightarrow> host_agent \<Rightarrow> nat" where
  "results r st = sum_list (map (token_result r) (ha_out st))"

definition waiting :: "nat \<Rightarrow> host_agent \<Rightarrow> nat" where
  "waiting r st = length (filter (\<lambda>(_, rep). rep = r) (ha_pending st))"

fun token_calls :: "nat \<Rightarrow> ha_op \<Rightarrow> nat" where
  "token_calls r (OpRequestToken _ rep) = (if rep = r then 1 else 0)"
| "token_calls r _ = 0"

lemma results_simps [simp]:
  "results r (tx e st) = results r st + token_result r e"
  "results r (send_line c j st) = results r st"
  by (simp_all add: results_def)

lemma results_cong: "ha_out v = ha_out u \<Longrightarrow> results r v = results r u"
  by (simp add: results_def)

lemma waiting_cong: "ha_pending v = ha_pending u \<Longrightarrow> waiting r v = waiting r u"
  by (simp add: waiting_def)

lemma waiting_remove:
  "hm_ok ps \<Longrightarrow> hm_get ps i = Some rep \<Longrightarrow>
   length (filter (\<lambda>(_, q). q = r) ps) = length (filter (\<lambda>(_, q). q = r) (hm_remove i ps)) + (if rep = r then 1 else 0)"
proof (induction ps)
  case (Cons p ps)
  show ?case
  proof (cases "fst p = i")
    case True
    then have "hm_remove i ps = ps" using Cons.prems by (cases p) (auto simp: AList.delete_idem)
    then show ?thesis using True Cons.prems by (cases p) simp
  next
    case False
    then show ?thesis using Cons by (cases p) simp
  qed
qed simp

lemma waiting_insert_new:
  "hm_get ps i = None \<Longrightarrow> length (filter (\<lambda>(_, q). q = r) (hm_insert i rep ps))
     = length (filter (\<lambda>(_, q). q = r) ps) + (if rep = r then 1 else 0)"
  by (induction ps) (auto split: if_splits)

lemma waiting_insert_old:
  "hm_ok ps \<Longrightarrow> hm_get ps i = Some old \<Longrightarrow>
   length (filter (\<lambda>(_, q). q = r) (hm_insert i rep ps)) + (if old = r then 1 else 0)
     = length (filter (\<lambda>(_, q). q = r) ps) + (if rep = r then 1 else 0)"
  by (induction ps) (auto split: if_splits)

lemma failed_results:
  "sum_list (map (token_result r) (map (\<lambda>(_, rep). TxToken rep (Inl Disconnected)) ps))
     = length (filter (\<lambda>(_, q). q = r) ps)"
  by (induction ps) auto

lemma clear_connection_balance:
  "results r (clear_connection st) = results r st + waiting r st" "waiting r (clear_connection st) = 0"
  using failed_results [of r "ha_pending st"]
  by (simp_all add: clear_connection_eq results_def waiting_def)


definition resume :: "string \<Rightarrow> nat \<Rightarrow> host_agent_client_error + token_response \<Rightarrow> host_agent \<Rightarrow> host_agent" where
  "resume i rep x st = tx (TxToken rep x) (st\<lparr>ha_pending := hm_remove i (ha_pending st)\<rparr>)"

lemma resume_ops:
  "token_timeout i st = (case hm_get (ha_pending st) i of Some rep \<Rightarrow> resume i rep (Inl TimedOut) st | None \<Rightarrow> st)"
  "resolve_pending resp st = (case hm_get (ha_pending st) (tr_in_reply_to resp) of
     Some rep \<Rightarrow> resume (tr_in_reply_to resp) rep (Inr resp) st | None \<Rightarrow> st)"
  by (simp_all add: token_timeout_def resolve_pending_def resume_def split: option.splits)

lemma resume_balance:
  assumes "ha_inv st" "hm_get (ha_pending st) i = Some rep"
  shows "results r (resume i rep x st) + waiting r (resume i rep x st) = results r st + waiting r st"
  using assms waiting_remove [of "ha_pending st" i rep r]
  by (simp add: resume_def results_def waiting_def ha_inv_def)

lemma token_op_balance:
  assumes "ha_inv st"
  shows "results r (token_timeout i st) + waiting r (token_timeout i st) = results r st + waiting r st"
    "results r (resolve_pending resp st) + waiting r (resolve_pending resp st) = results r st + waiting r st"
  using resume_balance [OF assms] by (simp_all add: resume_ops split: option.splits)

lemma request_token_balance:
  assumes "ha_inv st"
  shows "results r (request_token env server rep st) + waiting r (request_token env server rep st)
     = results r st + waiting r st + (if rep = r then 1 else 0)"
proof (cases "ha_writer st")
  case None
  then show ?thesis by (simp add: request_token_def waiting_def)
next
  case (Some c)
  have ok: "hm_ok (ha_pending st)" using assms by (simp add: ha_inv_def)
  let ?i = "he_id env"
  let ?ps = "hm_insert ?i rep (ha_pending st)"
  have rm: "length (filter (\<lambda>(_, q). q = r) ?ps)
      = length (filter (\<lambda>(_, q). q = r) (hm_remove ?i ?ps)) + (if rep = r then 1 else 0)"
    by (rule waiting_remove) (simp_all add: ok)
  show ?thesis
  proof (cases "hm_get (ha_pending st) ?i")
    case None
    then show ?thesis using Some rm waiting_insert_new [OF None, of r rep]
      by (cases "rep = r") (auto simp: request_token_def Let_def waiting_def results_def)
  next
    case old: (Some o')
    then show ?thesis using Some rm waiting_insert_old [OF ok old, of r rep]
      by (cases "rep = r") (auto simp: request_token_def Let_def waiting_def results_def)
  qed
qed

lemma connection_ended_balance:
  "results r (connection_ended st) + waiting r (connection_ended st) = results r st + waiting r st"
  using clear_connection_balance [of r st]
  by (auto simp: connection_ended_def Let_def results_def waiting_def split: loop_phase.splits)

lemma handle_line_balance:
  assumes "ha_inv st"
  shows "results r (handle_line env line st) + waiting r (handle_line env line st) = results r st + waiting r st"
  using token_op_balance(2) [OF assms]
  by (simp add: handle_line_def Let_def waiting_def split: option.splits host_agent_inbound.splits)

lemma ha_exec_balance:
  assumes "ha_inv st"
  shows "results r (ha_exec env op st) + waiting r (ha_exec env op st) = results r st + waiting r st + token_calls r op"
proof (cases op)
  case (OpStart info)
  then show ?thesis using clear_connection_balance [of r st]
    by (simp add: ha_start_def results_def waiting_def)
next
  case OpStop
  then show ?thesis
    using clear_connection_balance [of r "st\<lparr>ha_running := False, ha_loop := LoopOff (loop_info (ha_loop st))\<rparr>"]
    by (simp add: ha_stop_def results_def waiting_def)
next
  case (OpAttempt tr co peer ours)
  then show ?thesis
    by (auto simp: loop_attempt_def back_off_def Let_def results_def waiting_def split: loop_phase.splits)
next
  case OpWriterDies
  then show ?thesis by (simp add: writer_dies_def results_def waiting_def)
next
  case (OpRespond i d b sc t)
  then show ?thesis by (simp add: ha_respond_def write_line_def waiting_def split: option.splits)
qed (simp_all add: handle_line_balance [OF assms] token_op_balance [OF assms] request_token_balance [OF assms]
    connection_ended_balance)

text \<open>
  C21. Over every interleaving of the client's operations, the results handed to a caller of
  \<^verbatim>\<open>request_token\<close> and the requests it still has in flight are together as many as its requests: a
  request is answered exactly once (by its reply, its timeout, or the end of the connection) or is
  still registered, and a late reply resumes nobody a second time.
\<close>

theorem token_requests_resume_once:
  defines "final \<equiv> \<lambda>ops info. fold (\<lambda>(env, op). ha_exec env op) ops (ha_new info)"
  shows "results r (final ops info) + waiting r (final ops info) = sum_list (map (\<lambda>(env, op). token_calls r op) ops)"
proof -
  have "results r (final ops info) + waiting r (final ops info)
      = results r (ha_new info) + waiting r (ha_new info) + sum_list (map (\<lambda>(env, op). token_calls r op) ops)"
    unfolding final_def
  proof (rule host_agent.run_balance [where f = "\<lambda>st. results r st + waiting r st", OF _ ha_inv_new])
    fix op st
    assume "ha_inv st"
    then show "results r ((case op of (env, op) \<Rightarrow> ha_exec env op) st) + waiting r ((case op of (env, op) \<Rightarrow> ha_exec env op) st)
        = results r st + waiting r st + (case op of (env, op) \<Rightarrow> token_calls r op)"
      by (cases op) (simp add: ha_exec_balance)
  qed
  then show ?thesis by (simp add: ha_new_def results_def waiting_def)
qed

section \<open>Only trusted peers are written to\<close>

text \<open>Every send goes to a connection that was opened before with the peer's UID equal to ours.\<close>

definition opened :: "ha_effect list \<Rightarrow> nat set" where
  "opened fxs = {c. \<exists>u. TxOpen c (Some u) u \<in> set fxs}"

fun sends_trusted :: "nat set \<Rightarrow> ha_effect list \<Rightarrow> bool" where
  "sends_trusted ok [] \<longleftrightarrow> True"
| "sends_trusted ok (TxOpen c p u # fxs) \<longleftrightarrow> p = Some u \<and> sends_trusted (insert c ok) fxs"
| "sends_trusted ok (TxSend c j # fxs) \<longleftrightarrow> c \<in> ok \<and> sends_trusted ok fxs"
| "sends_trusted ok (e # fxs) \<longleftrightarrow> sends_trusted ok fxs"

lemma opened_simps [simp]:
  "opened [] = {}" "opened (xs @ ys) = opened xs \<union> opened ys"
  "opened (TxOpen c p u # xs) = (if p = Some u then insert c (opened xs) else opened xs)"
  "opened (TxSend c j # xs) = opened xs" "opened (TxEvent ev # xs) = opened xs"
  "opened (TxToken rep x # xs) = opened xs" "opened (TxSleep n # xs) = opened xs"
  by (auto simp: opened_def)

lemma sends_trusted_append:
  "sends_trusted ok (xs @ ys) \<longleftrightarrow> sends_trusted ok xs \<and> sends_trusted (ok \<union> opened xs) ys"
  by (induction ok xs rule: sends_trusted.induct) auto

definition quiet :: "ha_effect list \<Rightarrow> bool" where
  "quiet fxs \<longleftrightarrow> (\<forall>ok. sends_trusted ok fxs) \<and> opened fxs = {}"

lemma quiet_simps [simp]:
  "quiet []" "quiet [TxEvent ev]" "quiet [TxToken rep x]" "quiet [TxSleep n]"
  "quiet (map (\<lambda>(_, rep). TxToken rep x) ps)"
proof -
  show "quiet (map (\<lambda>(_, rep). TxToken rep x) ps)"
    by (induction ps) (auto simp: quiet_def)
qed (simp_all add: quiet_def)

definition trusted_inv :: "host_agent \<Rightarrow> bool" where
  "trusted_inv st \<longleftrightarrow> ha_inv st \<and> sends_trusted {} (ha_out st)
     \<and> (is_connected st \<longrightarrow> ha_conn st \<in> opened (ha_out st))"

lemma sends_trusted_quiet: "quiet ys \<Longrightarrow> sends_trusted {} (xs @ ys) \<longleftrightarrow> sends_trusted {} xs"
  by (auto simp: sends_trusted_append quiet_def)

lemma opened_quiet: "quiet ys \<Longrightarrow> opened (xs @ ys) = opened xs"
  by (simp add: quiet_def)

lemmas trusted_simps = sends_trusted_append sends_trusted_quiet opened_quiet

lemma trusted_handle_line:
  assumes "trusted_inv st" "is_connected st"
  shows "trusted_inv (handle_line env line st)"
proof -
  have "ha_inv (handle_line env line st)" using assms ha_inv_handle_line by (simp add: trusted_inv_def)
  then show ?thesis
    using assms
    by (auto simp: trusted_inv_def ha_ops sends_trusted_append split: option.splits host_agent_inbound.splits)
qed

lemma clear_connection_trusted:
  "sends_trusted {} (ha_out (clear_connection st)) \<longleftrightarrow> sends_trusted {} (ha_out st)"
  "\<not> is_connected (clear_connection st)"
  by (simp_all add: clear_connection_eq sends_trusted_quiet is_connected_def)

text \<open>
  The connection lifecycle (start, stop, connect, drop) and the operations that write to the
  connection keep the invariant separately.
\<close>

lemma trusted_lifecycle:
  assumes "trusted_inv st" "ha_inv (ha_exec env op st)"
    "op = OpStart info \<or> op = OpStop \<or> op = OpWriterDies"
  shows "trusted_inv (ha_exec env op st)"
  using assms clear_connection_trusted [of st]
    clear_connection_trusted [of "st\<lparr>ha_running := False, ha_loop := LoopOff (loop_info (ha_loop st))\<rparr>"]
  by (auto simp: trusted_inv_def ha_start_def ha_stop_def writer_dies_def is_connected_def)

lemma trusted_connection_ended:
  assumes "trusted_inv st" "ha_inv (connection_ended st)"
  shows "trusted_inv (connection_ended st)"
  using assms clear_connection_trusted [of st]
  by (auto simp: trusted_inv_def connection_ended_def Let_def sends_trusted_append is_connected_def
      split: loop_phase.splits)

lemma trusted_attempt:
  assumes "trusted_inv st" "ha_inv (loop_attempt env tr co peer ours st)"
  shows "trusted_inv (loop_attempt env tr co peer ours st)"
  using assms
  by (auto simp: trusted_inv_def loop_attempt_def back_off_def Let_def is_connected_def peer_trusted_def
      sends_trusted_append ha_inv_def loop_connected_def split: loop_phase.splits)

lemma trusted_write:
  assumes "trusted_inv st" "ha_inv (ha_exec env op st)"
    "(\<exists>i d b sc t. op = OpRespond i d b sc t) \<or> (\<exists>server rep. op = OpRequestToken server rep) \<or> (\<exists>i. op = OpTimeout i)"
  shows "trusted_inv (ha_exec env op st)"
  using assms
  by (auto simp: trusted_inv_def ha_respond_def write_line_def request_token_def token_timeout_def Let_def
      is_connected_def sends_trusted_append ha_inv_def split: option.splits if_splits)

lemma trusted_exec:
  assumes "trusted_inv st"
  shows "trusted_inv (ha_exec env op st)"
proof -
  have inv: "ha_inv (ha_exec env op st)" using assms ha_exec_inv by (simp add: trusted_inv_def)
  show ?thesis
  proof (cases op)
    case (OpAttempt tr co peer ours)
    then show ?thesis using trusted_attempt assms inv by simp
  next
    case (OpLine line)
    then show ?thesis using assms trusted_handle_line by simp
  next
    case OpConnectionEnded
    then show ?thesis using trusted_connection_ended assms inv by simp
  qed (use trusted_lifecycle [OF assms inv] trusted_write [OF assms inv] in blast)+
qed

interpretation trusted: machine "\<lambda>(env, op). ha_exec env op" trusted_inv
  by unfold_locales (auto intro: trusted_exec)

text \<open>
  C22. Over every interleaving, a connection is opened only to a peer whose UID is known and is ours,
  and every line the client sends (hello, pong, response, token request) goes to a connection opened
  that way.
\<close>

theorem only_trusted_peers_are_written_to:
  "sends_trusted {} (ha_out (fold (\<lambda>(env, op). ha_exec env op) ops (ha_new info)))"
proof -
  have "trusted_inv (fold (\<lambda>(env, op). ha_exec env op) ops (ha_new info))"
    by (rule trusted.run_inv) (simp add: trusted_inv_def ha_inv_new, simp add: ha_new_def is_connected_def)
  then show ?thesis by (simp add: trusted_inv_def)
qed

text \<open>
  A turn of the loop connects only through a real socket (a symbolic link at the path is refused) and only to a peer
  whose credentials could be read and are ours.
\<close>

lemma turn_connects_to_us:
  assumes "is_connected (loop_turn env metadata connects rc uid ours st)" "\<not> is_connected st"
  shows "metadata = Some FkSocket \<and> connects \<and> rc = 0 \<and> uid = ours"
  using assms
  by (auto simp: loop_turn_def loop_attempt_def socket_is_trustworthy_def peer_uid_def peer_trusted_def back_off_def is_connected_def
      Let_def split: loop_phase.splits if_splits)

end
