(* ===== verification/Host_Agent_Framing.thy ===== *)
theory Host_Agent_Framing
  imports Host_Agent_Safety
begin

text \<open>
  The newline framing of the host-agent stream: it delivers exactly the complete lines of the byte
  stream, however the bytes are cut into reads, and keeps every frame below the cap plus one read. The
  waits between attempts double from half a second up to five seconds.
\<close>

section \<open>Framing\<close>

abbreviation nl :: char where "nl \<equiv> CHR 0x0A"

lemma read_frame_chunks:
  assumes "\<forall>c \<in> set cs. c \<noteq> []" and "nl \<notin> set buf"
    and "length (buf @ (case split_once nl (concat cs) of Some (a, b) \<Rightarrow> a | None \<Rightarrow> concat cs)) \<le> mx"
  shows "case split_once nl (concat cs) of
      None \<Rightarrow> fst (read_frame_capped mx (map Avail cs) buf) = FrameEof
    | Some (a, b) \<Rightarrow> (\<exists>cs'. read_frame_capped mx (map Avail cs) buf = (FrameOk (buf @ a @ [nl]), map Avail cs')
          \<and> concat cs' = b \<and> (\<forall>c \<in> set cs'. c \<noteq> []))"
  using assms
proof (induction cs arbitrary: buf)
  case Nil
  then show ?case by simp
next
  case (Cons c cs)
  show ?case
  proof (cases "split_once nl c")
    case None
    then have n: "nl \<notin> set c" by (simp add: split_once_None)
    have s: "split_once nl (c @ r) = map_option (\<lambda>(a, b). (c @ a, b)) (split_once nl r)" for r
      using n by (induction c) (auto simp: option.map_comp comp_def case_prod_unfold option.map_ident)
    have buf: "nl \<notin> set (buf @ c)" using n Cons.prems(2) by simp
    have len: "length ((buf @ c) @ (case split_once nl (concat cs) of Some (a, b) \<Rightarrow> a | None \<Rightarrow> concat cs)) \<le> mx"
      using Cons.prems(3) by (cases "split_once nl (concat cs)") (auto simp: s)
    have "length (buf @ c) \<le> mx" using len by simp
    then have "read_frame_capped mx (map Avail (c # cs)) buf = read_frame_capped mx (map Avail cs) (buf @ c)"
      using None Cons.prems(1) by simp
    then show ?thesis using Cons.IH [OF _ buf len] Cons.prems(1)
      by (cases "split_once nl (concat cs)") (auto simp: s)
  next
    case (Some ab)
    then obtain a b where ab: "split_once nl c = Some (a, b)" by (cases ab) auto
    then have "split_once nl (concat (c # cs)) = Some (a, b @ concat cs)"
      by (simp add: split_once_Some)
    moreover have "read_frame_capped mx (map Avail (c # cs)) buf
        = (FrameOk (buf @ a @ [nl]), map Avail (if b = [] then cs else b # cs))"
      using ab Cons.prems(1) by simp
    ultimately show ?thesis using Cons.prems(1) by (auto intro!: exI [of _ "if b = [] then cs else b # cs"])
  qed
qed

lemma frames_read_chunks:
  assumes "\<forall>c \<in> set cs. c \<noteq> []" and "\<forall>l \<in> set (split_on nl (concat cs)). length l \<le> mx"
  shows "frames_read mx (map Avail cs) = map (\<lambda>l. l @ [nl]) (butlast (split_on nl (concat cs)))"
  using assms
proof (induction "length (concat cs)" arbitrary: cs rule: less_induct)
  case less
  show ?case
  proof (cases "split_once nl (concat cs)")
    case None
    then have "split_on nl (concat cs) = [concat cs]" by (simp add: split_once_None split_on_plain)
    moreover have "fst (read_frame_capped mx (map Avail cs) []) = FrameEof"
      using read_frame_chunks [OF less.prems(1), of "[]" mx] None less.prems(2) calculation by simp
    ultimately show ?thesis by (subst frames_read.simps) (auto split: prod.splits)
  next
    case (Some ab)
    then obtain a b where ab: "split_once nl (concat cs) = Some (a, b)" by (cases ab) auto
    then have cc: "concat cs = a @ nl # b" "nl \<notin> set a" by (simp_all add: split_once_Some)
    then have sp: "split_on nl (concat cs) = a # split_on nl b" by (simp add: split_on_append)
    then have "length ([] @ a) \<le> mx" using less.prems(2) by simp
    then obtain cs' where r: "read_frame_capped mx (map Avail cs) [] = (FrameOk (a @ [nl]), map Avail cs')"
        "concat cs' = b" "\<forall>c \<in> set cs'. c \<noteq> []"
      using read_frame_chunks [OF less.prems(1), of "[]" mx] ab by auto
    have "frames_read mx (map Avail cs') = map (\<lambda>l. l @ [nl]) (butlast (split_on nl (concat cs')))"
      by (rule less.hyps) (use cc r(2,3) less.prems(2) sp in auto)
    then show ?thesis using r(1,2) sp by (subst frames_read.simps) simp
  qed
qed

text \<open>
  C23. However the agent's byte stream is cut into reads, the client handles exactly the complete
  lines of the stream, in order, and drops a last line without its newline, as long as every line is
  within the frame cap.
\<close>

theorem framing_is_chunk_independent:
  assumes "\<forall>c \<in> set cs. c \<noteq> []" and "\<forall>l \<in> set (split_on nl (concat cs)). length l \<le> max_frame_bytes"
  shows "read_frames env (map Avail cs) st
    = fold (handle_line env) (map (\<lambda>l. l @ [nl]) (butlast (split_on nl (concat cs)))) st"
  using frames_read_chunks [OF assms] by (simp add: read_frames_def)

theorem framing_is_chunk_independent_witness:
  "read_frames (demo_henv ''i'') (map Avail [''{a'', ''}'' @ [nl, CHR ''x''], ''y'']) (ha_new demo_info)
    = fold (handle_line (demo_henv ''i'')) [''{a}'' @ [nl]] (ha_new demo_info)"
proof -
  let ?cs = "[''{a'', ''}'' @ [nl, CHR ''x''], ''y'']"
  have c: "concat ?cs = ''{a}'' @ nl # ''xy''" by simp
  have s: "split_on nl (concat ?cs) = [''{a}'', ''xy'']" unfolding c by (simp add: split_on_append)
  show ?thesis
    using framing_is_chunk_independent [of ?cs "demo_henv ''i''" "ha_new demo_info"]
    unfolding s by (simp add: max_frame_bytes_def)
qed

section \<open>Frame sizes\<close>

definition fills_bounded :: "nat \<Rightarrow> fill list \<Rightarrow> bool" where
  "fills_bounded B rs \<longleftrightarrow> list_all (\<lambda>r. case r of Avail c \<Rightarrow> length c \<le> B | IoError \<Rightarrow> True) rs"

lemma read_frame_bounded:
  "read_frame_capped mx rs buf = (FrameOk line, rs') \<Longrightarrow> fills_bounded B rs \<Longrightarrow> length buf \<le> mx \<Longrightarrow>
   length line \<le> mx + B \<and> fills_bounded B rs'"
proof (induction mx rs buf rule: read_frame_capped.induct)
  case (3 mx chunk rs buf)
  then show ?case
    by (auto simp: fills_bounded_def split_once_Some split: if_splits option.splits)
qed simp_all

text \<open>
  C24. No frame grows without bound: a line handed on by the reader is at most the cap plus the size
  of one read, whatever the peer sends.
\<close>

theorem frames_are_bounded:
  assumes "fills_bounded B rs" and "line \<in> set (frames_read mx rs)"
  shows "length line \<le> mx + B"
  using assms
proof (induction mx rs rule: frames_read.induct)
  case (1 mx rs)
  from 1(3) obtain l rs' where r: "read_frame_capped mx rs [] = (FrameOk l, rs')"
    and m: "line = l \<or> line \<in> set (frames_read mx rs')"
    using frames_read.simps [of mx rs] by (cases "read_frame_capped mx rs []") (auto split: frame_read.splits)
  have "length l \<le> mx + B \<and> fills_bounded B rs'" using read_frame_bounded [OF r 1(2)] by simp
  then show ?case using m 1(1) [OF r [symmetric] refl] by blast
qed

theorem frames_are_bounded_witness:
  "fills_bounded 3 [Avail ''abc'', Avail ''d'', Avail [nl]] \<and> ''abcd'' @ [nl] \<in> set (frames_read 4 [Avail ''abc'', Avail ''d'', Avail [nl]])
   \<and> length (''abcd'' @ [nl]) \<le> 4 + (3 :: nat)"
proof -
  have b: "fills_bounded 3 [Avail ''abc'', Avail ''d'', Avail [nl]]" by (simp add: fills_bounded_def)
  have r: "''abcd'' @ [nl] \<in> set (frames_read 4 [Avail ''abc'', Avail ''d'', Avail [nl]])"
    by (subst frames_read.simps) simp
  show ?thesis using frames_are_bounded [OF b r] b r by blast
qed

section \<open>Backoff\<close>

lemma backoff_doubles:
  "min (min (initial_backoff * 2 ^ j) max_backoff * 2) max_backoff = min (initial_backoff * 2 ^ Suc j) max_backoff"
  by (simp add: min_def)

text \<open>
  While the agent cannot be reached, the waits between attempts are half a second, then twice as
  long each time, up to five seconds; no event is emitted and nothing is sent.
\<close>

lemma backoff_schedule:
  assumes "ha_running st" and "ha_loop st = LoopConnecting info" and "ha_backoff st = initial_backoff"
  shows "ha_out (fold (\<lambda>_. loop_attempt env trusty False peer ours) [0..<k] st)
    = ha_out st @ map (\<lambda>j. TxSleep (min (initial_backoff * 2 ^ j) max_backoff)) [0..<k]"
proof -
  let ?f = "\<lambda>_::nat. loop_attempt env trusty False peer ours"
  have "ha_running (fold ?f [0..<k] st) \<and> ha_loop (fold ?f [0..<k] st) = LoopConnecting info
      \<and> ha_backoff (fold ?f [0..<k] st) = min (initial_backoff * 2 ^ k) max_backoff
      \<and> ha_out (fold ?f [0..<k] st)
        = ha_out st @ map (\<lambda>j. TxSleep (min (initial_backoff * 2 ^ j) max_backoff)) [0..<k]"
  proof (induction k)
    case 0
    then show ?case using assms by (simp add: initial_backoff_def max_backoff_def)
  next
    case (Suc k)
    then show ?case using backoff_doubles [of k] by (simp add: loop_attempt_def back_off_def)
  qed
  then show ?thesis by blast
qed

text \<open>The cap is checked between reads only: a line over the cap is accepted when its newline is in the read that crosses it.\<close>

lemma over_cap_line_is_accepted:
  "read_frame_capped 2 [Avail (''abc'' @ [CHR 0x0A])] [] = (FrameOk (''abc'' @ [CHR 0x0A]), [])"
  by simp

end
