(* ===== verification/Approval_Flow.thy ===== *)
theory Approval_Flow
  imports Coordinator_Behaviour Host_Agent_Framing
begin

text \<open>
  The coordinator and the host-agent client together: the coordinator's responses go to the client
  through the \<^verbatim>\<open>Responder\<close> trait (\<^verbatim>\<open>core/shed-app/src/traits.rs\<close>), whose contract is the locale
  \<^verbatim>\<open>responder\<close>, implemented by \<^verbatim>\<open>HostAgentClient::respond\<close>.
\<close>

section \<open>The responder's contract\<close>

type_synonym 's respond_op =
  "string \<Rightarrow> approval_decision \<Rightarrow> decided_by \<Rightarrow> string option \<Rightarrow> string option \<Rightarrow> 's \<Rightarrow> 's"

fun respond_effect :: "'s respond_op \<Rightarrow> effect \<Rightarrow> 's \<Rightarrow> 's" where
  "respond_effect respond (FxRespond i d b sc t) st = respond i d b sc t st"
| "respond_effect respond _ st = st"

definition is_answer :: "string \<Rightarrow> json \<Rightarrow> bool" where
  "is_answer i j \<longleftrightarrow> json_get j ''type'' = Some (JStr ''approval_response'') \<and> json_get j ''request_id'' = Some (JStr i)"

definition answers :: "string \<Rightarrow> json list \<Rightarrow> nat" where
  "answers i js = length (filter (is_answer i) js)"

locale responder =
  fixes respond :: "'s respond_op"
    and connected :: "'s \<Rightarrow> bool"
    and sent :: "'s \<Rightarrow> json list"
  assumes disconnected_silent: "\<not> connected st \<Longrightarrow> sent (respond i d b sc t st) = sent st"
    and disconnected_stays: "connected (respond i d b sc t st) = connected st"
    and one_answer: "answers k (sent (respond i d b sc t st)) \<le> answers k (sent st) + (if i = k then 1 else 0)"
begin

lemma answers_delivered:
  "answers k (sent (fold (respond_effect respond) fxs st)) \<le> answers k (sent st) + resp_count k fxs"
proof (induction fxs arbitrary: st)
  case (Cons e fxs)
  have "answers k (sent (respond_effect respond e st)) \<le> answers k (sent st) + (if responds_to k e then 1 else 0)"
    using one_answer by (cases e) simp_all
  then show ?case using Cons [of "respond_effect respond e st"] by simp
qed simp

lemma disconnected_delivers_nothing:
  "\<not> connected st \<Longrightarrow> sent (fold (respond_effect respond) fxs st) = sent st"
proof (induction fxs arbitrary: st)
  case (Cons e fxs)
  then show ?case using disconnected_silent disconnected_stays by (cases e) simp_all
qed simp

end

fun line_of :: "ha_effect \<Rightarrow> json list" where
  "line_of (TxSend c j) = [j]"
| "line_of _ = []"

definition sent_lines :: "host_agent \<Rightarrow> json list" where
  "sent_lines st = concat (map line_of (ha_out st))"

lemma is_answer_response: "is_answer k (approval_response fid ts i d b sc t) \<longleftrightarrow> i = k"
  by (cases sc; cases t) (simp_all add: is_answer_def approval_response_def json_get_def json_put_def)

lemma answers_append [simp]: "answers i (xs @ ys) = answers i xs + answers i ys" "answers i [] = 0"
  by (simp_all add: answers_def)

lemma sent_send_line [simp]:
  "sent_lines (send_line c j st) = sent_lines st @ (if ha_writer_dead st then [] else [j])"
  by (simp add: sent_lines_def)

interpretation host_responder: responder "ha_respond env" is_connected sent_lines for env
proof
  fix st i d b sc t k
  show "\<not> is_connected st \<Longrightarrow> sent_lines (ha_respond env i d b sc t st) = sent_lines st"
    by (simp add: disconnected_ops)
  show "is_connected (ha_respond env i d b sc t st) = is_connected st"
    by (simp add: ha_respond_def write_line_def is_connected_def split: option.splits)
  show "answers k (sent_lines (ha_respond env i d b sc t st)) \<le> answers k (sent_lines st) + (if i = k then 1 else 0)"
    by (simp add: ha_respond_def write_line_def answers_def is_answer_response split: option.splits)
qed

section \<open>The two components together\<close>

text \<open>
  A step is a command of the coordinator, whose responses are handed to the client at once (the calls
  are synchronous), or an operation of the client other than a response, which only the coordinator
  makes.
\<close>

datatype app_op = AppCommand cenv command henv | AppAgent henv ha_op

fun is_respond :: "ha_op \<Rightarrow> bool" where
  "is_respond (OpRespond i d b sc t) = True"
| "is_respond _ = False"

fun app_exec :: "app_op \<Rightarrow> coord \<times> host_agent \<Rightarrow> coord \<times> host_agent" where
  "app_exec (AppCommand env c henv) (s, h) =
     (run_command env c s, fold (respond_effect (ha_respond henv)) (new_fx env c s) h)"
| "app_exec (AppAgent henv op) (s, h) = (s, if is_respond op then h else ha_exec henv op h)"

fun app_arrivals :: "string \<Rightarrow> app_op \<Rightarrow> nat" where
  "app_arrivals i (AppCommand env c henv) = arrivals i c"
| "app_arrivals i (AppAgent henv op) = 0"

lemma not_answer [simp]:
  "\<not> is_answer i (hello a b c d e f g)" "\<not> is_answer i (pong a b)" "\<not> is_answer i (token_get a b)"
  by (simp_all add: is_answer_def hello_def pong_def token_get_def json_get_def)

lemma answers_single [simp]: "answers i [j] = (if is_answer i j then 1 else 0)"
  by (simp add: answers_def)

lemma sent_tx [simp]: "sent_lines (tx e st) = sent_lines st @ line_of e"
  by (simp add: sent_lines_def)

lemma sent_upd:
  "ha_out u = ha_out st \<Longrightarrow> sent_lines u = sent_lines st"
  by (simp add: sent_lines_def)

lemma sent_clear [simp]: "sent_lines (clear_connection st) = sent_lines st"
proof -
  have "concat (map (line_of \<circ> (\<lambda>(_, rep). TxToken rep (Inl Disconnected))) ps) = []" for ps :: "(string \<times> nat) list"
    by (induction ps) auto
  then show ?thesis by (simp add: clear_connection_eq sent_lines_def)
qed

lemma agent_no_answers:
  assumes "\<not> is_respond op"
  shows "answers i (sent_lines (ha_exec henv op h)) = answers i (sent_lines h)"
proof (cases op)
  case (OpStart info)
  then show ?thesis using sent_clear [of h] by (simp add: ha_start_def sent_lines_def)
next
  case OpStop
  then show ?thesis by (simp add: ha_stop_def) (simp add: sent_lines_def)
next
  case (OpAttempt tr co peer ours)
  then show ?thesis
    by (auto simp: loop_attempt_def back_off_def Let_def split: loop_phase.splits) (auto simp: sent_lines_def)
next
  case (OpLine line)
  then show ?thesis
    by (auto simp: handle_line_def Let_def resolve_pending_def split: option.splits host_agent_inbound.splits)
      (auto simp: sent_lines_def)
next
  case OpWriterDies
  then show ?thesis by (simp add: writer_dies_def sent_lines_def)
next
  case OpConnectionEnded
  then show ?thesis
    using sent_clear [of h]
    by (auto simp: connection_ended_def Let_def sent_lines_def split: loop_phase.splits)
next
  case (OpRespond k d b sc t)
  then show ?thesis using assms by simp
next
  case (OpRequestToken server rep)
  then show ?thesis
    by (auto simp: request_token_def Let_def split: option.splits) (auto simp: sent_lines_def)
next
  case (OpTimeout k)
  then show ?thesis by (auto simp: token_timeout_def split: option.splits) (auto simp: sent_lines_def)
qed

definition app_inv :: "string \<Rightarrow> coord \<times> host_agent \<Rightarrow> bool" where
  "app_inv i st \<longleftrightarrow> coord_inv (fst st) \<and> answers i (sent_lines (snd st)) \<le> resp_count i (out (fst st))"

lemma app_exec_inv: "app_inv i st \<Longrightarrow> app_inv i (app_exec op st)"
proof (cases op)
  case (AppCommand env c henv)
  assume inv: "app_inv i st"
  have "answers i (sent_lines (fold (respond_effect (ha_respond henv)) (new_fx env c (fst st)) (snd st)))
      \<le> answers i (sent_lines (snd st)) + resp_count i (new_fx env c (fst st))"
    by (rule host_responder.answers_delivered)
  then show ?thesis
    using inv AppCommand run_command_inv by (cases st) (simp add: app_inv_def run_command_out)
next
  case (AppAgent henv op')
  assume "app_inv i st"
  then show ?thesis using AppAgent agent_no_answers [of op' i henv "snd st"] by (cases st) (simp add: app_inv_def)
qed

interpretation app: machine app_exec "app_inv i" for i
  by unfold_locales (rule app_exec_inv)

text \<open>
  C4. End to end, over every interleaving of the coordinator's commands with the client's connection
  events: the lines sent to the host agent that answer a request id are at most as many as the
  approval requests with that id that arrived.
\<close>

theorem answers_on_the_wire_at_most_once:
  "answers i (sent_lines (snd (fold app_exec ops (coord_init store prefs rules modes, ha_new info))))
    \<le> sum_list (map (app_arrivals i) ops)"
proof -
  let ?s0 = "(coord_init store prefs rules modes, ha_new info)"
  have i0: "app_inv i ?s0" by (simp add: app_inv_def coord_init_inv) (simp add: ha_new_def sent_lines_def)
  have "owed i (fst (fold app_exec ops ?s0)) \<le> owed i (fst ?s0) + sum_list (map (app_arrivals i) ops)"
  proof (rule app.run_measure [where f = "\<lambda>st. owed i (fst st)", OF _ i0])
    fix op st
    assume "app_inv i st"
    then show "owed i (fst (app_exec op st)) \<le> owed i (fst st) + app_arrivals i op"
      using run_command_owed by (cases st; cases op) (auto simp: app_inv_def)
  qed
  moreover have "owed i (fst ?s0) = 0" by (simp add: owed_def coord_init_def)
  moreover have "app_inv i (fold app_exec ops ?s0)" using i0 by (rule app.run_inv)
  ultimately show ?thesis by (simp add: app_inv_def owed_def)
qed

end
