(* ===== verification/Audit_File.thy ===== *)
theory Audit_File
  imports Coordinator_Trace
begin

text \<open>
  The audit log on disk (\<^verbatim>\<open>append\<close> and \<^verbatim>\<open>append_to_file\<close> of \<^verbatim>\<open>core/shed-app/src/audit_store.rs\<close>). The file is
  \<^verbatim>\<open>None\<close> while it does not exist. What the file system does with one append is an input, and so are serde\_json's
  writer and reader, of which the lemmas assume that a value is written on one line and read back.
\<close>

text \<open>Opening may fail, or the bytes are written up to an error, or all of them.\<close>

datatype file_append = OpenFails | Torn nat | Written

definition append_to_file :: "file_append \<Rightarrow> string \<Rightarrow> string option \<Rightarrow> string option" where
  "append_to_file w data file =
     (case w of
        OpenFails \<Rightarrow> file
      | Torn n \<Rightarrow> Some (unwrap_or file [] @ take n data)
      | Written \<Rightarrow> Some (unwrap_or file [] @ data))"

definition log_entry :: "(json \<Rightarrow> string) \<Rightarrow> file_append \<times> audit_entry \<Rightarrow> string option \<Rightarrow> string option" where
  "log_entry print = (\<lambda>(w, e). append_to_file w (print (encode_audit_entry e) @ [CHR 0x0A]))"

text \<open>Reading the log: the lines that decode, in order.\<close>

definition read_log :: "(string \<Rightarrow> json option) \<Rightarrow> string option \<Rightarrow> audit_entry list" where
  "read_log parse file =
     List.map_filter (\<lambda>l. Option.bind (parse l) decode_audit_entry) (split_on (CHR 0x0A) (unwrap_or file []))"

lemma split_on_lines:
  "\<forall>l \<in> set ls. d \<notin> set l \<Longrightarrow> split_on d (concat (map (\<lambda>l. l @ [d]) ls)) = ls @ [[]]"
  by (induction ls) (simp_all add: split_on_append)

lemma written_log:
  assumes "\<forall>(w, e) \<in> set ws. w = Written \<or> w = OpenFails"
  shows "unwrap_or (fold (log_entry print) ws None) [] =
    concat (map (\<lambda>l. l @ [CHR 0x0A]) (map (print \<circ> encode_audit_entry \<circ> snd) (filter (\<lambda>(w, e). w = Written) ws)))"
  using assms
proof (induction ws rule: rev_induct)
  case (snoc x ws)
  then show ?case by (cases x) (auto simp: log_entry_def append_to_file_def)
qed simp

lemma map_filter_all: "(\<And>x. x \<in> set xs \<Longrightarrow> f (g x) = Some x) \<Longrightarrow> List.map_filter f (map g xs) = xs"
  by (induction xs) (simp_all add: List.map_filter_def)

text \<open>
  Appends that happen as a whole or not at all: the log reads as the entries that were written, in order.
\<close>

lemma log_reads_back:
  assumes "\<And>j. parse (print j) = Some j" "\<And>j. CHR 0x0A \<notin> set (print j)" "parse [] = None"
    and "\<forall>(w, e) \<in> set ws. w = Written \<or> w = OpenFails"
  shows "read_log parse (fold (log_entry print) ws None) = map snd (filter (\<lambda>(w, e). w = Written) ws)"
proof -
  let ?es = "map snd (filter (\<lambda>(w, e). w = Written) ws)"
  let ?f = "\<lambda>l. Option.bind (parse l) decode_audit_entry"
  have "split_on (CHR 0x0A) (unwrap_or (fold (log_entry print) ws None) []) = map (print \<circ> encode_audit_entry) ?es @ [[]]"
    unfolding written_log [OF assms(4)] by (subst split_on_lines) (auto simp: assms(2))
  moreover have "List.map_filter ?f (map (print \<circ> encode_audit_entry) ?es) = ?es"
    by (rule map_filter_all) (simp add: assms(1) audit_entry_codec.decode_encode)
  ultimately show ?thesis by (simp add: read_log_def List.map_filter_def assms(3))
qed

lemma audited_entry:
  assumes "audited_after p xs" "FxRespond i d b sc t \<in> set xs"
  shows "\<exists>e. (p = Some (FxAudit e) \<or> e \<in> set (audit_entries xs)) \<and> records e i d"
  using assms
proof (induction xs arbitrary: p)
  case (Cons x xs)
  show ?case
  proof (cases "FxRespond i d b sc t \<in> set xs")
    case True
    then obtain e where "(Some x = Some (FxAudit e) \<or> e \<in> set (audit_entries xs)) \<and> records e i d"
      using Cons by fastforce
    then show ?thesis by (cases x) auto
  next
    case False
    then have "x = FxRespond i d b sc t" using Cons.prems by simp
    then show ?thesis using Cons.prems by (auto split: option.splits effect.splits)
  qed
qed simp

text \<open>
  When no append fails, the log on disk holds exactly the audit records of the coordinator's run, in order: every
  response to the host agent has its record there.
\<close>

lemma log_holds_every_response:
  assumes "\<And>j. parse (print j) = Some j" "\<And>j. CHR 0x0A \<notin> set (print j)" "parse [] = None"
    and "s = fold (\<lambda>(env, c). run_command env c) cmds (coord_init store prefs rules modes)"
    and "FxRespond i d b sc t \<in> set (out s)"
  shows "\<exists>e \<in> set (read_log parse (fold (log_entry print) (map (Pair Written) (audit_entries (out s))) None)).
     records e i d"
proof -
  have "trail (coord_init store prefs rules modes) s"
    unfolding assms(4) by (rule trail.run_inv) simp
  then have "audited_after None (out s)" by (simp add: trail_def coord_init_def)
  then obtain e where "e \<in> set (audit_entries (out s))" "records e i d"
    using audited_entry [OF _ assms(5)] by blast
  moreover have "read_log parse (fold (log_entry print) (map (Pair Written) (audit_entries (out s))) None) = audit_entries (out s)"
    by (subst log_reads_back) (auto simp: assms(1-3) filter_map comp_def)
  ultimately show ?thesis by auto
qed

end
