(* ===== verification/Dbus_Notifier.thy ===== *)
theory Dbus_Notifier
  imports Coordinator_Trace
begin

text \<open>
  The desktop notifier of the Linux build (\<^verbatim>\<open>DBusNotifier\<close> in \<^verbatim>\<open>tauri/src-tauri/src/approval.rs\<close>). Posting
  is asynchronous: the daemon's id of a banner is known only after \<^verbatim>\<open>notify\<close> returns, and by then the request
  may have been withdrawn or posted again. The locked sections of the code are functions on the state; the
  tasks between them (calls of \<^verbatim>\<open>notify\<close> in flight, calls that returned and wait for the lock, calls of
  \<^verbatim>\<open>close\<close>) are lists, so that a step relation interleaves them in every order. The banners the daemon
  shows are part of the state.
\<close>

section \<open>State\<close>

record entry =
  en_gen :: nat
  en_title :: string
  en_body :: string
  en_notif :: "nat option"
  en_withdrawn :: bool

text \<open>A spawned post task: its \<^verbatim>\<open>notify\<close> is in flight, or has returned and the task waits for the lock.\<close>

record post_task =
  pt_id :: string
  pt_gen :: nat
  pt_notif :: "nat option"

text \<open>\<open>db_next\<close> numbers the tasks; the code's generation counter is an \<^verbatim>\<open>AtomicU64\<close>.\<close>

record dbus =
  db_state :: "(string, entry) hmap"
  db_gen :: nat
  db_tasks :: "(nat, post_task) hmap"
  db_next :: nat
  db_closing :: "nat list"
  db_banners :: "nat list"
  db_used :: "nat list"

definition dbus_new :: dbus where
  "dbus_new = \<lparr>db_state = [], db_gen = 0, db_tasks = [], db_next = 0, db_closing = [], db_banners = [], db_used = []\<rparr>"

section \<open>Operations\<close>

definition spawn_close :: "nat \<Rightarrow> dbus \<Rightarrow> dbus" where
  "spawn_close n d = d\<lparr>db_closing := n # db_closing d\<rparr>"

definition dbus_post :: "approval_request \<Rightarrow> dbus \<Rightarrow> dbus" where
  "dbus_post req d =
     (let i = ar_id req;
          g = db_gen d;
          close_old = Option.bind (hm_get (db_state d) i) en_notif;
          d = d\<lparr>db_gen := (g + 1) mod 2 ^ 64,
                db_state := hm_insert i \<lparr>en_gen = g, en_title = notification_title req, en_body = notification_body req,
                                         en_notif = None, en_withdrawn = False\<rparr> (db_state d)\<rparr>;
          d = (case close_old of Some old \<Rightarrow> spawn_close old d | None \<Rightarrow> d)
      in d\<lparr>db_tasks := hm_insert (db_next d) \<lparr>pt_id = i, pt_gen = g, pt_notif = None\<rparr> (db_tasks d),
           db_next := db_next d + 1\<rparr>)"

text \<open>The rest of the post task, after \<^verbatim>\<open>notify\<close> returned \<open>n\<close>: 0 when there is no daemon.\<close>

definition dbus_reconcile :: "string \<Rightarrow> nat \<Rightarrow> nat \<Rightarrow> dbus \<Rightarrow> dbus" where
  "dbus_reconcile i g n d =
     (case hm_get (db_state d) i of
        Some e \<Rightarrow>
          if en_gen e = g
          then (if n = 0 \<or> en_withdrawn e
                then (let d = d\<lparr>db_state := hm_remove i (db_state d)\<rparr> in if n \<noteq> 0 then spawn_close n d else d)
                else d\<lparr>db_state := hm_insert i (e\<lparr>en_notif := Some n\<rparr>) (db_state d)\<rparr>)
          else (if n \<noteq> 0 then spawn_close n d else d)
      | None \<Rightarrow> (if n \<noteq> 0 then spawn_close n d else d))"

definition dbus_withdraw :: "string \<Rightarrow> dbus \<Rightarrow> dbus" where
  "dbus_withdraw i d =
     (case hm_get (db_state d) i of
        None \<Rightarrow> d
      | Some e \<Rightarrow>
          (case en_notif e of
             Some n \<Rightarrow> spawn_close n (d\<lparr>db_state := hm_remove i (db_state d)\<rparr>)
           | None \<Rightarrow> d\<lparr>db_state := hm_insert i (e\<lparr>en_withdrawn := True\<rparr>) (db_state d)\<rparr>))"

definition dbus_posted :: "dbus \<Rightarrow> posted_notification list" where
  "dbus_posted d =
     sort_key pn_id (map (\<lambda>(i, e). \<lparr>pn_id = i, pn_title = en_title e, pn_body = en_body e\<rparr>)
       (filter (\<lambda>(_, e). \<not> en_withdrawn e) (db_state d)))"

section \<open>Interleavings\<close>

text \<open>
  \<open>EvNotified\<close>: the daemon answers the \<^verbatim>\<open>notify\<close> of a task, with 0 (no daemon) or with an id it has not used
  before and a banner on the screen. \<open>EvReconcile\<close>: the task gets the lock. \<open>EvClosed\<close>: the daemon executes a
  \<^verbatim>\<open>close\<close>. \<open>EvDismissed\<close>: the user dismisses a banner.
\<close>

datatype bus_event =
    EvPost approval_request
  | EvWithdraw string
  | EvNotified nat nat
  | EvReconcile nat
  | EvClosed nat
  | EvDismissed nat

fun enabled :: "bus_event \<Rightarrow> dbus \<Rightarrow> bool" where
  "enabled (EvNotified k n) d \<longleftrightarrow>
     (case hm_get (db_tasks d) k of Some t \<Rightarrow> pt_notif t = None | None \<Rightarrow> False) \<and> n \<notin> set (db_used d)"
| "enabled (EvReconcile k) d \<longleftrightarrow>
     (case hm_get (db_tasks d) k of Some t \<Rightarrow> pt_notif t \<noteq> None | None \<Rightarrow> False)"
| "enabled (EvClosed n) d \<longleftrightarrow> n \<in> set (db_closing d)"
| "enabled _ d \<longleftrightarrow> True"

definition daemon_answers :: "nat \<Rightarrow> nat \<Rightarrow> dbus \<Rightarrow> dbus" where
  "daemon_answers k n d =
     (case hm_get (db_tasks d) k of
        None \<Rightarrow> d
      | Some t \<Rightarrow>
          (let d = d\<lparr>db_tasks := hm_insert k (t\<lparr>pt_notif := Some n\<rparr>) (db_tasks d)\<rparr>
           in if n = 0 then d else d\<lparr>db_banners := n # db_banners d, db_used := n # db_used d\<rparr>))"

definition task_resumes :: "nat \<Rightarrow> dbus \<Rightarrow> dbus" where
  "task_resumes k d =
     (case hm_get (db_tasks d) k of
        Some t \<Rightarrow>
          (case pt_notif t of
             Some n \<Rightarrow> dbus_reconcile (pt_id t) (pt_gen t) n (d\<lparr>db_tasks := hm_remove k (db_tasks d)\<rparr>)
           | None \<Rightarrow> d)
      | None \<Rightarrow> d)"

fun bus_exec :: "bus_event \<Rightarrow> dbus \<Rightarrow> dbus" where
  "bus_exec (EvPost req) d = dbus_post req d"
| "bus_exec (EvWithdraw i) d = dbus_withdraw i d"
| "bus_exec (EvNotified k n) d = daemon_answers k n d"
| "bus_exec (EvReconcile k) d = task_resumes k d"
| "bus_exec (EvClosed n) d = d\<lparr>db_closing := remove1 n (db_closing d), db_banners := filter (\<lambda>b. b \<noteq> n) (db_banners d)\<rparr>"
| "bus_exec (EvDismissed n) d = d\<lparr>db_banners := filter (\<lambda>b. b \<noteq> n) (db_banners d)\<rparr>"

inductive bus_run :: "bus_event list \<Rightarrow> dbus \<Rightarrow> bool" where
  bus_init: "bus_run [] dbus_new"
| bus_step: "bus_run evs d \<Longrightarrow> enabled ev d \<Longrightarrow> bus_run (evs @ [ev]) (bus_exec ev d)"

text \<open>The notifier calls among the events.\<close>

fun calls_of :: "bus_event list \<Rightarrow> effect list" where
  "calls_of [] = []"
| "calls_of (EvPost req # evs) = FxPost req # calls_of evs"
| "calls_of (EvWithdraw i # evs) = FxWithdraw i # calls_of evs"
| "calls_of (_ # evs) = calls_of evs"

section \<open>The notifier contract\<close>

definition posted_ids_of :: "dbus \<Rightarrow> string set" where
  "posted_ids_of d = {i. \<exists>e. hm_get (db_state d) i = Some e \<and> \<not> en_withdrawn e}"

lemma spawn_close_fields [simp]:
  "db_state (spawn_close n d) = db_state d" "db_tasks (spawn_close n d) = db_tasks d"
  "db_gen (spawn_close n d) = db_gen d" "db_next (spawn_close n d) = db_next d"
  "db_closing (spawn_close n d) = n # db_closing d" "db_banners (spawn_close n d) = db_banners d"
  "db_used (spawn_close n d) = db_used d"
  by (simp_all add: spawn_close_def)

interpretation dbus_notifier: notifier dbus_post dbus_withdraw posted_ids_of
proof
  fix req n
  show "posted_ids_of (dbus_post req n) = insert (ar_id req) (posted_ids_of n)"
    by (auto simp: posted_ids_of_def dbus_post_def Let_def split: option.splits)
next
  fix i n
  show "posted_ids_of (dbus_withdraw i n) = posted_ids_of n - {i}"
    by (auto simp: posted_ids_of_def dbus_withdraw_def split: option.splits if_splits)
qed

section \<open>Every banner has one owner\<close>

definition entry_ok :: "(nat \<Rightarrow> post_task option) \<Rightarrow> nat \<Rightarrow> string \<Rightarrow> entry \<Rightarrow> bool" where
  "entry_ok T nx i e \<longleftrightarrow> en_gen e < nx
    \<and> (if en_notif e = None then \<exists>t. T (en_gen e) = Some t \<and> pt_id t = i else \<not> en_withdrawn e \<and> T (en_gen e) = None)"

definition tasks_ok :: "dbus \<Rightarrow> bool" where
  "tasks_ok d \<longleftrightarrow> db_gen d = db_next d
    \<and> (\<forall>k t. hm_get (db_tasks d) k = Some t \<longrightarrow> pt_gen t = k \<and> k < db_next d)
    \<and> (\<forall>i e. hm_get (db_state d) i = Some e \<longrightarrow> entry_ok (hm_get (db_tasks d)) (db_next d) i e)"

lemma tasks_okI:
  assumes "db_gen d = db_next d" "\<And>k t. hm_get (db_tasks d) k = Some t \<Longrightarrow> pt_gen t = k \<and> k < db_next d"
    "\<And>i e. hm_get (db_state d) i = Some e \<Longrightarrow> entry_ok (hm_get (db_tasks d)) (db_next d) i e"
  shows "tasks_ok d"
  using assms by (simp add: tasks_ok_def)

lemma tasks_okD:
  assumes "tasks_ok d"
  shows "db_gen d = db_next d" "hm_get (db_tasks d) k = Some t \<Longrightarrow> pt_gen t = k"
    "hm_get (db_tasks d) k = Some t \<Longrightarrow> k < db_next d"
    "hm_get (db_state d) i = Some e \<Longrightarrow> entry_ok (hm_get (db_tasks d)) (db_next d) i e"
  using assms by (auto simp: tasks_ok_def)

lemma tasks_ok_post:
  assumes "tasks_ok d" "db_next d + 1 < 2 ^ 64"
  shows "tasks_ok (dbus_post req d)"
proof -
  have "Suc (db_next d) mod 18446744073709551616 = Suc (db_next d)" using assms(2) by simp
  then show ?thesis
    using tasks_okD [OF assms(1)]
    by (intro tasks_okI) (fastforce simp: dbus_post_def Let_def entry_ok_def less_SucI split: option.splits if_splits)+
qed

lemma tasks_ok_withdraw: "tasks_ok d \<Longrightarrow> tasks_ok (dbus_withdraw i d)"
  using tasks_okD [of d]
  by (intro tasks_okI) (auto simp: dbus_withdraw_def entry_ok_def split: option.splits if_splits)

lemma tasks_ok_answers: "tasks_ok d \<Longrightarrow> tasks_ok (daemon_answers k n d)"
  using tasks_okD [of d]
  by (intro tasks_okI) (fastforce simp: daemon_answers_def entry_ok_def Let_def split: option.splits if_splits)+

lemma entry_ok_remove: "en_gen e \<noteq> k \<Longrightarrow> entry_ok (hm_get (hm_remove k m)) nx i e = entry_ok (hm_get m) nx i e"
  by (simp add: entry_ok_def)

lemma entry_ok_posted: "\<not> en_withdrawn e \<Longrightarrow> en_gen e < nx \<Longrightarrow> T (en_gen e) = None \<Longrightarrow> entry_ok T nx i (e\<lparr>en_notif := Some n\<rparr>)"
  by (simp add: entry_ok_def)

lemma entry_ok_task: "entry_ok T nx i e \<Longrightarrow> T (en_gen e) = Some t \<Longrightarrow> i = pt_id t \<and> en_notif e = None \<and> en_gen e < nx"
  by (auto simp: entry_ok_def split: if_splits)

lemma task_resumes_eq:
  assumes "hm_get (db_tasks d) k = Some t" "pt_notif t = Some n"
  shows "task_resumes k d = dbus_reconcile (pt_id t) (pt_gen t) n (d\<lparr>db_tasks := hm_remove k (db_tasks d)\<rparr>)"
  using assms by (simp add: task_resumes_def)

lemma task_resumes_cases:
  obtains t n where "hm_get (db_tasks d) k = Some t" "pt_notif t = Some n" | "task_resumes k d = d"
  by (cases "hm_get (db_tasks d) k"; cases "pt_notif (the (hm_get (db_tasks d) k))") (auto simp: task_resumes_def)

lemma reconcile_fields [simp]:
  "db_gen (dbus_reconcile i g n d) = db_gen d" "db_next (dbus_reconcile i g n d) = db_next d"
  "db_tasks (dbus_reconcile i g n d) = db_tasks d" "db_used (dbus_reconcile i g n d) = db_used d"
  "db_banners (dbus_reconcile i g n d) = db_banners d"
  by (simp_all add: dbus_reconcile_def Let_def split: option.splits)

lemma tasks_ok_resumes:
  assumes "tasks_ok d"
  shows "tasks_ok (task_resumes k d)"
proof (cases rule: task_resumes_cases [of d k])
  case 2
  then show ?thesis using assms by simp
next
  case (1 t n)
  note ok = tasks_okD [OF assms]
  have g: "pt_gen t = k" using ok(2) 1 by blast
  let ?d = "d\<lparr>db_tasks := hm_remove k (db_tasks d)\<rparr>"
  have other: "entry_ok (hm_get (hm_remove k (db_tasks d))) (db_next d) i e"
    if "hm_get (db_state d) i = Some e" "i \<noteq> pt_id t \<or> en_gen e \<noteq> k" for i e
  proof -
    have "en_gen e \<noteq> k" using that ok(4) entry_ok_task 1(1) by blast
    then show ?thesis using ok(4) that(1) entry_ok_remove by simp
  qed
  have "entry_ok (hm_get (hm_remove k (db_tasks d))) (db_next d) i e"
    if r: "hm_get (db_state (dbus_reconcile (pt_id t) k n ?d)) i = Some e" for i e
  proof (cases "i = pt_id t")
    case False
    then have "hm_get (db_state d) i = Some e"
      using r by (auto simp: dbus_reconcile_def Let_def split: option.splits if_splits)
    then show ?thesis using other False by blast
  next
    case True
    then obtain e0 where e0: "hm_get (db_state d) i = Some e0"
      and e: "en_gen e0 \<noteq> k \<and> e = e0 \<or> en_gen e0 = k \<and> \<not> en_withdrawn e0 \<and> e = e0\<lparr>en_notif := Some n\<rparr>"
      using r by (auto simp: dbus_reconcile_def Let_def split: option.splits if_splits)
    have "en_gen e0 < db_next d" using ok(4) [OF e0] by (simp add: entry_ok_def)
    then show ?thesis using e other [OF e0] by (auto intro: entry_ok_posted)
  qed
  then show ?thesis
    using ok(1-3) unfolding task_resumes_eq [OF 1] g by (intro tasks_okI) (auto split: if_splits)
qed

text \<open>Who is responsible for a banner: the task that posted it, the entry that tracks it, or a pending close.\<close>

datatype owner = OwnTask nat | OwnEntry string | OwnClose

fun owns :: "dbus \<Rightarrow> owner \<Rightarrow> nat \<Rightarrow> bool" where
  "owns d (OwnTask k) n \<longleftrightarrow> n \<noteq> 0 \<and> (\<exists>t. hm_get (db_tasks d) k = Some t \<and> pt_notif t = Some n)"
| "owns d (OwnEntry i) n \<longleftrightarrow> (\<exists>e. hm_get (db_state d) i = Some e \<and> en_notif e = Some n)"
| "owns d OwnClose n \<longleftrightarrow> n \<in> set (db_closing d)"

definition ids_ok :: "dbus \<Rightarrow> bool" where
  "ids_ok d \<longleftrightarrow> distinct (db_closing d)
    \<and> (\<forall>w w' n. owns d w n \<longrightarrow> owns d w' n \<longrightarrow> w = w')
    \<and> (\<forall>w n. owns d w n \<longrightarrow> n \<in> set (db_used d))
    \<and> (\<forall>n \<in> set (db_banners d). \<exists>w. owns d w n)"

text \<open>Every step but the daemon's answer hands banners over from one owner to another, or drops them.\<close>

lemma ids_ok_transfer:
  assumes "ids_ok d" "distinct (db_closing d')" "db_used d' = db_used d"
    "\<And>w n. owns d' w n \<longleftrightarrow> keep n \<and> (\<exists>v. owns d v n \<and> w = f v)"
    "set (db_banners d') \<subseteq> {n \<in> set (db_banners d). keep n}"
  shows "ids_ok d'"
proof -
  note ok = assms(1) [unfolded ids_ok_def]
  have "w = w'" if "owns d' w n" "owns d' w' n" for w w' n
    using that ok unfolding assms(4) by metis
  moreover have "n \<in> set (db_used d')" if "owns d' w n" for w n
    using that ok unfolding assms(3,4) by blast
  moreover have "\<exists>w. owns d' w n" if "n \<in> set (db_banners d')" for n
    using that assms(5) ok unfolding assms(4) by blast
  ultimately show ?thesis using assms(2) unfolding ids_ok_def by blast
qed

lemma owner_close: "ids_ok d \<Longrightarrow> owns d w n \<Longrightarrow> w \<noteq> OwnClose \<Longrightarrow> n \<notin> set (db_closing d)"
  by (metis ids_ok_def owns.simps(3))

lemma ids_okD: "ids_ok d \<Longrightarrow> distinct (db_closing d)" "ids_ok d \<Longrightarrow> owns d w n \<Longrightarrow> owns d w' n \<Longrightarrow> w = w'"
  "ids_ok d \<Longrightarrow> owns d w n \<Longrightarrow> n \<in> set (db_used d)" "ids_ok d \<Longrightarrow> n \<in> set (db_banners d) \<Longrightarrow> \<exists>w. owns d w n"
  by (auto simp: ids_ok_def)

definition hand_over :: "owner \<Rightarrow> owner \<Rightarrow> owner \<Rightarrow> owner" where
  "hand_over x y v = (if v = x then y else v)"

lemma hand_over_iff:
  "x \<noteq> y \<Longrightarrow> (\<exists>v. owns d v n \<and> w = hand_over x y v) \<longleftrightarrow> (w = y \<and> owns d x n) \<or> (w \<noteq> x \<and> owns d w n)"
  by (auto simp: hand_over_def)

lemma owns_post:
  assumes "hm_get (db_tasks d) (db_next d) = None"
  shows "owns (dbus_post req d) (OwnTask k) n \<longleftrightarrow> owns d (OwnTask k) n"
    "owns (dbus_post req d) (OwnEntry i) n \<longleftrightarrow> i \<noteq> ar_id req \<and> owns d (OwnEntry i) n"
    "owns (dbus_post req d) OwnClose n \<longleftrightarrow> owns d OwnClose n \<or> owns d (OwnEntry (ar_id req)) n"
  using assms by (auto simp: dbus_post_def Let_def split: option.splits if_splits bind_splits)

lemma owns_withdraw:
  "owns (dbus_withdraw j d) (OwnTask k) n \<longleftrightarrow> owns d (OwnTask k) n"
  "owns (dbus_withdraw j d) (OwnEntry i) n \<longleftrightarrow> i \<noteq> j \<and> owns d (OwnEntry i) n"
  "owns (dbus_withdraw j d) OwnClose n \<longleftrightarrow> owns d OwnClose n \<or> owns d (OwnEntry j) n"
  by (auto simp: dbus_withdraw_def split: option.splits if_splits)

lemma used_banners_simps [simp]:
  "db_used (dbus_post req d) = db_used d" "db_banners (dbus_post req d) = db_banners d"
  "db_used (dbus_withdraw i d) = db_used d" "db_banners (dbus_withdraw i d) = db_banners d"
  by (auto simp: dbus_post_def dbus_withdraw_def Let_def split: option.splits)

lemma distinct_closing:
  assumes "ids_ok d"
  shows "distinct (db_closing (dbus_post req d))" "distinct (db_closing (dbus_withdraw i d))"
proof -
  have c: "en_notif e = Some n \<Longrightarrow> hm_get (db_state d) j = Some e \<Longrightarrow> n \<notin> set (db_closing d)" for j e n
    using owner_close [OF assms, of "OwnEntry j"] by simp
  show "distinct (db_closing (dbus_post req d))"
    using ids_okD(1) [OF assms] c by (auto simp: dbus_post_def Let_def split: option.splits bind_splits)
  show "distinct (db_closing (dbus_withdraw i d))"
    using ids_okD(1) [OF assms] c by (auto simp: dbus_withdraw_def split: option.splits)
qed

lemma ids_ok_withdraw:
  assumes "ids_ok d"
  shows "ids_ok (dbus_withdraw i d)"
  using assms distinct_closing(2) [OF assms, of i]
proof (rule ids_ok_transfer [where keep = "\<lambda>_. True" and f = "hand_over (OwnEntry i) OwnClose"])
  fix w n
  show "owns (dbus_withdraw i d) w n \<longleftrightarrow> True \<and> (\<exists>v. owns d v n \<and> w = hand_over (OwnEntry i) OwnClose v)"
    unfolding hand_over_iff [OF owner.distinct(5)] by (cases w) (auto simp only: owns_withdraw owner.distinct owner.inject simp_thms)
qed simp_all

lemma ids_ok_post:
  assumes "ids_ok d" "tasks_ok d"
  shows "ids_ok (dbus_post req d)"
  using assms(1) distinct_closing(1) [OF assms(1), of req]
proof (rule ids_ok_transfer [where keep = "\<lambda>_. True" and f = "hand_over (OwnEntry (ar_id req)) OwnClose"])
  fix w n
  have "hm_get (db_tasks d) (db_next d) = None" using tasks_okD(3) [OF assms(2)] by (metis less_irrefl not_None_eq)
  note o = owns_post [OF this]
  show "owns (dbus_post req d) w n \<longleftrightarrow> True \<and> (\<exists>v. owns d v n \<and> w = hand_over (OwnEntry (ar_id req)) OwnClose v)"
    unfolding hand_over_iff [OF owner.distinct(5)] by (cases w) (auto simp only: o owner.distinct owner.inject simp_thms)
qed simp_all

text \<open>The owner a resuming task hands its banner to.\<close>

definition adopter :: "dbus \<Rightarrow> post_task \<Rightarrow> owner" where
  "adopter d t = (case hm_get (db_state d) (pt_id t) of
     Some e \<Rightarrow> if en_gen e = pt_gen t \<and> \<not> en_withdrawn e then OwnEntry (pt_id t) else OwnClose | None \<Rightarrow> OwnClose)"

lemma owns_resumes:
  assumes "tasks_ok d" "hm_get (db_tasks d) k = Some t" "pt_notif t = Some m"
  shows "owns (task_resumes k d) (OwnTask j) n \<longleftrightarrow> j \<noteq> k \<and> owns d (OwnTask j) n"
    "owns (task_resumes k d) (OwnEntry i) n \<longleftrightarrow> owns d (OwnEntry i) n \<or> adopter d t = OwnEntry i \<and> owns d (OwnTask k) n"
    "owns (task_resumes k d) OwnClose n \<longleftrightarrow> owns d OwnClose n \<or> adopter d t = OwnClose \<and> owns d (OwnTask k) n"
proof -
  have e: "en_notif e = None" if "hm_get (db_state d) (pt_id t) = Some e" "en_gen e = pt_gen t" for e
    using entry_ok_task [OF tasks_okD(4) [OF assms(1) that(1)]] that assms(2) tasks_okD(2) [OF assms(1,2)] by simp
  show "owns (task_resumes k d) (OwnTask j) n \<longleftrightarrow> j \<noteq> k \<and> owns d (OwnTask j) n"
    by (auto simp: task_resumes_eq [OF assms(2,3)])
  show "owns (task_resumes k d) (OwnEntry i) n \<longleftrightarrow> owns d (OwnEntry i) n \<or> adopter d t = OwnEntry i \<and> owns d (OwnTask k) n"
    using e assms(2,3)
    by (auto simp: task_resumes_eq [OF assms(2,3)] dbus_reconcile_def adopter_def Let_def split: option.splits if_splits)
  show "owns (task_resumes k d) OwnClose n \<longleftrightarrow> owns d OwnClose n \<or> adopter d t = OwnClose \<and> owns d (OwnTask k) n"
    using e assms(2,3)
    by (auto simp: task_resumes_eq [OF assms(2,3)] dbus_reconcile_def adopter_def Let_def split: option.splits if_splits)
qed

lemma ids_ok_resumes:
  assumes "ids_ok d" "tasks_ok d"
  shows "ids_ok (task_resumes k d)"
proof (cases rule: task_resumes_cases [of d k])
  case 2
  then show ?thesis using assms by simp
next
  case (1 t m)
  note o = owns_resumes [OF assms(2) 1]
  have ne: "OwnTask j \<noteq> adopter d t" for j by (simp add: adopter_def split: option.splits)
  have "m \<noteq> 0 \<Longrightarrow> m \<notin> set (db_closing d)" using owner_close [OF assms(1), of "OwnTask k" m] 1 by simp
  then have dist: "distinct (db_closing (task_resumes k d))"
    using ids_okD(1) [OF assms(1)]
    by (auto simp: task_resumes_eq [OF 1] dbus_reconcile_def Let_def split: option.splits)
  show ?thesis
    using assms(1) dist
  proof (rule ids_ok_transfer [where keep = "\<lambda>_. True" and f = "hand_over (OwnTask k) (adopter d t)"])
    fix w n
    show "owns (task_resumes k d) w n \<longleftrightarrow> True \<and> (\<exists>v. owns d v n \<and> w = hand_over (OwnTask k) (adopter d t) v)"
      unfolding hand_over_iff [OF ne] using ne by (cases w) (auto simp only: o owner.distinct owner.inject simp_thms)
  qed (simp_all add: task_resumes_eq [OF 1])
qed

lemma ids_ok_answers:
  assumes "ids_ok d" "enabled (EvNotified k n) d"
  shows "ids_ok (daemon_answers k n d)"
proof -
  obtain t where t: "hm_get (db_tasks d) k = Some t" "pt_notif t = None" and n: "n \<notin> set (db_used d)"
    using assms(2) by (auto split: option.splits)
  have o: "owns (daemon_answers k n d) w m \<longleftrightarrow> owns d w m \<or> n \<noteq> 0 \<and> w = OwnTask k \<and> m = n" for w m
    using t by (cases w) (auto simp: daemon_answers_def Let_def)
  have u: "set (db_used d) \<subseteq> set (db_used (daemon_answers k n d))" "n \<noteq> 0 \<Longrightarrow> n \<in> set (db_used (daemon_answers k n d))"
    "db_closing (daemon_answers k n d) = db_closing d"
    "set (db_banners (daemon_answers k n d)) \<subseteq> set (db_banners d) \<union> (if n = 0 then {} else {n})"
    using t by (auto simp: daemon_answers_def Let_def)
  have fresh: "\<not> owns d w n" for w using ids_okD(3) [OF assms(1)] n by blast
  have "w = w'" if "owns (daemon_answers k n d) w m" "owns (daemon_answers k n d) w' m" for w w' m
    using that ids_okD(2) [OF assms(1)] fresh unfolding o by blast
  moreover have "m \<in> set (db_used (daemon_answers k n d))" if "owns (daemon_answers k n d) w m" for w m
    using that ids_okD(3) [OF assms(1)] u(1,2) unfolding o by blast
  moreover have "\<exists>w. owns (daemon_answers k n d) w m" if "m \<in> set (db_banners (daemon_answers k n d))" for m
    using that ids_okD(4) [OF assms(1)] u(4) unfolding o by (auto split: if_splits)
  ultimately show ?thesis using ids_okD(1) [OF assms(1)] u(3) unfolding ids_ok_def by simp
qed

lemma ids_ok_closed:
  assumes "ids_ok d" "enabled (EvClosed m) d"
  shows "ids_ok (bus_exec (EvClosed m) d)"
  using assms(1)
proof (rule ids_ok_transfer [where keep = "\<lambda>n. n \<noteq> m" and f = "\<lambda>v. v"])
  have c: "owns d OwnClose m" using assms(2) by simp
  fix w n
  show "owns (bus_exec (EvClosed m) d) w n \<longleftrightarrow> n \<noteq> m \<and> (\<exists>v. owns d v n \<and> w = v)"
    using ids_okD(1) [OF assms(1)] ids_okD(2) [OF assms(1) c, of w] by (cases w) auto
qed (use ids_okD(1) [OF assms(1)] in auto)

lemma ids_ok_dismissed:
  assumes "ids_ok d"
  shows "ids_ok (bus_exec (EvDismissed m) d)"
  using assms
proof (rule ids_ok_transfer [where keep = "\<lambda>_. True" and f = "\<lambda>v. v"])
  fix w n
  show "owns (bus_exec (EvDismissed m) d) w n \<longleftrightarrow> True \<and> (\<exists>v. owns d v n \<and> w = v)" by (cases w) auto
qed (use ids_okD(1) [OF assms] in auto)

end
