(* ===== verification/Dbus_Safety.thy ===== *)
theory Dbus_Safety
  imports Dbus_Notifier Coordinator_Theorems
begin

text \<open>
  Runs of the desktop notifier beside the coordinator: the invariant of \<^verbatim>\<open>Dbus_Notifier\<close> over every
  interleaving, what the notifier lists, and the property that no banner is left behind.
\<close>

section \<open>Runs\<close>

definition posts :: "bus_event list \<Rightarrow> nat" where
  "posts evs = length (filter (\<lambda>e. case e of EvPost _ \<Rightarrow> True | _ \<Rightarrow> False) evs)"

lemma db_next_exec: "db_next (bus_exec ev d) = db_next d + posts [ev]"
  by (cases ev) (auto simp: posts_def dbus_post_def dbus_withdraw_def daemon_answers_def task_resumes_def Let_def split: option.splits)

lemma run_ok: "bus_run evs d \<Longrightarrow> posts evs < 2 ^ 64 \<Longrightarrow> tasks_ok d \<and> ids_ok d \<and> db_next d = posts evs"
proof (induction rule: bus_run.induct)
  case bus_init
  have "ids_ok dbus_new" unfolding ids_ok_def by (auto simp: dbus_new_def elim: owns.elims)
  then show ?case by (simp add: tasks_ok_def dbus_new_def posts_def)
next
  case (bus_step evs d ev)
  have p: "posts (evs @ [ev]) = posts evs + posts [ev]" by (simp add: posts_def)
  then have ok: "tasks_ok d" "ids_ok d" "db_next d = posts evs" using bus_step by simp_all
  have "tasks_ok (bus_exec ev d) \<and> ids_ok (bus_exec ev d)"
  proof (cases ev)
    case (EvPost req)
    then have "db_next d + 1 < 2 ^ 64" using bus_step.prems ok(3) p by (simp add: posts_def)
    then show ?thesis using EvPost ok by (simp add: tasks_ok_post ids_ok_post)
  next
    case (EvClosed m)
    then show ?thesis using ok bus_step.hyps(2) ids_ok_closed by (simp add: tasks_ok_def)
  next
    case (EvDismissed m)
    then show ?thesis using ok ids_ok_dismissed by (simp add: tasks_ok_def)
  next
    case (EvNotified k n)
    then show ?thesis using ok bus_step.hyps(2) ids_ok_answers tasks_ok_answers by simp
  qed (use ok in \<open>simp_all add: tasks_ok_withdraw ids_ok_withdraw tasks_ok_resumes ids_ok_resumes\<close>)
  then show ?case using ok(3) p by (simp add: db_next_exec)
qed

lemma calls_of_append: "calls_of (evs @ evs') = calls_of evs @ calls_of evs'"
  by (induction evs rule: calls_of.induct) simp_all

lemma shown_append: "shown (xs @ ys) x = shown ys (shown xs x)"
  by (simp add: shown_def)

lemma posted_ids_answers: "posted_ids_of (daemon_answers k n d) = posted_ids_of d"
  by (auto simp: posted_ids_of_def daemon_answers_def Let_def split: option.splits)

lemma posted_ids_resumes: "posted_ids_of (task_resumes k d) \<subseteq> posted_ids_of d"
  by (auto simp: posted_ids_of_def task_resumes_def dbus_reconcile_def Let_def split: option.splits if_splits)

lemma posted_ids_resumes_daemon:
  "(\<And>t. hm_get (db_tasks d) k = Some t \<Longrightarrow> pt_notif t \<noteq> Some 0) \<Longrightarrow> posted_ids_of (task_resumes k d) = posted_ids_of d"
  by (auto simp: posted_ids_of_def task_resumes_def dbus_reconcile_def Let_def split: option.splits if_splits)

definition daemon_up :: "dbus \<Rightarrow> bool" where
  "daemon_up d \<longleftrightarrow> (\<forall>k t. hm_get (db_tasks d) k = Some t \<longrightarrow> pt_notif t \<noteq> Some 0)"

lemma posted_ids_exec: "posted_ids_of (bus_exec ev d) \<subseteq> shown (calls_of [ev]) (posted_ids_of d)"
  using posted_ids_resumes
  by (cases ev) (simp_all add: shown_def posted_ids_answers dbus_notifier.posted_ids_post dbus_notifier.posted_ids_withdraw,
      simp_all add: posted_ids_of_def)

lemma posted_ids_exec_daemon:
  "daemon_up d \<Longrightarrow> posted_ids_of (bus_exec ev d) = shown (calls_of [ev]) (posted_ids_of d)"
  by (cases ev) (simp_all add: shown_def posted_ids_answers dbus_notifier.posted_ids_post dbus_notifier.posted_ids_withdraw
      daemon_up_def posted_ids_resumes_daemon, simp_all add: posted_ids_of_def)

lemma daemon_up_exec: "daemon_up d \<Longrightarrow> (\<And>k. ev \<noteq> EvNotified k 0) \<Longrightarrow> daemon_up (bus_exec ev d)"
  by (cases ev) (auto simp: daemon_up_def dbus_post_def dbus_withdraw_def daemon_answers_def task_resumes_def Let_def
      split: option.splits if_splits)

lemma shown_step_mono: "x \<subseteq> y \<Longrightarrow> shown_step e x \<subseteq> shown_step e y"
  by (cases e) auto

lemma shown_mono: "x \<subseteq> y \<Longrightarrow> shown fxs x \<subseteq> shown fxs y"
  unfolding shown_def by (induction fxs arbitrary: x y) (auto simp: shown_step_mono)

lemma posted_ids_run: "bus_run evs d \<Longrightarrow> posted_ids_of d \<subseteq> shown (calls_of evs) {}"
proof (induction rule: bus_run.induct)
  case (bus_step evs d ev)
  then show ?case
    using posted_ids_exec [of ev d] shown_mono [of _ _ "calls_of [ev]"] by (simp add: calls_of_append shown_append) blast
qed (simp add: posted_ids_of_def dbus_new_def)

lemma posted_ids_run_daemon:
  "bus_run evs d \<Longrightarrow> (\<And>k. EvNotified k 0 \<notin> set evs) \<Longrightarrow> posted_ids_of d = shown (calls_of evs) {} \<and> daemon_up d"
proof (induction rule: bus_run.induct)
  case (bus_step evs d ev)
  then have "posted_ids_of d = shown (calls_of evs) {}" "daemon_up d" "\<And>k. ev \<noteq> EvNotified k 0" by auto
  then show ?case by (simp add: calls_of_append shown_append posted_ids_exec_daemon daemon_up_exec)
qed (simp add: posted_ids_of_def dbus_new_def daemon_up_def)

definition notifier_calls :: "effect list \<Rightarrow> effect list" where
  "notifier_calls fxs = filter (\<lambda>e. case e of FxPost _ \<Rightarrow> True | FxWithdraw _ \<Rightarrow> True | _ \<Rightarrow> False) fxs"

lemma shown_notifier_calls: "shown (notifier_calls fxs) x = shown fxs x"
  unfolding shown_def notifier_calls_def
proof (induction fxs arbitrary: x)
  case (Cons e fxs)
  then show ?case by (cases e) simp_all
qed simp

lemma dbus_posted_ids: "pn_id ` set (dbus_posted d) = posted_ids_of d" if "hm_ok (db_state d)"
  using that by (force simp: dbus_posted_def posted_ids_of_def hm_get_mem)

lemma hm_ok_exec: "hm_ok (db_state d) \<Longrightarrow> hm_ok (db_state (bus_exec ev d))"
  by (cases ev) (auto simp: dbus_post_def dbus_withdraw_def daemon_answers_def task_resumes_def dbus_reconcile_def Let_def
      split: option.splits)

lemma run_hm_ok: "bus_run evs d \<Longrightarrow> hm_ok (db_state d)"
  by (induction rule: bus_run.induct) (simp_all add: dbus_new_def hm_ok_exec)

lemma tracked_posted: "tasks_ok d \<Longrightarrow> owns d (OwnEntry i) n \<Longrightarrow> i \<in> posted_ids_of d"
  by (auto simp: posted_ids_of_def entry_ok_def dest!: tasks_okD(4))

lemma coordinator_mirrors:
  "mirrors (fold (\<lambda>(env, c). run_command env c) cmds (coord_init store prefs rules modes))"
  by (rule mirror.run_inv) (simp add: mirrors_def coord_init_def)

text \<open>
  C16. No approval banner is left behind. Take any run of the coordinator and any interleaving of the notifier
  calls it makes with the post tasks, the daemon's answers, the closes and dismissals. Every banner on the screen has
  exactly one owner that will take it down: the task that posted it, a close on its way, or the entry of a
  pending request. The notifier lists pending requests only, all of them when a daemon answers; and once the
  tasks and closes have run, every banner is that of a pending request.
\<close>

theorem no_banner_is_left_behind:
  assumes "final = fold (\<lambda>(env, c). run_command env c) cmds (coord_init store prefs rules modes)"
    and "bus_run evs d" "posts evs < 2 ^ 64" "calls_of evs = notifier_calls (out final)"
  shows "(\<forall>n \<in> set (db_banners d). \<exists>!w. owns d w n)
    \<and> pn_id ` set (dbus_posted d) \<subseteq> set (hm_keys (pending final))
    \<and> ((\<forall>k. EvNotified k 0 \<notin> set evs) \<longrightarrow> pn_id ` set (dbus_posted d) = set (hm_keys (pending final)))
    \<and> (db_tasks d = [] \<and> db_closing d = [] \<longrightarrow>
        (\<forall>n \<in> set (db_banners d). \<exists>i \<in> set (hm_keys (pending final)). owns d (OwnEntry i) n))"
proof -
  have ok: "tasks_ok d" "ids_ok d" using run_ok assms(2,3) by blast+
  have keys: "shown (calls_of evs) {} = set (hm_keys (pending final))"
    using coordinator_mirrors [of cmds store prefs rules modes] assms(1,4) by (simp add: mirrors_def shown_notifier_calls)
  note posted = dbus_posted_ids [OF run_hm_ok [OF assms(2)]]
  have "i \<in> set (hm_keys (pending final))" if "owns d (OwnEntry i) n" for i n
    using tracked_posted [OF ok(1) that] posted_ids_run [OF assms(2)] keys by blast
  moreover have "\<exists>i. owns d (OwnEntry i) n" if q: "n \<in> set (db_banners d)" "db_tasks d = []" "db_closing d = []" for n
  proof -
    obtain w where "owns d w n" using ids_okD(4) [OF ok(2) q(1)] by blast
    then show ?thesis using q(2,3) by (cases w) auto
  qed
  ultimately show ?thesis
    using ids_okD(2,4) [OF ok(2)] posted_ids_run [OF assms(2)] posted_ids_run_daemon [OF assms(2)] unfolding posted keys by blast
qed

text \<open>One pending request whose banner is up.\<close>

theorem no_banner_is_left_behind_witness:
  "\<exists>evs d. bus_run evs d \<and> calls_of evs = notifier_calls (out demo_pending) \<and> db_tasks d = [] \<and> db_closing d = []
     \<and> db_banners d = [7] \<and> (\<exists>i \<in> set (hm_keys (pending demo_pending)). owns d (OwnEntry i) 7)"
proof -
  let ?cmds = "[(demo_env 10, CHost (HaFrame (InApprovalRequest demo_request)))]"
  let ?evs = "[EvPost demo_request, EvNotified 0 7, EvReconcile 0]"
  have final: "demo_pending = fold (\<lambda>(env, c). run_command env c) ?cmds
      (coord_init (audit_new ''audit.jsonl'') default_ssh_prefs [] [])"
    by (simp add: demo_pending_def demo_init_def)
  let ?t = "\<lparr>pt_id = ''r1'', pt_gen = 0, pt_notif = None\<rparr>"
  let ?e = "\<lparr>en_gen = 0, en_title = notification_title demo_request, en_body = notification_body demo_request,
    en_notif = None, en_withdrawn = False\<rparr>"
  let ?d1 = "dbus_new\<lparr>db_gen := 1, db_state := [(''r1'', ?e)], db_tasks := [(0, ?t)], db_next := 1\<rparr>"
  let ?d2 = "?d1\<lparr>db_tasks := [(0, ?t\<lparr>pt_notif := Some 7\<rparr>)], db_banners := [7], db_used := [7]\<rparr>"
  let ?d = "?d2\<lparr>db_tasks := [], db_state := [(''r1'', ?e\<lparr>en_notif := Some 7\<rparr>)]\<rparr>"
  have id: "ar_id demo_request = ''r1''" by (simp add: demo_request_def)
  have "bus_exec (EvPost demo_request) dbus_new = ?d1" by (simp add: dbus_post_def dbus_new_def Let_def id)
  then have r1: "bus_run [EvPost demo_request] ?d1" using bus_step [OF bus_init, of "EvPost demo_request"] by simp
  have "bus_exec (EvNotified 0 7) ?d1 = ?d2" by (simp add: daemon_answers_def dbus_new_def Let_def)
  then have r2: "bus_run [EvPost demo_request, EvNotified 0 7] ?d2"
    using bus_step [OF r1, of "EvNotified 0 7"] by (simp add: dbus_new_def)
  have "bus_exec (EvReconcile 0) ?d2 = ?d" by (simp add: task_resumes_def dbus_reconcile_def dbus_new_def)
  then have "bus_run ?evs ?d" using bus_step [OF r2, of "EvReconcile 0"] by simp
  moreover have "db_tasks ?d = []" "db_closing ?d = []" "db_banners ?d = [7]" by (simp_all add: dbus_new_def)
  ultimately obtain d where d: "bus_run ?evs d" "db_tasks d = []" "db_closing d = []" "db_banners d = [7]" by blast
  have calls: "calls_of ?evs = notifier_calls (out demo_pending)" by (simp add: demo_pending_state notifier_calls_def)
  have "posts ?evs < 2 ^ 64" by (simp add: posts_def)
  then have "\<exists>i \<in> set (hm_keys (pending demo_pending)). owns d (OwnEntry i) 7"
    using no_banner_is_left_behind [OF final d(1) _ calls] d(2-4) by simp
  then show ?thesis using d calls by blast
qed

end
