(* ===== verification/Actor.thy ===== *)
theory Actor
  imports Coordinator_Theorems "HOL-Library.Multiset"
begin

text \<open>
  The tasks around the coordinator (\<^verbatim>\<open>core/shed-app/src/coordinator.rs\<close>, \<^verbatim>\<open>Coordinator\<close> and \<^verbatim>\<open>run\<close>): the handle
  that callers clone, the unbounded channel of commands, the task that forwards host-agent events,
  the expiry tick, the loop that handles one command at a time and the gate tasks that re-enter
  through the same channel. The other theories take a call of the handle as one atomic command; this
  one shows that callers may.

  \<^item> Of tokio the code uses three things, as its documentation states them: an unbounded \<^verbatim>\<open>mpsc\<close> channel
    hands out the commands in the order they were sent, \<^verbatim>\<open>send\<close> fails exactly when the receiver is gone,
    and a \<^verbatim>\<open>oneshot\<close> receiver sees the value sent or an error once its sender is dropped.
  \<^item> A \<^verbatim>\<open>oneshot\<close> channel is a number; \<^verbatim>\<open>ac_calls\<close> holds what its receiver sees. Number 0 stands for a
    channel whose receiver is dropped at once (the decide a notification action queues).
  \<^item> The state keeps a sender of its own channel (\<^verbatim>\<open>self_tx\<close>), so the loop never ends by itself; it ends
    with its runtime (\<^verbatim>\<open>ActorDies\<close>), which drops the queued commands and the senders in them.
  \<^item> \<^verbatim>\<open>ac_sent\<close> and \<^verbatim>\<open>ac_ran\<close> are histories no operation reads: the commands the channel accepted and those
    the loop handled.
\<close>

section \<open>Channels and the handle\<close>

datatype oneshot = Waiting | Ready answer | Closed

record actor =
  ac_state :: coord
  ac_mailbox :: "command list"
  ac_tasks :: "gate_task list"
  ac_host :: "host_agent_event list"
  ac_next :: reply
  ac_calls :: "reply \<Rightarrow> oneshot"
  ac_alive :: bool
  ac_sent :: "command list"
  ac_ran :: "(cenv \<times> command) list"

fun cmd_reply :: "command \<Rightarrow> reply option" where
  "cmd_reply (CHost ev) = None"
| "cmd_reply (CExpire rep) = rep"
| "cmd_reply (CDecide i choice rep) = Some rep"
| "cmd_reply (CGateResolved i req g choice outcome rep) = Some rep"
| "cmd_reply (CSetSshApproval m p t rep) = Some rep"
| "cmd_reply (CSetPolicyRules rules rep) = Some rep"
| "cmd_reply (CApprovalsList rep) = Some rep"
| "cmd_reply (CActivityList limit rep) = Some rep"
| "cmd_reply (CPolicyList rep) = Some rep"
| "cmd_reply (CNotificationsList rep) = Some rep"
| "cmd_reply (CNotificationInvoke i decision dead rep) = Some rep"
| "cmd_reply (CAuditLogPath rep) = Some rep"
| "cmd_reply (CGateNamespaces rep) = Some rep"
| "cmd_reply (CSshPrefs rep) = Some rep"

text \<open>A sender that is used or dropped settles a receiver that still waits; \<^verbatim>\<open>send\<close> to a dropped receiver is ignored.\<close>

definition settle :: "reply \<Rightarrow> oneshot \<Rightarrow> actor \<Rightarrow> actor" where
  "settle r v a = (if ac_calls a r = Waiting then a\<lparr>ac_calls := (ac_calls a)(r := v)\<rparr> else a)"

definition drop_command :: "command \<Rightarrow> actor \<Rightarrow> actor" where
  "drop_command c a = (case cmd_reply c of Some r \<Rightarrow> settle r Closed a | None \<Rightarrow> a)"

definition oneshot_channel :: "actor \<Rightarrow> reply \<times> actor" where
  "oneshot_channel a =
     (ac_next a, a\<lparr>ac_next := Suc (ac_next a), ac_calls := (ac_calls a)(ac_next a := Waiting)\<rparr>)"

definition mpsc_send :: "command \<Rightarrow> actor \<Rightarrow> actor" where
  "mpsc_send c a =
     (if ac_alive a then a\<lparr>ac_mailbox := ac_mailbox a @ [c], ac_sent := ac_sent a @ [c]\<rparr>
      else drop_command c a)"

definition co_request :: "(reply \<Rightarrow> command) \<Rightarrow> actor \<Rightarrow> reply \<times> actor" where
  "co_request mk a = (let (r, a) = oneshot_channel a in (r, mpsc_send (mk r) a))"

definition co_await :: "reply \<Rightarrow> actor \<Rightarrow> answer option option" where
  "co_await r a = (case ac_calls a r of Waiting \<Rightarrow> None | Ready x \<Rightarrow> Some (Some x) | Closed \<Rightarrow> Some None)"

text \<open>
  A method sends its command with a fresh channel and awaits it; when the actor is gone (the send
  fails, or the sender is dropped) the method returns its default.
\<close>

datatype handle_call =
    KDecideApproval string approval_choice
  | KExpireNow
  | KSetSshApproval "approval_method option" "ssh_approval_policy option" "string option"
  | KSetPolicyRules "policy_rule list"
  | KApprovalsList
  | KActivityList nat
  | KPolicyList
  | KNotificationsList
  | KNotificationInvoke string approval_decision
  | KAuditLogPath
  | KGateNamespaces
  | KSshPrefs

definition co_decide_approval :: "string \<Rightarrow> approval_choice \<Rightarrow> actor \<Rightarrow> reply \<times> actor" where
  "co_decide_approval i choice = co_request (CDecide i choice)"

definition co_expire_now :: "actor \<Rightarrow> reply \<times> actor" where
  "co_expire_now = co_request (\<lambda>r. CExpire (Some r))"

definition co_set_ssh_approval ::
  "approval_method option \<Rightarrow> ssh_approval_policy option \<Rightarrow> string option \<Rightarrow> actor \<Rightarrow> reply \<times> actor" where
  "co_set_ssh_approval m p t = co_request (CSetSshApproval m p t)"

definition co_set_policy_rules :: "policy_rule list \<Rightarrow> actor \<Rightarrow> reply \<times> actor" where
  "co_set_policy_rules rules = co_request (CSetPolicyRules rules)"

definition co_approvals_list :: "actor \<Rightarrow> reply \<times> actor" where
  "co_approvals_list = co_request CApprovalsList"

definition co_activity_list :: "nat \<Rightarrow> actor \<Rightarrow> reply \<times> actor" where
  "co_activity_list limit = co_request (CActivityList limit)"

definition co_policy_list :: "actor \<Rightarrow> reply \<times> actor" where
  "co_policy_list = co_request CPolicyList"

definition co_notifications_list :: "actor \<Rightarrow> reply \<times> actor" where
  "co_notifications_list = co_request CNotificationsList"

definition co_notification_invoke :: "string \<Rightarrow> approval_decision \<Rightarrow> actor \<Rightarrow> reply \<times> actor" where
  "co_notification_invoke i decision = co_request (CNotificationInvoke i decision 0)"

definition co_audit_log_path :: "actor \<Rightarrow> reply \<times> actor" where
  "co_audit_log_path = co_request CAuditLogPath"

definition co_gate_namespaces :: "actor \<Rightarrow> reply \<times> actor" where
  "co_gate_namespaces = co_request CGateNamespaces"

definition co_ssh_prefs :: "actor \<Rightarrow> reply \<times> actor" where
  "co_ssh_prefs = co_request CSshPrefs"

fun coordinator_call :: "handle_call \<Rightarrow> actor \<Rightarrow> reply \<times> actor" where
  "coordinator_call (KDecideApproval i choice) = co_decide_approval i choice"
| "coordinator_call KExpireNow = co_expire_now"
| "coordinator_call (KSetSshApproval m p t) = co_set_ssh_approval m p t"
| "coordinator_call (KSetPolicyRules rules) = co_set_policy_rules rules"
| "coordinator_call KApprovalsList = co_approvals_list"
| "coordinator_call (KActivityList limit) = co_activity_list limit"
| "coordinator_call KPolicyList = co_policy_list"
| "coordinator_call KNotificationsList = co_notifications_list"
| "coordinator_call (KNotificationInvoke i decision) = co_notification_invoke i decision"
| "coordinator_call KAuditLogPath = co_audit_log_path"
| "coordinator_call KGateNamespaces = co_gate_namespaces"
| "coordinator_call KSshPrefs = co_ssh_prefs"

fun call_default :: "handle_call \<Rightarrow> answer" where
  "call_default (KDecideApproval i choice) = AnsUnit"
| "call_default KExpireNow = AnsUnit"
| "call_default (KSetSshApproval m p t) = AnsUnit"
| "call_default (KSetPolicyRules rules) = AnsUnit"
| "call_default KApprovalsList = AnsItems []"
| "call_default (KActivityList limit) = AnsEntries []"
| "call_default KPolicyList = AnsRules []"
| "call_default KNotificationsList = AnsNotifications []"
| "call_default (KNotificationInvoke i decision) = AnsBool False"
| "call_default KAuditLogPath = AnsText []"
| "call_default KGateNamespaces = AnsTexts []"
| "call_default KSshPrefs = AnsPrefs default_ssh_prefs"

definition call_result :: "handle_call \<Rightarrow> reply \<Rightarrow> actor \<Rightarrow> answer option" where
  "call_result k r a = map_option (\<lambda>v. unwrap_or v (call_default k)) (co_await r a)"

section \<open>The tasks\<close>

definition actor_spawn ::
  "audit_store \<Rightarrow> ssh_prefs \<Rightarrow> policy_rule list \<Rightarrow> (string, approval_decision) hmap \<Rightarrow> actor" where
  "actor_spawn store prefs rules modes =
     \<lparr>ac_state = coord_init store prefs rules modes, ac_mailbox = [], ac_tasks = [], ac_host = [],
      ac_next = 1, ac_calls = (\<lambda>_. Closed), ac_alive = True, ac_sent = [], ac_ran = []\<rparr>"

definition forward_event :: "actor \<Rightarrow> actor" where
  "forward_event a =
     (case ac_host a of [] \<Rightarrow> a
      | ev # evs \<Rightarrow> mpsc_send (CHost ev) (a\<lparr>ac_host := (if ac_alive a then evs else [])\<rparr>))"

definition expiry_tick :: "actor \<Rightarrow> actor" where
  "expiry_tick = mpsc_send (CExpire None)"

fun apply_effect :: "effect \<Rightarrow> actor \<Rightarrow> actor" where
  "apply_effect (FxReply r ans) a = settle r (Ready ans) a"
| "apply_effect (FxSpawnGate p i req g choice r) a =
     a\<lparr>ac_tasks := ac_tasks a @ [\<lparr>gt_id = i, gt_request = req, gt_gate = g, gt_choice = choice, gt_reply = r\<rparr>]\<rparr>"
| "apply_effect (FxSelfSend c) a = mpsc_send c a"
| "apply_effect _ a = a"

definition run_loop_turn :: "cenv \<Rightarrow> actor \<Rightarrow> actor" where
  "run_loop_turn env a =
     (case ac_mailbox a of [] \<Rightarrow> a
      | c # cs \<Rightarrow> fold apply_effect (new_fx env c (ac_state a))
          (a\<lparr>ac_mailbox := cs, ac_state := run_command env c (ac_state a), ac_ran := ac_ran a @ [(env, c)]\<rparr>))"

definition gate_task_returns :: "gate_task \<Rightarrow> auth_outcome \<Rightarrow> actor \<Rightarrow> actor" where
  "gate_task_returns t oc a =
     (if t \<in> set (ac_tasks a) then mpsc_send (resolve_command t oc) (a\<lparr>ac_tasks := remove1 t (ac_tasks a)\<rparr>) else a)"

definition actor_dies :: "actor \<Rightarrow> actor" where
  "actor_dies a = fold drop_command (ac_mailbox a) (a\<lparr>ac_alive := False, ac_mailbox := []\<rparr>)"

datatype actor_action =
    ACall handle_call
  | AHostEvent host_agent_event
  | AForward
  | ATick
  | ARun cenv
  | AGate gate_task auth_outcome
  | ADies

fun actor_exec :: "actor_action \<Rightarrow> actor \<Rightarrow> actor" where
  "actor_exec (ACall k) a = snd (coordinator_call k a)"
| "actor_exec (AHostEvent ev) a = a\<lparr>ac_host := ac_host a @ [ev]\<rparr>"
| "actor_exec AForward a = forward_event a"
| "actor_exec ATick a = expiry_tick a"
| "actor_exec (ARun env) a = run_loop_turn env a"
| "actor_exec (AGate t oc) a = gate_task_returns t oc a"
| "actor_exec ADies a = actor_dies a"

section \<open>What a command does with its reply channel\<close>

fun wf_command :: "command \<Rightarrow> bool" where
  "wf_command (CNotificationInvoke i decision dead rep) \<longleftrightarrow> dead = 0"
| "wf_command _ \<longleftrightarrow> True"

fun fx_holds :: "reply \<Rightarrow> effect \<Rightarrow> nat" where
  "fx_holds r (FxReply q ans) = of_bool (q = r)"
| "fx_holds r (FxSpawnGate p i req g choice q) = of_bool (q = r)"
| "fx_holds r (FxSelfSend c) = of_bool (cmd_reply c = Some r)"
| "fx_holds r _ = 0"

definition fxs_hold :: "reply \<Rightarrow> effect list \<Rightarrow> nat" where
  "fxs_hold r fxs = sum_list (map (fx_holds r) fxs)"

lemma fxs_hold_simps [simp]:
  "fxs_hold r [] = 0" "fxs_hold r (e # fxs) = fx_holds r e + fxs_hold r fxs"
  "fxs_hold r (xs @ ys) = fxs_hold r xs + fxs_hold r ys"
  by (simp_all add: fxs_hold_def)

lemma fxs_hold_response [simp]: "fxs_hold r (response_fx env req d b p sc t) = 0"
  by (simp add: response_fx_def)

lemma fxs_hold_finish [simp]: "fxs_hold r (out (finish_decide env i req g choice oc s)) = fxs_hold r (out s)"
  by (rule finish_decide_out [of env i req g choice oc s]) simp

lemma fxs_hold_expire [simp]: "fxs_hold r (out (expire_pending env s)) = fxs_hold r (out s)"
proof -
  have "fxs_hold r (concat (map (expire_fx env) rs)) = 0" for rs
    by (induction rs) (simp_all add: expire_fx_def)
  then show ?thesis by (simp add: expire_pending_result(1))
qed

lemma fxs_hold_set_ssh [simp]: "fxs_hold r (out (set_ssh_approval env m p t s)) = fxs_hold r (out s)"
proof -
  have one: "fxs_hold r (out (reevaluate_one env gs j u)) = fxs_hold r (out u)" for gs j u
    by (cases rule: reevaluate_one_cases [of env gs j u])
      (simp_all add: reevaluate_one_prompt reevaluate_one_resolve)
  have "fxs_hold r (out (fold (reevaluate_one env gs) js u)) = fxs_hold r (out u)" for gs js u
    by (induction js arbitrary: u) (simp_all add: one)
  moreover obtain s1 gs js where
      "set_ssh_approval env m p t s = fx (FxEmit EvApprovals) (fold (reevaluate_one env gs) js s1)" "out s1 = out s"
    using set_ssh_approval_unfold by blast
  ultimately show ?thesis by simp
qed

lemma fxs_hold_host [simp]: "fxs_hold r (out (handle_host_event env ev s)) = fxs_hold r (out s)"
proof -
  have w: "fxs_hold r (out (fold (\<lambda>i. fx (FxWithdraw i)) js u)) = fxs_hold r (out u)" for js and u :: coord
    by (induction js arbitrary: u) auto
  show ?thesis
    by (auto simp: handle_host_event_def handle_approval_request_def Let_def w audit_entry_append_def
        split: host_agent_event.splits host_agent_inbound.splits policy_action.splits)
qed

lemma fxs_hold_begin:
  "fxs_hold r (out (begin_decide env i choice rep s)) = fxs_hold r (out s) + of_bool (rep = r)"
  by (simp add: begin_decide_def split: option.splits)

text \<open>
  A handled command answers its reply channel, or hands it to a gate task or to a queued command;
  exactly one of these happens.
\<close>

lemma reply_conserved:
  assumes "wf_command c" "r \<noteq> 0"
  shows "fxs_hold r (new_fx env c s) = of_bool (cmd_reply c = Some r)"
proof -
  have "fxs_hold r (out (run_command env c s)) = fxs_hold r (out s) + of_bool (cmd_reply c = Some r)"
    using assms by (cases c) (auto simp: Let_def fxs_hold_begin split: option.splits)
  then show ?thesis by (simp add: run_command_out)
qed

end
