(* ===== verification/Actor_Safety.thy ===== *)
theory Actor_Safety
  imports Actor
begin

text \<open>
  What the mailbox of the coordinator guarantees its callers: it is an atomic coordinator
  (\<^verbatim>\<open>actor_refines_system\<close>), every call takes effect at one moment between its start and its return
  (\<^verbatim>\<open>calls_are_linearizable\<close>), and every call returns (\<^verbatim>\<open>every_call_returns\<close>).
\<close>

section \<open>Field lemmas\<close>

fun self_sent :: "effect list \<Rightarrow> command list" where
  "self_sent [] = []"
| "self_sent (FxSelfSend c # fxs) = c # self_sent fxs"
| "self_sent (_ # fxs) = self_sent fxs"

fun call_command :: "handle_call \<Rightarrow> reply \<Rightarrow> command" where
  "call_command (KDecideApproval i choice) r = CDecide i choice r"
| "call_command KExpireNow r = CExpire (Some r)"
| "call_command (KSetSshApproval m p t) r = CSetSshApproval m p t r"
| "call_command (KSetPolicyRules rules) r = CSetPolicyRules rules r"
| "call_command KApprovalsList r = CApprovalsList r"
| "call_command (KActivityList limit) r = CActivityList limit r"
| "call_command KPolicyList r = CPolicyList r"
| "call_command KNotificationsList r = CNotificationsList r"
| "call_command (KNotificationInvoke i decision) r = CNotificationInvoke i decision 0 r"
| "call_command KAuditLogPath r = CAuditLogPath r"
| "call_command KGateNamespaces r = CGateNamespaces r"
| "call_command KSshPrefs r = CSshPrefs r"

lemma call_command_simps [simp]:
  "cmd_reply (call_command k r) = Some r" "wf_command (call_command k r)" "\<not> is_gate_resolved (call_command k r)"
  by (cases k; simp)+

lemma coordinator_call_eq:
  "coordinator_call k a = (ac_next a,
     mpsc_send (call_command k (ac_next a)) (a\<lparr>ac_next := Suc (ac_next a), ac_calls := (ac_calls a)(ac_next a := Waiting)\<rparr>))"
proof -
  have "coordinator_call k = co_request (call_command k)"
    by (cases k) (simp_all add: co_decide_approval_def co_expire_now_def co_set_ssh_approval_def co_set_policy_rules_def
        co_approvals_list_def co_activity_list_def co_policy_list_def co_notifications_list_def
        co_notification_invoke_def co_audit_log_path_def co_gate_namespaces_def co_ssh_prefs_def, simp_all add: fun_eq_iff co_request_def)
  then show ?thesis by (simp add: co_request_def oneshot_channel_def)
qed

declare coordinator_call.simps [simp del]

lemma settle_fields [simp]:
  "ac_state (settle r v a) = ac_state a" "ac_mailbox (settle r v a) = ac_mailbox a"
  "ac_tasks (settle r v a) = ac_tasks a" "ac_host (settle r v a) = ac_host a" "ac_next (settle r v a) = ac_next a"
  "ac_alive (settle r v a) = ac_alive a" "ac_sent (settle r v a) = ac_sent a" "ac_ran (settle r v a) = ac_ran a"
  "ac_calls (settle r v a) q = (if q = r \<and> ac_calls a r = Waiting then v else ac_calls a q)"
  by (simp_all add: settle_def)

lemma drop_command_fields [simp]:
  "ac_state (drop_command c a) = ac_state a" "ac_mailbox (drop_command c a) = ac_mailbox a"
  "ac_tasks (drop_command c a) = ac_tasks a" "ac_host (drop_command c a) = ac_host a"
  "ac_next (drop_command c a) = ac_next a" "ac_alive (drop_command c a) = ac_alive a"
  "ac_sent (drop_command c a) = ac_sent a" "ac_ran (drop_command c a) = ac_ran a"
  "ac_calls (drop_command c a) q = (if cmd_reply c = Some q \<and> ac_calls a q = Waiting then Closed else ac_calls a q)"
  by (auto simp: drop_command_def split: option.splits)

lemma fold_drop_fields [simp]:
  "ac_state (fold drop_command cs a) = ac_state a" "ac_mailbox (fold drop_command cs a) = ac_mailbox a"
  "ac_tasks (fold drop_command cs a) = ac_tasks a" "ac_next (fold drop_command cs a) = ac_next a"
  "ac_alive (fold drop_command cs a) = ac_alive a" "ac_sent (fold drop_command cs a) = ac_sent a"
  "ac_ran (fold drop_command cs a) = ac_ran a"
  "ac_calls (fold drop_command cs a) q =
     (if (\<exists>c \<in> set cs. cmd_reply c = Some q) \<and> ac_calls a q = Waiting then Closed else ac_calls a q)"
  by (induction cs arbitrary: a) auto

lemma mpsc_send_fields [simp]:
  "ac_state (mpsc_send c a) = ac_state a" "ac_tasks (mpsc_send c a) = ac_tasks a"
  "ac_host (mpsc_send c a) = ac_host a" "ac_next (mpsc_send c a) = ac_next a" "ac_alive (mpsc_send c a) = ac_alive a"
  "ac_ran (mpsc_send c a) = ac_ran a"
  "ac_mailbox (mpsc_send c a) = ac_mailbox a @ (if ac_alive a then [c] else [])"
  "ac_sent (mpsc_send c a) = ac_sent a @ (if ac_alive a then [c] else [])"
  "ac_calls (mpsc_send c a) q =
     (if \<not> ac_alive a \<and> cmd_reply c = Some q \<and> ac_calls a q = Waiting then Closed else ac_calls a q)"
  by (simp_all add: mpsc_send_def)

lemma deliver_fields [simp]:
  "ac_state (fold apply_effect fxs a) = ac_state a" "ac_next (fold apply_effect fxs a) = ac_next a"
  "ac_host (fold apply_effect fxs a) = ac_host a"
  "ac_alive (fold apply_effect fxs a) = ac_alive a" "ac_ran (fold apply_effect fxs a) = ac_ran a"
  "ac_tasks (fold apply_effect fxs a) = ac_tasks a @ spawned fxs"
  "ac_mailbox (fold apply_effect fxs a) = ac_mailbox a @ (if ac_alive a then self_sent fxs else [])"
  "ac_sent (fold apply_effect fxs a) = ac_sent a @ (if ac_alive a then self_sent fxs else [])"
proof (induction fxs arbitrary: a)
  case (Cons e fxs)
  { case 1 show ?case using Cons by (cases e) simp_all
  next case 2 show ?case using Cons by (cases e) simp_all
  next case 3 show ?case using Cons by (cases e) simp_all
  next case 4 show ?case using Cons by (cases e) simp_all
  next case 5 show ?case using Cons by (cases e) simp_all
  next case 6 show ?case using Cons by (cases e) simp_all
  next case 7 show ?case using Cons by (cases e) simp_all
  next case 8 show ?case using Cons by (cases e) simp_all }
qed simp_all

section \<open>Effects of one command\<close>

lemma self_sent_append [simp]: "self_sent (xs @ ys) = self_sent xs @ self_sent ys"
  by (induction xs rule: self_sent.induct) simp_all

lemma self_sent_in: "c \<in> set (self_sent fxs) \<longleftrightarrow> FxSelfSend c \<in> set fxs"
  by (induction fxs rule: self_sent.induct) auto

text \<open>Only a notification action queues a command, one decide whose caller does not wait.\<close>

lemma self_sent_quiet:
  "self_sent (out (finish_decide env i req g choice oc s)) = self_sent (out s)"
  "self_sent (out (expire_pending env s)) = self_sent (out s)"
  "self_sent (out (set_ssh_approval env m p t s)) = self_sent (out s)"
  "self_sent (out (handle_host_event env ev s)) = self_sent (out s)"
proof -
  have r [simp]: "self_sent (response_fx env req d b l sc t') = []" for req d b l sc t'
    by (simp add: response_fx_def)
  show "self_sent (out (finish_decide env i req g choice oc s)) = self_sent (out s)"
    by (rule finish_decide_out [of env i req g choice oc s]) simp
  have "self_sent (concat (map (expire_fx env) rs)) = []" for rs
    by (induction rs) (simp_all add: expire_fx_def)
  then show "self_sent (out (expire_pending env s)) = self_sent (out s)" by (simp add: expire_pending_result(1))
  have one: "self_sent (out (reevaluate_one env gs j u)) = self_sent (out u)" for gs j u
    by (cases rule: reevaluate_one_cases [of env gs j u])
      (simp_all add: reevaluate_one_prompt reevaluate_one_resolve)
  have "self_sent (out (fold (reevaluate_one env gs) js u)) = self_sent (out u)" for gs js u
    by (induction js arbitrary: u) (simp_all add: one)
  then show "self_sent (out (set_ssh_approval env m p t s)) = self_sent (out s)"
    using set_ssh_approval_unfold [of env m p t s] by auto
  have w: "self_sent (out (fold (\<lambda>i. fx (FxWithdraw i)) js u)) = self_sent (out u)" for js and u :: coord
    by (induction js arbitrary: u) auto
  show "self_sent (out (handle_host_event env ev s)) = self_sent (out s)"
    by (auto simp: handle_host_event_def handle_approval_request_def Let_def w audit_entry_append_def
        split: host_agent_event.splits host_agent_inbound.splits policy_action.splits)
qed

lemma self_sent_new_fx:
  "self_sent (new_fx env c s) = []
   \<or> (\<exists>i decision dead rep choice. c = CNotificationInvoke i decision dead rep \<and> self_sent (new_fx env c s) = [CDecide i choice dead])"
proof -
  have e: "self_sent (out (run_command env c s)) = self_sent (out s) @ self_sent (new_fx env c s)"
    by (simp add: run_command_out)
  show ?thesis
    using e by (cases c) (auto simp: Let_def self_sent_quiet begin_decide_def new_fx_def split: option.splits if_splits)
qed

lemma spawned_resolved: "spawned (new_fx env (CGateResolved i req g choice oc rep) s) = []"
  using spawned_new_fx [of env "CGateResolved i req g choice oc rep" s] by simp

lemma spawned_by:
  assumes "t \<in> set (spawned (new_fx env c s))"
  shows "c = CDecide (gt_id t) (gt_choice t) (gt_reply t)"
proof (cases c)
  case (CDecide i choice rep)
  have "spawned (out s) @ spawned (new_fx env c s) = spawned (out (run_command env c s))"
    by (rule spawned_new_fx [symmetric])
  then show ?thesis using assms CDecide by (auto simp: begin_decide_def split: option.splits if_splits)
qed (use assms external_gates(1) [of c env s] spawned_resolved in auto)

section \<open>Who holds a reply channel\<close>

definition mail_holds :: "reply \<Rightarrow> command list \<Rightarrow> nat" where
  "mail_holds r cs = length (filter (\<lambda>c. cmd_reply c = Some r) cs)"

definition tasks_hold :: "reply \<Rightarrow> gate_task list \<Rightarrow> nat" where
  "tasks_hold r ts = length (filter (\<lambda>t. gt_reply t = r) ts)"

definition holders :: "reply \<Rightarrow> actor \<Rightarrow> nat" where
  "holders r a = mail_holds r (ac_mailbox a) + tasks_hold r (ac_tasks a)"

lemma holds_simps [simp]:
  "mail_holds r [] = 0" "mail_holds r (c # cs) = of_bool (cmd_reply c = Some r) + mail_holds r cs"
  "mail_holds r (cs @ ds) = mail_holds r cs + mail_holds r ds"
  "tasks_hold r [] = 0" "tasks_hold r (t # ts) = of_bool (gt_reply t = r) + tasks_hold r ts"
  "tasks_hold r (ts @ us) = tasks_hold r ts + tasks_hold r us"
  by (simp_all add: mail_holds_def tasks_hold_def)

lemma holds_none:
  "mail_holds r cs = 0 \<longleftrightarrow> (\<forall>c \<in> set cs. cmd_reply c \<noteq> Some r)" "tasks_hold r ts = 0 \<longleftrightarrow> (\<forall>t \<in> set ts. gt_reply t \<noteq> r)"
  by (simp_all add: mail_holds_def tasks_hold_def filter_empty_conv)

lemma tasks_hold_remove1:
  "t \<in> set ts \<Longrightarrow> tasks_hold r ts = tasks_hold r (remove1 t ts) + of_bool (gt_reply t = r)"
  by (induction ts) auto

text \<open>
  A caller waits exactly while one queued command or one gate task holds its channel; channels not
  yet made have no holder.
\<close>

definition actor_inv :: "actor \<Rightarrow> bool" where
  "actor_inv a \<longleftrightarrow> list_all wf_command (ac_mailbox a) \<and> 0 < ac_next a \<and> ac_calls a 0 = Closed
     \<and> (\<forall>r \<ge> ac_next a. ac_calls a r = Closed) \<and> (\<not> ac_alive a \<longrightarrow> ac_mailbox a = [])
     \<and> (\<forall>r. r \<noteq> 0 \<longrightarrow> holders r a = of_bool (ac_calls a r = Waiting))"

lemma actor_invD:
  assumes "actor_inv a"
  shows "list_all wf_command (ac_mailbox a)" "0 < ac_next a" "ac_calls a 0 = Closed"
    "ac_next a \<le> r \<Longrightarrow> ac_calls a r = Closed" "\<not> ac_alive a \<Longrightarrow> ac_mailbox a = []"
    "r \<noteq> 0 \<Longrightarrow> holders r a = of_bool (ac_calls a r = Waiting)"
  using assms by (auto simp: actor_inv_def)

lemma inv_spawn: "actor_inv (actor_spawn store prefs rules modes)"
  by (simp add: actor_inv_def actor_spawn_def holders_def)

lemma inv_call:
  assumes "actor_inv a"
  shows "actor_inv (snd (coordinator_call k a))"
proof -
  note inv = actor_invD [OF assms]
  have "holders r (snd (coordinator_call k a)) = of_bool (ac_calls (snd (coordinator_call k a)) r = Waiting)" if "r \<noteq> 0" for r
    using inv(4) [of r] inv(6) [OF that]
    by (auto simp: coordinator_call_eq holders_def of_bool_def split: if_splits)
  then show ?thesis using inv by (auto simp: actor_inv_def coordinator_call_eq)
qed

lemma inv_send:
  assumes "actor_inv a" "cmd_reply c = None" "wf_command c"
  shows "actor_inv (mpsc_send c a)"
  using assms by (auto simp: actor_inv_def holders_def)

lemma inv_forward: "actor_inv a \<Longrightarrow> actor_inv (forward_event a)"
  unfolding forward_event_def
  by (cases "ac_host a") (auto intro!: inv_send simp: actor_inv_def holders_def)

lemma inv_gate:
  assumes "actor_inv a"
  shows "actor_inv (gate_task_returns t oc a)"
proof (cases "t \<in> set (ac_tasks a)")
  case True
  note inv = actor_invD [OF assms]
  have "holders r (gate_task_returns t oc a) = of_bool (ac_calls (gate_task_returns t oc a) r = Waiting)" if "r \<noteq> 0" for r
    using inv(6) [OF that] tasks_hold_remove1 [OF True, of r] True
    by (auto simp: gate_task_returns_def holders_def resolve_command_def of_bool_def split: if_splits)
  then show ?thesis using inv True by (auto simp: actor_inv_def gate_task_returns_def resolve_command_def)
qed (simp add: gate_task_returns_def assms)

lemma inv_dies:
  assumes "actor_inv a"
  shows "actor_inv (actor_dies a)"
proof -
  note inv = actor_invD [OF assms]
  have "holders r (actor_dies a) = of_bool (ac_calls (actor_dies a) r = Waiting)" if "r \<noteq> 0" for r
    using inv(6) [OF that] holds_none(1) [of r "ac_mailbox a"]
    by (auto simp: actor_dies_def holders_def of_bool_def split: if_splits)
  then show ?thesis using inv by (auto simp: actor_inv_def actor_dies_def)
qed

lemma deliver_balance:
  assumes "ac_alive a" "holders r a + fxs_hold r fxs = of_bool (ac_calls a r = Waiting)"
  shows "holders r (fold apply_effect fxs a) = of_bool (ac_calls (fold apply_effect fxs a) r = Waiting)"
  using assms
proof (induction fxs arbitrary: a)
  case (Cons e fxs)
  have "ac_alive (apply_effect e a)" using Cons.prems(1) by (cases e) simp_all
  moreover have "holders r (apply_effect e a) + fxs_hold r fxs = of_bool (ac_calls (apply_effect e a) r = Waiting)"
    using Cons.prems by (cases e) (auto simp: holders_def of_bool_def split: if_splits)
  ultimately show ?case using Cons.IH by simp
qed simp

lemma deliver_calls:
  "ac_calls (fold apply_effect fxs a) r \<noteq> ac_calls a r \<Longrightarrow> ac_calls a r = Waiting"
proof (induction fxs arbitrary: a)
  case (Cons e fxs)
  have "ac_calls (apply_effect e a) r \<noteq> ac_calls a r \<Longrightarrow> ac_calls a r = Waiting" by (cases e) (auto split: if_splits)
  then show ?case using Cons by (metis fold_simps(2))
qed simp

lemma inv_run: "actor_inv a \<Longrightarrow> actor_inv (run_loop_turn env a)"
proof (cases "ac_mailbox a")
  case (Cons c cs)
  assume a: "actor_inv a"
  note inv = actor_invD [OF a]
  let ?fxs = "new_fx env c (ac_state a)"
  let ?b = "a\<lparr>ac_mailbox := cs, ac_state := run_command env c (ac_state a), ac_ran := ac_ran a @ [(env, c)]\<rparr>"
  have alive: "ac_alive ?b" using inv(5) Cons by auto
  have wf: "wf_command c" using inv(1) Cons by simp
  have "holders r (fold apply_effect ?fxs ?b) = of_bool (ac_calls (fold apply_effect ?fxs ?b) r = Waiting)" if "r \<noteq> 0" for r
    by (rule deliver_balance [OF alive])
      (use inv(6) [OF that] reply_conserved [OF wf that, of env "ac_state a"] Cons in \<open>auto simp: holders_def of_bool_def split: if_splits\<close>)
  moreover have "list_all wf_command (self_sent ?fxs)" using self_sent_new_fx [of env c "ac_state a"] by auto
  moreover have "ac_calls (fold apply_effect ?fxs ?b) r = ac_calls a r" if "ac_calls a r = Closed" for r
    using deliver_calls [of ?fxs ?b r] that by auto
  ultimately show ?thesis using inv Cons alive by (auto simp: actor_inv_def run_loop_turn_def)
qed (simp add: run_loop_turn_def)

lemma actor_exec_inv: "actor_inv a \<Longrightarrow> actor_inv (actor_exec op a)"
  by (cases op) (auto simp: inv_call inv_forward inv_run inv_gate inv_dies expiry_tick_def intro!: inv_send,
      simp add: actor_inv_def holders_def)

interpretation mailbox: machine actor_exec actor_inv
  by unfold_locales (rule actor_exec_inv)

lemma actor_reached_inv: "actor_inv (fold actor_exec ops (actor_spawn store prefs rules modes))"
  by (rule mailbox.run_inv [OF inv_spawn])

section \<open>The actor is an atomic coordinator\<close>

abbreviation run_all :: "(cenv \<times> command) list \<Rightarrow> coord \<Rightarrow> coord" where
  "run_all \<equiv> fold (\<lambda>(env, c). run_command env c)"

fun queued :: "command list \<Rightarrow> gate_task list" where
  "queued [] = []"
| "queued (CGateResolved i req g choice oc rep # cs) =
     \<lparr>gt_id = i, gt_request = req, gt_gate = g, gt_choice = choice, gt_reply = rep\<rparr> # queued cs"
| "queued (_ # cs) = queued cs"

lemma queued_append [simp]: "queued (cs @ ds) = queued cs @ queued ds"
  by (induction cs rule: queued.induct) simp_all

lemma queued_other: "\<not> is_gate_resolved c \<Longrightarrow> queued (c # cs) = queued cs"
  by (cases c) simp_all

lemma queued_resolve [simp]: "queued (resolve_command t oc # cs) = t # queued cs"
  by (simp add: resolve_command_def)

lemma gate_resolved_task:
  assumes "is_gate_resolved c"
  obtains t oc where "c = resolve_command t oc"
  using assms that [of "\<lparr>gt_id = i, gt_request = r, gt_gate = g, gt_choice = ch, gt_reply = rep\<rparr>" oc for i r g ch oc rep]
  by (cases c) (auto simp: resolve_command_def)

definition simulates :: "actor \<Rightarrow> sys \<Rightarrow> bool" where
  "simulates a y \<longleftrightarrow> sys_reachable y \<and> sy_coord y = ac_state a
     \<and> mset (ac_tasks a) + mset (queued (ac_mailbox a)) \<subseteq># mset (sy_gates y)
     \<and> (ac_alive a \<longrightarrow> mset (sy_gates y) = mset (ac_tasks a) + mset (queued (ac_mailbox a)))"

lemma simulates_same:
  assumes "simulates a y" "ac_state b = ac_state a" "ac_alive b \<Longrightarrow> ac_alive a"
    "ac_alive a \<Longrightarrow> ac_alive b \<Longrightarrow> mset (ac_tasks b) + mset (queued (ac_mailbox b)) = mset (ac_tasks a) + mset (queued (ac_mailbox a))"
    "mset (ac_tasks b) + mset (queued (ac_mailbox b)) \<subseteq># mset (ac_tasks a) + mset (queued (ac_mailbox a))"
  shows "simulates b y"
  using assms by (auto simp: simulates_def intro: subset_mset.order_trans)

lemma simulates_send:
  "simulates a y \<Longrightarrow> \<not> is_gate_resolved c \<Longrightarrow> simulates (mpsc_send c a) y"
  by (erule simulates_same) (auto simp: queued_other)

lemma simulates_call: "simulates a y \<Longrightarrow> simulates (snd (coordinator_call k a)) y"
  unfolding coordinator_call_eq snd_conv
  by (rule simulates_send) (auto elim: simulates_same)

lemma simulates_forward: "simulates a y \<Longrightarrow> simulates (forward_event a) y"
  unfolding forward_event_def
  by (cases "ac_host a") (auto intro!: simulates_send elim: simulates_same)

lemma simulates_gate: "simulates a y \<Longrightarrow> simulates (gate_task_returns t oc a) y"
  unfolding gate_task_returns_def
  by (auto elim!: simulates_same simp: mset_remove1 diff_union_single_conv subset_mset.add_increasing2)

lemma simulates_dies: "simulates a y \<Longrightarrow> simulates (actor_dies a) y"
  by (erule simulates_same) (auto simp: actor_dies_def)

lemma simulates_run:
  assumes sim: "simulates a y" and inv: "actor_inv a" and Cons: "ac_mailbox a = c # cs"
  shows "\<exists>y'. sys_step y env c y' \<and> simulates (run_loop_turn env a) y'"
proof -
  have alive: "ac_alive a" using actor_invD(5) [OF inv] Cons by auto
  note R = sim [unfolded simulates_def]
  have q: "queued (self_sent (new_fx env c (ac_state a))) = []"
    using self_sent_new_fx [of env c "ac_state a"] by auto
  show ?thesis
  proof (cases "is_gate_resolved c")
    case True
    then obtain t oc where c: "c = resolve_command t oc" by (rule gate_resolved_task)
    have t: "t \<in> set (sy_gates y)" using R alive Cons c
      by (metis add.commute in_multiset_in_set mset.simps(2) queued_resolve union_iff union_single_eq_member)
    let ?y = "\<lparr>sy_coord = run_command env c (sy_coord y), sy_gates = remove1 t (sy_gates y)\<rparr>"
    have step: "sys_step y env c ?y" by (rule sys_step.resolve [OF t c])
    then have "sys_reachable ?y" using R sys_reachable.step by blast
    moreover have "spawned (new_fx env c (ac_state a)) = []" unfolding c resolve_command_def by (rule spawned_resolved)
    ultimately have "simulates (run_loop_turn env a) ?y"
      using R Cons alive c q by (simp add: simulates_def run_loop_turn_def)
    then show ?thesis using step by blast
  next
    case False
    let ?y = "\<lparr>sy_coord = run_command env c (sy_coord y), sy_gates = sy_gates y @ spawned (new_fx env c (sy_coord y))\<rparr>"
    have step: "sys_step y env c ?y" by (rule sys_step.external [OF False])
    then have "sys_reachable ?y" using R sys_reachable.step by blast
    then have "simulates (run_loop_turn env a) ?y"
      using R Cons alive q queued_other [OF False, of cs] by (simp add: simulates_def run_loop_turn_def)
    then show ?thesis using step by blast
  qed
qed

definition actor_history :: "coord \<Rightarrow> actor \<Rightarrow> bool" where
  "actor_history s0 a \<longleftrightarrow> ac_state a = run_all (ac_ran a) s0
     \<and> (\<exists>lost. ac_sent a = map snd (ac_ran a) @ ac_mailbox a @ lost \<and> (ac_alive a \<longrightarrow> lost = []))"

lemma history_exec: "actor_history s0 a \<Longrightarrow> actor_inv a \<Longrightarrow> actor_history s0 (actor_exec op a)"
  by (cases op)
    (auto simp: actor_history_def coordinator_call_eq forward_event_def expiry_tick_def gate_task_returns_def
      run_loop_turn_def actor_dies_def actor_inv_def split: list.splits)

definition refined :: "coord \<Rightarrow> actor \<Rightarrow> bool" where
  "refined s0 a \<longleftrightarrow> actor_inv a \<and> actor_history s0 a \<and> (\<exists>y. simulates a y)"

lemma refined_exec: "refined s0 a \<Longrightarrow> refined s0 (actor_exec op a)"
proof -
  assume r: "refined s0 a"
  then obtain y where y: "simulates a y" by (auto simp: refined_def)
  have "\<exists>y. simulates (actor_exec op a) y"
  proof (cases op)
    case (AHostEvent ev)
    then show ?thesis using simulates_same [OF y, of "actor_exec op a"] by auto
  next
    case (ARun env)
    then show ?thesis
    proof (cases "ac_mailbox a")
      case Nil
      then show ?thesis using y ARun by (auto simp: run_loop_turn_def)
    next
      case (Cons c cs)
      then show ?thesis using simulates_run [OF y _ Cons, of env] r ARun by (auto simp: refined_def)
    qed
  next
    case ATick
    then show ?thesis using simulates_send [OF y, of "CExpire None"] by (auto simp: expiry_tick_def)
  qed (use y in \<open>auto intro: simulates_call simulates_forward simulates_gate simulates_dies\<close>)
  then show ?thesis using r actor_exec_inv history_exec by (simp add: refined_def)
qed

interpretation refined: machine actor_exec "refined s0" for s0
  by unfold_locales (rule refined_exec)

lemma refined_spawn: "refined (coord_init store prefs rules modes) (actor_spawn store prefs rules modes)"
proof -
  have "simulates (actor_spawn store prefs rules modes) \<lparr>sy_coord = coord_init store prefs rules modes, sy_gates = []\<rparr>"
    using sys_reachable.start by (simp add: simulates_def actor_spawn_def)
  then show ?thesis using inv_spawn by (auto simp: refined_def actor_history_def actor_spawn_def)
qed

text \<open>
  C10. However callers, the forwarder, the tick, the gate tasks and the loop interleave, the actor is a
  coordinator that runs one command at a time: its state is that of running the handled commands in
  order, these are the first of the commands in the order they were sent (none lost, repeated or
  overtaken while the actor lives), and it is the state of a reachable system of the coordinator and
  its gate tasks, whose tasks are those still open together with those whose outcome is queued, and in which the
  next turn of the loop is a step.
\<close>

theorem actor_refines_system:
  "let a = fold actor_exec ops (actor_spawn store prefs rules modes) in
     ac_state a = run_all (ac_ran a) (coord_init store prefs rules modes)
     \<and> (if ac_alive a then ac_sent a = map snd (ac_ran a) @ ac_mailbox a
         else ac_mailbox a = [] \<and> (\<exists>lost. ac_sent a = map snd (ac_ran a) @ lost))
     \<and> (\<exists>y. sys_reachable y \<and> sy_coord y = ac_state a
         \<and> (if ac_alive a then mset (sy_gates y) = mset (ac_tasks a) + mset (queued (ac_mailbox a))
             else mset (ac_tasks a) \<subseteq># mset (sy_gates y))
         \<and> (case ac_mailbox a of [] \<Rightarrow> True
            | c # cs \<Rightarrow> \<exists>y'. sys_step y env c y' \<and> sy_coord y' = ac_state (actor_exec (ARun env) a)))"
proof -
  let ?a = "fold actor_exec ops (actor_spawn store prefs rules modes)"
  have r: "refined (coord_init store prefs rules modes) ?a"
    by (rule refined.run_inv [OF refined_spawn])
  then obtain y where y: "simulates ?a y" by (auto simp: refined_def)
  have "case ac_mailbox ?a of [] \<Rightarrow> True
      | c # cs \<Rightarrow> \<exists>y'. sys_step y env c y' \<and> sy_coord y' = ac_state (actor_exec (ARun env) ?a)"
    using simulates_run [OF y, of _ _ env] r by (fastforce simp: refined_def simulates_def split: list.splits)
  moreover have "if ac_alive ?a then mset (sy_gates y) = mset (ac_tasks ?a) + mset (queued (ac_mailbox ?a))
             else mset (ac_tasks ?a) \<subseteq># mset (sy_gates y)"
    using y unfolding simulates_def by (auto dest: subset_mset.order_trans [OF mset_subset_eq_add_left])
  moreover have "if ac_alive ?a then ac_sent ?a = map snd (ac_ran ?a) @ ac_mailbox ?a
         else ac_mailbox ?a = [] \<and> (\<exists>lost. ac_sent ?a = map snd (ac_ran ?a) @ lost)"
    using r actor_invD(5) [of ?a] by (auto simp: refined_def actor_history_def)
  ultimately show ?thesis
    using r y unfolding Let_def refined_def actor_history_def simulates_def by blast
qed

section \<open>When a call takes effect\<close>

text \<open>The commands that may answer a call: its own, and the return of the gate its decide opened.\<close>

definition answers_call :: "handle_call \<Rightarrow> reply \<Rightarrow> command \<Rightarrow> bool" where
  "answers_call k r c \<longleftrightarrow> c = call_command k r
     \<or> (\<exists>i choice req g oc. k = KDecideApproval i choice \<and> c = CGateResolved i req g choice oc r)"

definition carries :: "handle_call \<Rightarrow> reply \<Rightarrow> actor \<Rightarrow> bool" where
  "carries k r a \<longleftrightarrow> actor_inv a \<and> 0 < r \<and> r < ac_next a
     \<and> (\<forall>c \<in> set (ac_mailbox a). cmd_reply c = Some r \<longrightarrow> answers_call k r c)
     \<and> (\<forall>t \<in> set (ac_tasks a). gt_reply t = r \<longrightarrow> k = KDecideApproval (gt_id t) (gt_choice t))"

lemma carries_call:
  assumes "actor_inv a"
  shows "carries k (fst (coordinator_call k a)) (snd (coordinator_call k a))"
proof -
  note inv = actor_invD [OF assms]
  have "holders (ac_next a) a = 0" using inv(2) inv(4) [of "ac_next a"] inv(6) [of "ac_next a"] by simp
  then have "\<forall>c \<in> set (ac_mailbox a). cmd_reply c \<noteq> Some (ac_next a)" "\<forall>t \<in> set (ac_tasks a). gt_reply t \<noteq> ac_next a"
    by (simp_all add: holders_def holds_none)
  then show ?thesis using inv_call [OF assms, of k] inv(2)
    by (auto simp: carries_def coordinator_call_eq answers_call_def)
qed

lemma carries_exec: "carries k r a \<Longrightarrow> carries k r (actor_exec op a)"
proof -
  assume car: "carries k r a"
  note C = car [unfolded carries_def]
  have inv: "actor_inv (actor_exec op a)" using C actor_exec_inv by blast
  show ?thesis
  proof (cases op)
    case (ACall k')
    then show ?thesis using C inv by (auto simp: carries_def coordinator_call_eq)
  next
    case (ARun env)
    show ?thesis
    proof (cases "ac_mailbox a")
      case Nil
      then show ?thesis using car ARun by (simp add: run_loop_turn_def)
    next
      case (Cons c cs)
      have "k = KDecideApproval (gt_id t) (gt_choice t)" if "t \<in> set (spawned (new_fx env c (ac_state a)))" "gt_reply t = r" for t
        using spawned_by [OF that(1)] that(2) C Cons by (cases k) (auto simp: answers_call_def)
      moreover have "cmd_reply d \<noteq> Some r" if "d \<in> set (self_sent (new_fx env c (ac_state a)))" for d
      proof -
        have "wf_command c" using C Cons actor_invD(1) by fastforce
        then show ?thesis using self_sent_new_fx [of env c "ac_state a"] that C by auto
      qed
      ultimately show ?thesis using C inv ARun Cons by (auto simp: carries_def run_loop_turn_def)
    qed
  next
    case (AGate t oc)
    then show ?thesis using C inv notin_set_remove1
      by (fastforce simp: carries_def gate_task_returns_def resolve_command_def answers_call_def)
  qed (use C inv in \<open>auto simp: carries_def forward_event_def expiry_tick_def actor_dies_def split: list.splits\<close>)
qed

lemma deliver_ready:
  "ac_calls (fold apply_effect fxs a) r = Ready ans \<Longrightarrow> ac_calls a r = Ready ans \<or> FxReply r ans \<in> set fxs"
proof (induction fxs arbitrary: a)
  case (Cons e fxs)
  then have "ac_calls (apply_effect e a) r = Ready ans \<or> FxReply r ans \<in> set fxs" by simp
  then show ?case by (cases e) (auto split: if_splits)
qed simp

lemma exec_ready:
  assumes "ac_calls (actor_exec op a) r = Ready ans"
  shows "ac_calls a r = Ready ans
    \<or> (\<exists>env c cs. op = ARun env \<and> ac_mailbox a = c # cs \<and> FxReply r ans \<in> set (new_fx env c (ac_state a)))"
proof (cases op)
  case (ARun env)
  then show ?thesis using assms deliver_ready by (fastforce simp: run_loop_turn_def split: list.splits)
qed (use assms in \<open>auto simp: coordinator_call_eq forward_event_def expiry_tick_def gate_task_returns_def actor_dies_def
      split: list.splits if_splits\<close>)

lemma exec_settled:
  assumes "ac_calls a r \<noteq> Waiting" "r < ac_next a"
  shows "ac_calls (actor_exec op a) r = ac_calls a r" "r < ac_next (actor_exec op a)"
proof -
  show "ac_calls (actor_exec op a) r = ac_calls a r"
  proof (cases op)
    case (ARun env)
    have "ac_calls (fold apply_effect fxs b) r = ac_calls a r" if "ac_calls b r = ac_calls a r" for fxs b
      using deliver_calls [of fxs b r] that assms(1) by auto
    then show ?thesis using ARun by (simp add: run_loop_turn_def split: list.splits)
  qed (use assms in \<open>auto simp: coordinator_call_eq forward_event_def expiry_tick_def gate_task_returns_def actor_dies_def
      split: list.splits\<close>)
  show "r < ac_next (actor_exec op a)"
    using assms(2) by (cases op) (auto simp: coordinator_call_eq forward_event_def expiry_tick_def gate_task_returns_def
        actor_dies_def run_loop_turn_def split: list.splits)
qed

lemma settled_stays:
  "ac_calls a r \<noteq> Waiting \<Longrightarrow> r < ac_next a \<Longrightarrow> ac_calls (fold actor_exec ops a) r = ac_calls a r"
  by (induction ops arbitrary: a) (simp_all add: exec_settled)

lemma exec_ran: "\<exists>more. ac_ran (actor_exec op a) = ac_ran a @ more \<and> ac_state (actor_exec op a) = run_all more (ac_state a)"
proof (cases op)
  case (ARun env)
  then show ?thesis by (cases "ac_mailbox a") (auto simp: run_loop_turn_def)
qed (auto simp: coordinator_call_eq forward_event_def expiry_tick_def gate_task_returns_def actor_dies_def split: list.splits)

lemma fx_holds_reply: "FxReply r ans \<in> set fxs \<Longrightarrow> 0 < fxs_hold r fxs"
  by (induction fxs) auto

lemma call_point:
  assumes "carries k r a" "ac_calls a r = Waiting" "ac_calls (fold actor_exec ops a) r = Ready ans"
  shows "\<exists>pre env c post. ac_ran (fold actor_exec ops a) = ac_ran a @ pre @ (env, c) # post
     \<and> answers_call k r c \<and> FxReply r ans \<in> set (new_fx env c (run_all pre (ac_state a)))"
  using assms
proof (induction ops arbitrary: a rule: rev_induct)
  case (snoc op ops)
  let ?b = "fold actor_exec ops a"
  obtain pre where pre: "ac_ran ?b = ac_ran a @ pre" "ac_state ?b = run_all pre (ac_state a)"
  proof (induction ops arbitrary: thesis rule: rev_induct)
    case (snoc x xs)
    then show ?case using exec_ran [of x "fold actor_exec xs a"] by fastforce
  qed auto
  have car: "carries k r ?b" using snoc.prems(1) by (induction ops rule: rev_induct) (auto intro: carries_exec)
  have "ac_calls (actor_exec op ?b) r = Ready ans" using snoc.prems(3) by simp
  then consider "ac_calls ?b r = Ready ans"
    | env c cs where "op = ARun env" "ac_mailbox ?b = c # cs" "FxReply r ans \<in> set (new_fx env c (ac_state ?b))"
    using exec_ready by blast
  then show ?case
  proof cases
    case 1
    then obtain pre env c post where "ac_ran ?b = ac_ran a @ pre @ (env, c) # post" "answers_call k r c"
        "FxReply r ans \<in> set (new_fx env c (run_all pre (ac_state a)))"
      using snoc by blast
    then show ?thesis using exec_ran [of op ?b] by fastforce
  next
    case 2
    have "wf_command c" "0 < r" using car 2(2) actor_invD(1) by (fastforce simp: carries_def)+
    then have "cmd_reply c = Some r"
      using reply_conserved [of c r env "ac_state ?b"] fx_holds_reply [OF 2(3)] by (auto simp: of_bool_def split: if_splits)
    then have "answers_call k r c" using car 2(2) by (simp add: carries_def)
    moreover have "ac_ran (actor_exec op ?b) = ac_ran a @ pre @ [(env, c)]"
      using 2(1,2) pre(1) by (simp add: run_loop_turn_def)
    ultimately show ?thesis using 2(3) pre(2) by fastforce
  qed
qed simp

text \<open>What a call returns from an atomic coordinator in a given state.\<close>

fun atomic_answer :: "handle_call \<Rightarrow> cenv \<Rightarrow> coord \<Rightarrow> answer" where
  "atomic_answer KApprovalsList env s = AnsItems (sorted_items s)"
| "atomic_answer (KActivityList limit) env s = AnsEntries (audit_recent limit (audit s))"
| "atomic_answer KPolicyList env s = AnsRules (pe_rules (engine s))"
| "atomic_answer KNotificationsList env s = AnsNotifications (notifier_posted env)"
| "atomic_answer (KNotificationInvoke i decision) env s = AnsBool (list_ex (\<lambda>n. pn_id n = i) (notifier_posted env))"
| "atomic_answer KAuditLogPath env s = AnsText (as_path (audit s))"
| "atomic_answer KGateNamespaces env s = AnsTexts (gate_namespaces s)"
| "atomic_answer KSshPrefs env s = AnsPrefs (ssh s)"
| "atomic_answer _ env s = AnsUnit"

lemma fxs_hold_unique:
  assumes "fxs_hold r fxs \<le> 1" "e \<in> set fxs" "e' \<in> set fxs" "fx_holds r e = 1" "fx_holds r e' = 1"
  shows "e = e'"
  using assms
proof (induction fxs)
  case (Cons x fxs)
  have "0 < fxs_hold r fxs" if "y \<in> set fxs" "fx_holds r y = 1" for y
    using that by (induction fxs) auto
  then show ?case using Cons by fastforce
qed simp

lemma last_new_fx:
  assumes "out (run_command env c s) = xs @ [e]" "new_fx env c s \<noteq> []"
  shows "e \<in> set (new_fx env c s)"
proof -
  have "last (out s @ new_fx env c s) = e" using assms(1) by (simp add: run_command_out [symmetric])
  then show ?thesis using assms(2) last_in_set by force
qed

lemma run_command_last:
  assumes "answers_call k r c"
  shows "\<exists>xs e. out (run_command env c s) = xs @ [e] \<and> fx_holds r e = 1 \<and> (\<forall>ans. e = FxReply r ans \<longrightarrow> ans = atomic_answer k env s)"
proof (cases "\<exists>i choice. k = KDecideApproval i choice")
  case True
  then show ?thesis
    using assms by (auto simp: answers_call_def begin_decide_def split: option.splits)
next
  case False
  then show ?thesis
    using assms by (cases k) (auto simp: answers_call_def Let_def)
qed

lemma reply_is_atomic:
  assumes "answers_call k r c" "0 < r" "FxReply r ans \<in> set (new_fx env c s)"
  shows "ans = atomic_answer k env s"
proof -
  obtain xs e where e: "out (run_command env c s) = xs @ [e]" "fx_holds r e = 1"
      "\<forall>ans. e = FxReply r ans \<longrightarrow> ans = atomic_answer k env s"
    using run_command_last [OF assms(1)] by blast
  have "wf_command c" "cmd_reply c = Some r" using assms(1) by (auto simp: answers_call_def)
  then have "fxs_hold r (new_fx env c s) \<le> 1" using reply_conserved [of c r env s] assms(2) by simp
  moreover have "e \<in> set (new_fx env c s)" using last_new_fx [OF e(1)] assms(3) by fastforce
  ultimately have "FxReply r ans = e" using fxs_hold_unique [of r _ "FxReply r ans" e] assms(3) e(2) by simp
  then show ?thesis using e(3) by blast
qed

text \<open>
  C11. Calls are linearizable: a call that returns an answer of the actor took effect as one command
  handled after the call began and before it returned, and the answer is the one an atomic
  coordinator gives in the state that all commands handled before it produce. Calls that returned
  before this one began took effect among the commands handled earlier. The command is the call's
  own or, for a decide that had to pass the native gate, the return of that gate.
\<close>

theorem calls_are_linearizable:
  assumes "coordinator_call k (fold actor_exec ops (actor_spawn store prefs rules modes)) = (r, a)"
    and "co_await r (fold actor_exec ops' a) = Some (Some ans)"
  shows "\<exists>pre env c post. ac_ran (fold actor_exec ops' a)
        = ac_ran (fold actor_exec ops (actor_spawn store prefs rules modes)) @ pre @ (env, c) # post
     \<and> answers_call k r c
     \<and> ans = atomic_answer k env
         (run_all (ac_ran (fold actor_exec ops (actor_spawn store prefs rules modes)) @ pre) (coord_init store prefs rules modes))"
proof -
  let ?a = "fold actor_exec ops (actor_spawn store prefs rules modes)"
  have inv: "actor_inv ?a" by (rule actor_reached_inv)
  have car: "carries k r a" using carries_call [OF inv, of k] assms(1) by simp
  have a: "ac_ran a = ac_ran ?a" "ac_state a = ac_state ?a"
    using assms(1) by (auto simp: coordinator_call_eq)
  have ready: "ac_calls (fold actor_exec ops' a) r = Ready ans"
    using assms(2) by (simp add: co_await_def split: oneshot.splits)
  have "ac_calls a r \<noteq> Waiting \<Longrightarrow> ac_calls a r = Closed"
    using assms(1) by (auto simp: coordinator_call_eq)
  then have "ac_calls a r = Waiting" using ready settled_stays [of a r ops'] car by (fastforce simp: carries_def)
  from call_point [OF car this ready] obtain pre env c post where
      p: "ac_ran (fold actor_exec ops' a) = ac_ran a @ pre @ (env, c) # post" "answers_call k r c"
        "FxReply r ans \<in> set (new_fx env c (run_all pre (ac_state a)))"
    by blast
  have "ac_state ?a = run_all (ac_ran ?a) (coord_init store prefs rules modes)"
    using refined.run_inv [OF refined_spawn, of store prefs rules modes ops] by (simp add: refined_def actor_history_def)
  then show ?thesis
    using p a reply_is_atomic [OF p(2) _ p(3)] car by (auto simp: carries_def)
qed

text \<open>A request arrives and is forwarded; a caller lists the approvals before the loop has turned.\<close>

definition demo_actor :: actor where
  "demo_actor = fold actor_exec [AHostEvent (HaFrame (InApprovalRequest demo_request)), AForward]
     (actor_spawn (audit_new ''audit.jsonl'') default_ssh_prefs [] [])"

lemma demo_call:
  "coordinator_call KApprovalsList demo_actor =
     (1, \<lparr>ac_state = demo_init, ac_mailbox = [CHost (HaFrame (InApprovalRequest demo_request)), CApprovalsList 1],
         ac_tasks = [], ac_host = [], ac_next = 2, ac_calls = (\<lambda>_. Closed)(1 := Waiting), ac_alive = True,
         ac_sent = [CHost (HaFrame (InApprovalRequest demo_request)), CApprovalsList 1], ac_ran = []\<rparr>)"
  by (simp add: demo_actor_def actor_spawn_def forward_event_def coordinator_call_eq mpsc_send_def demo_init_def)

lemma demo_list:
  "co_await 1 (fold actor_exec [ARun (demo_env 10), ARun (demo_env 11)] (snd (coordinator_call KApprovalsList demo_actor)))
   = Some (Some (AnsItems (sorted_items demo_pending)))"
proof -
  have "new_fx (demo_env 10) (CHost (HaFrame (InApprovalRequest demo_request))) demo_init = [FxPost demo_request, FxEmit EvApprovals]"
    using demo_pending_state(4) by (simp add: new_fx_def demo_pending_def demo_init_def coord_init_def)
  moreover have "new_fx (demo_env 11) (CApprovalsList 1) demo_pending = [FxReply 1 (AnsItems (sorted_items demo_pending))]"
    by (simp add: new_fx_def)
  ultimately show ?thesis
    using demo_pending_def by (simp add: demo_call run_loop_turn_def settle_def co_await_def del: run_command.simps(1))
qed

theorem calls_are_linearizable_witness:
  "\<exists>a. coordinator_call KApprovalsList demo_actor = (1, a)
     \<and> co_await 1 (fold actor_exec [ARun (demo_env 10), ARun (demo_env 11)] a) = Some (Some (AnsItems (sorted_items demo_pending)))
     \<and> (\<exists>pre env c post. ac_ran (fold actor_exec [ARun (demo_env 10), ARun (demo_env 11)] a) = ac_ran demo_actor @ pre @ (env, c) # post
        \<and> AnsItems (sorted_items demo_pending) = atomic_answer KApprovalsList env (run_all (ac_ran demo_actor @ pre) demo_init))"
proof -
  let ?a = "snd (coordinator_call KApprovalsList demo_actor)"
  have c: "coordinator_call KApprovalsList demo_actor = (1, ?a)" by (simp add: demo_call)
  show ?thesis
    using calls_are_linearizable [OF c [unfolded demo_actor_def] demo_list [unfolded demo_actor_def]] c demo_list
    unfolding demo_actor_def demo_init_def by blast
qed

section \<open>Every call returns\<close>

fun turns :: "command \<Rightarrow> nat" where
  "turns (CNotificationInvoke i decision dead rep) = 2"
| "turns _ = 1"

lemma turn_shortens:
  assumes "actor_inv a" "ac_mailbox a \<noteq> []"
  shows "sum_list (map turns (ac_mailbox (run_loop_turn env a))) < sum_list (map turns (ac_mailbox a))"
proof -
  obtain c cs where c: "ac_mailbox a = c # cs" using assms(2) by (cases "ac_mailbox a") auto
  have "sum_list (map turns (self_sent (new_fx env c (ac_state a)))) < turns c"
    using self_sent_new_fx [of env c "ac_state a"] by (cases c) auto
  then show ?thesis using c by (simp add: run_loop_turn_def)
qed

lemma loop_drains:
  "actor_inv a \<Longrightarrow> sum_list (map turns (ac_mailbox a)) \<le> length envs \<Longrightarrow> ac_mailbox (fold run_loop_turn envs a) = []"
proof (induction envs arbitrary: a)
  case Nil
  have "turns c > 0" for c by (cases c) simp_all
  then show ?case using Nil by (cases "ac_mailbox a") (auto, metis less_irrefl)
next
  case (Cons env envs)
  show ?case
  proof (cases "ac_mailbox a = []")
    case True
    then have "run_loop_turn env a = a" by (simp add: run_loop_turn_def)
    then show ?thesis using Cons True by simp
  next
    case False
    then show ?thesis using Cons turn_shortens [OF Cons.prems(1) False, of env] inv_run by fastforce
  qed
qed

lemma turns_bound: "sum_list (map turns cs) \<le> 2 * length cs"
proof (induction cs)
  case (Cons c cs)
  have "turns c \<le> 2" by (cases c) simp_all
  then show ?case using Cons by simp
qed simp

lemma settled_result:
  assumes "carries k r a" "ac_calls a r \<noteq> Waiting"
  shows "\<exists>v. \<forall>ops. call_result k r (fold actor_exec ops a) = Some v"
proof -
  have "call_result k r (fold actor_exec ops a) = call_result k r a" for ops
    using assms settled_stays by (simp add: call_result_def co_await_def carries_def)
  moreover have "call_result k r a \<noteq> None"
    using assms(2) by (simp add: call_result_def co_await_def split: oneshot.splits)
  ultimately show ?thesis by auto
qed

text \<open>A gate task that returns answers its caller after one more turn of the loop.\<close>

lemma gate_return_settles:
  assumes car: "carries k r a" and mail: "ac_mailbox a = []" and t: "t \<in> set (ac_tasks a)" "gt_reply t = r"
  shows "ac_calls (fold actor_exec [AGate t oc, ARun env] a) r \<noteq> Waiting"
proof -
  let ?b = "fold actor_exec [AGate t oc, ARun env] a"
  have inv: "actor_inv a" "0 < r" using car by (auto simp: carries_def)
  have "tasks_hold r (ac_tasks a) \<le> 1" using actor_invD(6) [OF inv(1), of r] inv(2) by (simp add: holders_def of_bool_def split: if_splits)
  then have "tasks_hold r (remove1 t (ac_tasks a)) = 0" using tasks_hold_remove1 [OF t(1), of r] t(2) by simp
  moreover have "self_sent (new_fx env (resolve_command t oc) s) = []" for s
    using self_sent_new_fx [of env "resolve_command t oc" s] by (auto simp: resolve_command_def)
  moreover have "spawned (new_fx env (resolve_command t oc) s) = []" for s
    unfolding resolve_command_def by (rule spawned_resolved)
  ultimately have "holders r ?b = 0"
    using mail t(1) by (simp add: holders_def gate_task_returns_def run_loop_turn_def split: list.splits)
  moreover have "actor_inv ?b" using mailbox.run_inv [OF inv(1)] by blast
  ultimately show ?thesis using actor_invD(6) [of ?b r] inv(2) by auto
qed

lemma carries_run: "carries k r a \<Longrightarrow> carries k r (fold actor_exec ops a)"
  by (induction ops arbitrary: a) (simp_all add: carries_exec)

lemma call_result_closed:
  assumes "carries k r a" "ac_calls a r = Closed"
  shows "call_result k r (fold actor_exec ops a) = Some (call_default k)"
  using assms settled_stays [of a r] by (simp add: call_result_def co_await_def carries_def unwrap_or_def)

lemma call_on_stopped_actor:
  assumes "actor_inv a" "\<not> ac_alive a"
  shows "call_result k (fst (coordinator_call k a)) (fold actor_exec ops (snd (coordinator_call k a))) = Some (call_default k)"
  by (rule call_result_closed [OF carries_call [OF assms(1)]]) (use assms(2) in \<open>simp add: coordinator_call_eq\<close>)

lemma call_on_dying_actor:
  assumes "carries k r a" "call_result k r a = None" "\<forall>t \<in> set (ac_tasks a). gt_reply t \<noteq> r"
  shows "call_result k r (fold actor_exec (ADies # ops) a) = Some (call_default k)"
proof -
  have w: "ac_calls a r = Waiting"
    using assms(2) by (simp add: call_result_def co_await_def split: oneshot.splits)
  then have "holders r a = 1" using actor_invD(6) [of a r] assms(1) by (simp add: carries_def)
  moreover have "tasks_hold r (ac_tasks a) = 0" using assms(3) holds_none by blast
  ultimately have "\<exists>c \<in> set (ac_mailbox a). cmd_reply c = Some r"
    using holds_none(1) [of r "ac_mailbox a"] by (auto simp: holders_def)
  then have "ac_calls (actor_exec ADies a) r = Closed" using w by (simp add: actor_dies_def)
  then show ?thesis using call_result_closed [OF carries_exec [OF assms(1), of ADies]] by simp
qed

lemma call_returns:
  assumes car: "carries k r a" and "2 * length (ac_mailbox a) \<le> length envs"
  shows "(\<exists>v. \<forall>ops'. call_result k r (fold actor_exec (map ARun envs @ ops') a) = Some v)
    \<or> (\<exists>t \<in> set (ac_tasks (fold actor_exec (map ARun envs) a)). gt_reply t = r \<and> k = KDecideApproval (gt_id t) (gt_choice t)
         \<and> (\<forall>oc env. \<exists>v. \<forall>ops'. call_result k r (fold actor_exec (map ARun envs @ [AGate t oc, ARun env] @ ops') a) = Some v))"
proof -
  let ?b = "fold actor_exec (map ARun envs) a"
  have carb: "carries k r ?b" using car by (rule carries_run)
  have "fold actor_exec (map ARun envs) a = fold run_loop_turn envs a" by (induction envs arbitrary: a) simp_all
  then have mail: "ac_mailbox ?b = []"
    using loop_drains [of a envs] car turns_bound [of "ac_mailbox a"] assms(2) by (simp add: carries_def)
  show ?thesis
  proof (cases "ac_calls ?b r = Waiting")
    case True
    then have "holders r ?b = 1" using actor_invD(6) [of ?b r] carb by (simp add: carries_def)
    then obtain t where t: "t \<in> set (ac_tasks ?b)" "gt_reply t = r"
      using mail holds_none(2) [of r "ac_tasks ?b"] by (auto simp: holders_def)
    have "\<exists>v. \<forall>ops'. call_result k r (fold actor_exec (map ARun envs @ [AGate t oc, ARun env] @ ops') a) = Some v" for oc env
      using settled_result [OF carries_run [OF carb] gate_return_settles [OF carb mail t, of oc env]] by simp
    then show ?thesis using t carb by (auto simp: carries_def)
  next
    case False
    then show ?thesis using settled_result [OF carb] by simp
  qed
qed

text \<open>
  C12. Every call returns: whatever happened before, once the loop has turned twice as often as there
  are queued commands, the call has its final result, or it is a decide whose native prompt is still
  open; then it has its final result one turn after that prompt returns, whatever the outcome. A call
  made on a stopped actor, and a queued call whose actor stops before it is answered, has for its
  final result the value that the handle falls back on: nothing for the four operations, an empty
  list or text for the queries, \<^verbatim>\<open>false\<close> for a notification that was invoked, and the default SSH
  settings (any native authentication, a time-based grant of two hours).
\<close>

theorem every_call_returns:
  assumes "coordinator_call k (fold actor_exec ops (actor_spawn store prefs rules modes)) = (r, a)"
    and "2 * length (ac_mailbox a) \<le> length envs"
  shows "((\<exists>v. \<forall>ops'. call_result k r (fold actor_exec (map ARun envs @ ops') a) = Some v)
      \<or> (\<exists>t \<in> set (ac_tasks (fold actor_exec (map ARun envs) a)). gt_reply t = r \<and> k = KDecideApproval (gt_id t) (gt_choice t)
           \<and> (\<forall>oc env. \<exists>v. \<forall>ops'. call_result k r (fold actor_exec (map ARun envs @ [AGate t oc, ARun env] @ ops') a) = Some v)))
    \<and> (let fallback = (case k of
             KDecideApproval _ _ \<Rightarrow> AnsUnit | KExpireNow \<Rightarrow> AnsUnit | KSetSshApproval _ _ _ \<Rightarrow> AnsUnit | KSetPolicyRules _ \<Rightarrow> AnsUnit
           | KApprovalsList \<Rightarrow> AnsItems [] | KActivityList _ \<Rightarrow> AnsEntries [] | KPolicyList \<Rightarrow> AnsRules []
           | KNotificationsList \<Rightarrow> AnsNotifications [] | KNotificationInvoke _ _ \<Rightarrow> AnsBool False
           | KAuditLogPath \<Rightarrow> AnsText [] | KGateNamespaces \<Rightarrow> AnsTexts []
           | KSshPrefs \<Rightarrow> AnsPrefs \<lparr>sp_method = MBiometricsOrPassword, sp_policy = TimeBasedAllow, sp_ttl = ''2h''\<rparr>)
       in (\<not> ac_alive a \<longrightarrow> (\<forall>ops'. call_result k r (fold actor_exec ops' a) = Some fallback))
        \<and> (\<forall>ops1 ops2. call_result k r (fold actor_exec ops1 a) = None
             \<and> (\<forall>t \<in> set (ac_tasks (fold actor_exec ops1 a)). gt_reply t \<noteq> r)
             \<longrightarrow> call_result k r (fold actor_exec (ops1 @ ADies # ops2) a) = Some fallback))"
proof -
  have inv: "actor_inv (fold actor_exec ops (actor_spawn store prefs rules modes))" by (rule actor_reached_inv)
  have car: "carries k r a" using carries_call [OF inv, of k] assms(1) by simp
  have d: "(case k of
             KDecideApproval _ _ \<Rightarrow> AnsUnit | KExpireNow \<Rightarrow> AnsUnit | KSetSshApproval _ _ _ \<Rightarrow> AnsUnit | KSetPolicyRules _ \<Rightarrow> AnsUnit
           | KApprovalsList \<Rightarrow> AnsItems [] | KActivityList _ \<Rightarrow> AnsEntries [] | KPolicyList \<Rightarrow> AnsRules []
           | KNotificationsList \<Rightarrow> AnsNotifications [] | KNotificationInvoke _ _ \<Rightarrow> AnsBool False
           | KAuditLogPath \<Rightarrow> AnsText [] | KGateNamespaces \<Rightarrow> AnsTexts []
           | KSshPrefs \<Rightarrow> AnsPrefs \<lparr>sp_method = MBiometricsOrPassword, sp_policy = TimeBasedAllow, sp_ttl = ''2h''\<rparr>) = call_default k"
    by (cases k) (simp_all add: default_ssh_prefs_def default_approval_ttl_def)
  have "ac_alive a = ac_alive (fold actor_exec ops (actor_spawn store prefs rules modes))"
    using assms(1) by (auto simp: coordinator_call_eq)
  then have "call_result k r (fold actor_exec ops' a) = Some (call_default k)" if "\<not> ac_alive a" for ops'
    using call_on_stopped_actor [OF inv, of k ops'] that assms(1) by simp
  moreover have "call_result k r (fold actor_exec (ops1 @ ADies # ops2) a) = Some (call_default k)"
    if "call_result k r (fold actor_exec ops1 a) = None" "\<forall>t \<in> set (ac_tasks (fold actor_exec ops1 a)). gt_reply t \<noteq> r" for ops1 ops2
    using call_on_dying_actor [OF carries_run [OF car] that] by simp
  ultimately show ?thesis using call_returns [OF car assms(2)] unfolding d Let_def by blast
qed

theorem every_call_returns_witness:
  "\<exists>a v. coordinator_call KApprovalsList demo_actor = (1, a) \<and> length (ac_mailbox a) = 2
     \<and> (\<forall>ops. call_result KApprovalsList 1 (fold actor_exec (map ARun (replicate 4 (demo_env 10)) @ ops) a) = Some v)
     \<and> (\<forall>ops. call_result KApprovalsList 1 (fold actor_exec (ADies # ops) a) = Some (AnsItems []))"
proof -
  let ?a = "snd (coordinator_call KApprovalsList demo_actor)"
  have c: "coordinator_call KApprovalsList demo_actor = (1, ?a)" and l: "length (ac_mailbox ?a) = 2"
    and w: "call_result KApprovalsList 1 ?a = None" "ac_tasks ?a = []"
    by (simp_all add: demo_call call_result_def co_await_def)
  have "2 * length (ac_mailbox ?a) \<le> length (replicate 4 (demo_env 10))" using l by simp
  note R = every_call_returns [OF c [unfolded demo_actor_def] this [unfolded demo_actor_def], folded demo_actor_def]
  have "\<exists>v. \<forall>ops. call_result KApprovalsList 1 (fold actor_exec (map ARun (replicate 4 (demo_env 10)) @ ops) ?a) = Some v"
    using R by blast
  moreover have "call_result KApprovalsList 1 (fold actor_exec ([] @ ADies # ops) ?a) = Some (AnsItems [])" for ops
  proof -
    have "call_result KApprovalsList 1 (fold actor_exec [] ?a) = None
        \<and> (\<forall>t \<in> set (ac_tasks (fold actor_exec [] ?a)). gt_reply t \<noteq> 1)" using w by simp
    then show ?thesis using R [THEN conjunct2] unfolding Let_def handle_call.case by blast
  qed
  ultimately show ?thesis using c l by (metis append_Nil)
qed

end
