(* ===== verification/Terminal.thy ===== *)
theory Terminal
  imports Prelude
begin

text \<open>
  Terminal commands (\<^verbatim>\<open>core/shed-core/src/terminal.rs\<close>): the ssh command line of a shed with its POSIX
  quoting, and the resolution of what to execute for a terminal preset. The two branches of
  \<^verbatim>\<open>cfg(target_os = "macos")\<close> are selected by an argument.
\<close>

record terminal_command =
  tc_argv :: "string list"
  tc_command :: string

definition ssh_host_key_opts :: "string \<Rightarrow> string list" where
  "ssh_host_key_opts known_hosts =
     [''-o'', ''StrictHostKeyChecking=yes'', ''-o'', ''UserKnownHostsFile='' @ known_hosts]"

definition shell_safe :: "char \<Rightarrow> bool" where
  "shell_safe b \<longleftrightarrow> is_ascii_alphanumeric b \<or> b \<in> set ''@%-_=+:,./''"

definition single_quote :: string where "single_quote = [CHR 0x27]"

text \<open>A quote inside a quoted argument: close, an escaped quote, reopen.\<close>

definition quote_escape :: string where
  "quote_escape = [CHR 0x27, CHR 0x5C, CHR 0x27, CHR 0x27]"

definition shell_quote :: "string \<Rightarrow> string" where
  "shell_quote s =
     (if s \<noteq> [] \<and> list_all shell_safe s then s
      else single_quote @ str_replace single_quote quote_escape s @ single_quote)"

definition ssh_command :: "string \<Rightarrow> string \<Rightarrow> nat \<Rightarrow> string \<Rightarrow> string option \<Rightarrow> terminal_command" where
  "ssh_command shed host ssh_port known_hosts session =
     (let argv = [''ssh'', ''-t''] @ ssh_host_key_opts known_hosts @ [shed @ ''@'' @ host, ''-p'', nat_to_string ssh_port]
                 @ (case opt_filter (\<lambda>s. s \<noteq> []) session of
                      Some s \<Rightarrow> [''tmux'', ''attach'', ''-t'', s] | None \<Rightarrow> [])
      in \<lparr>tc_argv = argv, tc_command = join '' '' (map shell_quote argv)\<rparr>)"

datatype terminal_preset = Ghostty | Roost | Custom

definition terminal_helper :: "terminal_preset \<Rightarrow> (string \<times> string) option" where
  "terminal_helper p =
     (case p of
        Ghostty \<Rightarrow> Some (''/bin/bash'', ''shed-open-ghostty'')
      | Roost \<Rightarrow> Some (''/usr/bin/python3'', ''shed-open-roost.py'')
      | Custom \<Rightarrow> None)"

fun preset_id :: "terminal_preset \<Rightarrow> string" where
  "preset_id Ghostty = ''ghostty''"
| "preset_id Roost = ''roost''"
| "preset_id Custom = ''custom''"

record launch_invocation =
  li_executable :: string
  li_arguments :: "string list"

definition applescript_escape :: "string \<Rightarrow> string" where
  "applescript_escape s = str_replace [CHR 0x22] [CHR 0x5C, CHR 0x22] (str_replace [CHR 0x5C] [CHR 0x5C, CHR 0x5C] s)"

definition default_terminal :: "bool \<Rightarrow> terminal_command \<Rightarrow> launch_invocation" where
  "default_terminal macos cmd =
     (if macos
      then \<lparr>li_executable = ''/usr/bin/osascript'',
            li_arguments = [''-e'', ''tell application '' @ [CHR 0x22] @ ''Terminal'' @ [CHR 0x22, CHR 0x0A] @ ''activate''
              @ [CHR 0x0A] @ ''do script '' @ [CHR 0x22] @ applescript_escape (tc_command cmd) @ [CHR 0x22, CHR 0x0A] @ ''end tell'']\<rparr>
      else \<lparr>li_executable = ''x-terminal-emulator'', li_arguments = [''-e'', ''/bin/sh'', ''-lc'', tc_command cmd]\<rparr>)"

definition resolve_launch ::
  "bool \<Rightarrow> terminal_preset \<Rightarrow> terminal_command \<Rightarrow> string \<Rightarrow> string option \<Rightarrow> string option \<Rightarrow> launch_invocation" where
  "resolve_launch macos preset cmd shed custom_template scripts_dir =
     (if preset = Custom
      then (let template = unwrap_or (map_option trim custom_template) [] in
            if template = [] then default_terminal macos cmd
            else \<lparr>li_executable = ''/bin/sh'',
                  li_arguments = [''-c'', str_replace ''{shed}'' shed (str_replace ''{cmd}'' (tc_command cmd) template)]\<rparr>)
      else case (terminal_helper preset, scripts_dir) of
        (Some (interp, script), Some dir) \<Rightarrow>
          \<lparr>li_executable = interp, li_arguments = [dir @ ''/'' @ script, shed, tc_command cmd]\<rparr>
      | _ \<Rightarrow> default_terminal macos cmd)"

section \<open>How a shell reads the command line\<close>

text \<open>
  Word splitting of a POSIX shell for lines without expansions: blanks separate words, single quotes
  keep everything up to the next one, a backslash keeps the next character, and any other character
  stands for itself unless it can mean something to the shell, when the result is \<^const>\<open>None\<close>. The
  characters that can are those of the Shell Command Language (XCU 2.2): the operators, expansions and
  quotes that must be quoted, the pattern, comment and tilde characters that may have to be, the
  braces, the caret and the exclamation mark of common shells, and the control characters. (An equals
  sign makes an assignment only in the word before the command name, and a percent sign a job only as
  an operand of the job control commands.) The set does not refer to the quoting code.
\<close>

definition sh_special :: "char \<Rightarrow> bool" where
  "sh_special c \<longleftrightarrow> of_char c < (0x20 :: nat) \<or> of_char c = (0x7F :: nat)
     \<or> c \<in> set '' |&;<>()$`*?[]#~!{}^'' \<or> c = CHR 0x22 \<or> c = CHR 0x27 \<or> c = CHR 0x5C"

function sh_lex :: "string \<Rightarrow> string option \<Rightarrow> string list option" where
  "sh_lex [] cur = Some (case cur of None \<Rightarrow> [] | Some w \<Rightarrow> [w])"
| "sh_lex (c # cs) cur =
     (if c = CHR '' '' then (case cur of None \<Rightarrow> sh_lex cs None | Some w \<Rightarrow> map_option (\<lambda>ws. w # ws) (sh_lex cs None))
      else if c = CHR 0x27
      then (case split_once (CHR 0x27) cs of None \<Rightarrow> None | Some (q, r) \<Rightarrow> sh_lex r (Some (unwrap_or cur [] @ q)))
      else if c = CHR 0x5C
      then (case cs of [] \<Rightarrow> None | d # ds \<Rightarrow> if d = CHR 0x0A then None else sh_lex ds (Some (unwrap_or cur [] @ [d])))
      else if sh_special c then None
      else sh_lex cs (Some (unwrap_or cur [] @ [c])))"
  by pat_completeness auto
termination
  by (relation "measure (\<lambda>(s, cur). length s)") (auto simp: split_once_Some dest: sym)

definition sh_words :: "string \<Rightarrow> string list option" where
  "sh_words s = sh_lex s None"

lemma shell_safe_inert: "shell_safe c \<Longrightarrow> \<not> sh_special c"
  by (auto simp: shell_safe_def sh_special_def is_ascii_alphanumeric_def)

lemma sh_special_separators [simp]: "sh_special (CHR '' '')" "sh_special (CHR 0x27)" "sh_special (CHR 0x5C)"
  by (simp_all add: sh_special_def)

lemma sh_lex_safe: "list_all shell_safe s \<Longrightarrow> s \<noteq> [] \<Longrightarrow> sh_lex (s @ r) cur = sh_lex r (Some (unwrap_or cur [] @ s))"
proof (induction s arbitrary: cur)
  case (Cons c s)
  have "\<not> sh_special c" using Cons.prems shell_safe_inert by simp
  then have "c \<noteq> CHR '' ''" "c \<noteq> CHR 0x27" "c \<noteq> CHR 0x5C" by auto
  then show ?case using \<open>\<not> sh_special c\<close> Cons by (cases "s = []") simp_all
qed simp

lemma replace_quote_Cons:
  "str_replace single_quote quote_escape (c # cs) =
     (if c = CHR 0x27 then quote_escape @ str_replace single_quote quote_escape cs
      else c # str_replace single_quote quote_escape cs)"
  by (simp add: single_quote_def str_replace.simps(2))

text \<open>Inside an open single quote, the escaped text yields the text and closes at the final quote.\<close>

lemma sh_lex_quoted:
  "sh_lex (CHR 0x27 # p @ str_replace single_quote quote_escape s @ CHR 0x27 # r) cur
     = sh_lex r (Some (unwrap_or cur [] @ p @ s))" if "CHR 0x27 \<notin> set p"
  using that
proof (induction s arbitrary: p cur)
  case Nil
  have "split_once (CHR 0x27) (p @ CHR 0x27 # r) = Some (p, r)" using Nil by (simp add: split_once_Some)
  then show ?case by simp
next
  case (Cons c s)
  show ?case
  proof (cases "c = CHR 0x27")
    case True
    let ?t = "str_replace single_quote quote_escape s @ CHR 0x27 # r"
    have e: "str_replace single_quote quote_escape (c # s) @ CHR 0x27 # r = CHR 0x27 # CHR 0x5C # CHR 0x27 # CHR 0x27 # ?t"
      unfolding replace_quote_Cons using True by (simp add: quote_escape_def)
    have "split_once (CHR 0x27) (p @ CHR 0x27 # CHR 0x5C # CHR 0x27 # CHR 0x27 # ?t)
        = Some (p, CHR 0x5C # CHR 0x27 # CHR 0x27 # ?t)"
      using Cons.prems by (simp add: split_once_Some)
    then have "sh_lex (CHR 0x27 # p @ str_replace single_quote quote_escape (c # s) @ CHR 0x27 # r) cur
        = sh_lex (CHR 0x27 # [] @ ?t) (Some (unwrap_or cur [] @ p @ [CHR 0x27]))"
      unfolding e by simp
    then show ?thesis using Cons.IH [of "[]" "Some (unwrap_or cur [] @ p @ [CHR 0x27])"] True by simp
  next
    case False
    then show ?thesis using Cons.IH [of "p @ [c]" cur] Cons.prems by (simp add: replace_quote_Cons)
  qed
qed

lemma sh_lex_quote: "sh_lex (shell_quote s @ r) None = sh_lex r (Some s)"
proof (cases "s \<noteq> [] \<and> list_all shell_safe s")
  case True
  then show ?thesis by (simp add: shell_quote_def sh_lex_safe)
next
  case False
  then have q: "shell_quote s = single_quote @ str_replace single_quote quote_escape s @ single_quote"
    by (simp only: shell_quote_def if_False)
  show ?thesis using sh_lex_quoted [of "[]" s r None] unfolding q by (simp add: single_quote_def)
qed

lemma sh_words_join: "sh_words (join '' '' (map shell_quote ws)) = Some ws"
proof (induction ws rule: induct_list012)
  case 1
  then show ?case by (simp add: sh_words_def)
next
  case (2 x)
  then show ?case using sh_lex_quote [of x "[]"] by (simp add: sh_words_def)
next
  case (3 x y zs)
  then show ?case by (simp add: sh_words_def sh_lex_quote)
qed

text \<open>
  C28. The command line of a shed reads back as its argument vector: whatever the shed, host, session
  and key-file names contain, a POSIX shell splits it into exactly the arguments, and no character of
  them is interpreted.
\<close>

theorem ssh_command_reads_back:
  "sh_words (tc_command (ssh_command shed host port known_hosts session))
    = Some (tc_argv (ssh_command shed host port known_hosts session))"
  unfolding ssh_command_def Let_def terminal_command.select_convs by (rule sh_words_join)

section \<open>The AppleScript fallback\<close>

text \<open>Reading a quoted AppleScript string: up to the first bare quote, with backslash escapes.\<close>

fun applescript_read :: "string \<Rightarrow> (string \<times> string) option" where
  "applescript_read [] = None"
| "applescript_read (c # cs) =
     (if c = CHR 0x22 then Some ([], cs)
      else if c = CHR 0x5C
      then (case cs of [] \<Rightarrow> None | d # ds \<Rightarrow> map_option (\<lambda>(a, b). (d # a, b)) (applescript_read ds))
      else map_option (\<lambda>(a, b). (c # a, b)) (applescript_read cs))"

lemma applescript_escape_Cons:
  "applescript_escape (c # cs) =
     (if c = CHR 0x22 \<or> c = CHR 0x5C then CHR 0x5C # c # applescript_escape cs else c # applescript_escape cs)"
  by (simp add: applescript_escape_def str_replace.simps(2))

text \<open>
  In the macOS fallback the command line is embedded so that it cannot leave its AppleScript
  string: reading the literal yields exactly the command line, up to the closing quote.
\<close>

lemma applescript_embedding:
  "applescript_read (applescript_escape cmd @ CHR 0x22 # rest) = Some (cmd, rest)"
proof (induction cmd)
  case Nil
  then show ?case by (simp add: applescript_escape_def)
next
  case (Cons c cs)
  then show ?case by (simp add: applescript_escape_Cons)
qed

end
