(* ===== verification/Prefs.thy ===== *)
theory Prefs
  imports Terminal Coordinator_Behaviour
begin

text \<open>
  The persisted preferences (\<^verbatim>\<open>tauri/src-tauri/src/prefs.rs\<close>) and how the app ties them to the coordinator
  (\<^verbatim>\<open>ssh_prefs_wire\<close>, \<^verbatim>\<open>ssh_prefs_from_store\<close> and \<^verbatim>\<open>set_ssh_approval\<close> in \<^verbatim>\<open>tauri/src-tauri/src/lib.rs\<close>). The file is
  part of the store's state; whether a write succeeds is an argument of the operation. The JSON text syntax
  is a pair of parameters, \<open>ser\<close> and \<open>parse\<close>. No code panics while it holds the store's lock, so the branches
  for a poisoned lock are left out.
\<close>

section \<open>Wire names\<close>

fun approval_method_wire :: "approval_method \<Rightarrow> string" where
  "approval_method_wire MBiometricsOrPassword = ''biometrics-or-password''"
| "approval_method_wire MBiometrics = ''biometrics''"
| "approval_method_wire MPrompt = ''prompt''"

fun ssh_policy_wire :: "ssh_approval_policy \<Rightarrow> string" where
  "ssh_policy_wire AlwaysAllow = ''always-allow''"
| "ssh_policy_wire PerShedAllow = ''per-shed-allow''"
| "ssh_policy_wire TimeBasedAllow = ''time-based-allow''"
| "ssh_policy_wire AlwaysAsk = ''always-ask''"
| "ssh_policy_wire AlwaysDeny = ''always-deny''"

definition decode_approval_method :: "json \<Rightarrow> approval_method option" where
  "decode_approval_method =
     as_unit_variant (variant_named approval_method_wire [MBiometricsOrPassword, MBiometrics, MPrompt])"

definition decode_ssh_policy :: "json \<Rightarrow> ssh_approval_policy option" where
  "decode_ssh_policy =
     as_unit_variant (variant_named ssh_policy_wire [AlwaysAllow, PerShedAllow, TimeBasedAllow, AlwaysAsk, AlwaysDeny])"

definition decode_terminal_preset :: "json \<Rightarrow> terminal_preset option" where
  "decode_terminal_preset = as_unit_variant (variant_named preset_id [Ghostty, Roost, Custom])"

section \<open>The preferences file\<close>

record prefs =
  pf_terminal_preset :: terminal_preset
  pf_terminal_template :: string
  pf_ssh_method :: "string option"
  pf_ssh_policy :: "string option"
  pf_ssh_ttl :: "string option"

definition default_prefs :: prefs where
  "default_prefs =
     \<lparr>pf_terminal_preset = Custom, pf_terminal_template = [], pf_ssh_method = None, pf_ssh_policy = None, pf_ssh_ttl = None\<rparr>"

definition encode_prefs :: "prefs \<Rightarrow> json" where
  "encode_prefs p = JObj (
     [(''terminal_preset'', JStr (preset_id (pf_terminal_preset p))),
      (''terminal_template'', JStr (pf_terminal_template p))]
     @ opt_field ''ssh_method'' JStr (pf_ssh_method p) @ opt_field ''ssh_policy'' JStr (pf_ssh_policy p)
     @ opt_field ''ssh_ttl'' JStr (pf_ssh_ttl p))"

definition prefs_fields :: "field_spec list" where
  "prefs_fields =
     [(''terminal_preset'', True), (''terminal_template'', True), (''ssh_method'', True), (''ssh_policy'', True),
      (''ssh_ttl'', True)]"

definition decode_prefs :: "json \<Rightarrow> prefs option" where
  "decode_prefs v =
     do { fs \<leftarrow> struct_fields prefs_fields v;
          preset \<leftarrow> rd_default Custom decode_terminal_preset fs ''terminal_preset'';
          template \<leftarrow> rd_default [] as_str fs ''terminal_template'';
          m \<leftarrow> rd_opt as_str fs ''ssh_method'';
          p \<leftarrow> rd_opt as_str fs ''ssh_policy'';
          t \<leftarrow> rd_opt as_str fs ''ssh_ttl'';
          Some \<lparr>pf_terminal_preset = preset, pf_terminal_template = template, pf_ssh_method = m, pf_ssh_policy = p,
                pf_ssh_ttl = t\<rparr> }"

text \<open>The store: the copy in memory and the content of the file (\<^const>\<open>None\<close>: absent or unreadable).\<close>

record prefs_store =
  ps_inner :: prefs
  ps_file :: "string option"

text \<open>How a write ends: done, or failed and leaving something else (or the old content) in the file.\<close>

datatype write_result = Written | WriteFailed "string option"

definition prefs_load :: "(string \<Rightarrow> json option) \<Rightarrow> string option \<Rightarrow> prefs_store" where
  "prefs_load parse file =
     \<lparr>ps_inner = unwrap_or (Option.bind file (\<lambda>s. Option.bind (parse s) decode_prefs)) default_prefs, ps_file = file\<rparr>"

definition prefs_save :: "(json \<Rightarrow> string) \<Rightarrow> write_result \<Rightarrow> prefs_store \<Rightarrow> prefs_store" where
  "prefs_save ser w st =
     st\<lparr>ps_file := (case w of Written \<Rightarrow> Some (ser (encode_prefs (ps_inner st))) | WriteFailed content \<Rightarrow> content)\<rparr>"

definition prefs_set_terminal ::
  "(json \<Rightarrow> string) \<Rightarrow> write_result \<Rightarrow> terminal_preset \<Rightarrow> string option \<Rightarrow> prefs_store \<Rightarrow> prefs_store" where
  "prefs_set_terminal ser w preset template st =
     (let p = (ps_inner st)\<lparr>pf_terminal_preset := preset\<rparr>;
          p = (case template of Some t \<Rightarrow> p\<lparr>pf_terminal_template := t\<rparr> | None \<Rightarrow> p)
      in prefs_save ser w (st\<lparr>ps_inner := p\<rparr>))"

definition prefs_set_ssh ::
  "(json \<Rightarrow> string) \<Rightarrow> write_result \<Rightarrow> string \<times> string \<times> string \<Rightarrow> prefs_store \<Rightarrow> prefs_store" where
  "prefs_set_ssh ser w = (\<lambda>(m, p, t) st.
     prefs_save ser w
       (st\<lparr>ps_inner := (ps_inner st)\<lparr>pf_ssh_method := Some m, pf_ssh_policy := Some p, pf_ssh_ttl := Some t\<rparr>\<rparr>))"

section \<open>The SSH preferences of the coordinator\<close>

definition encode_ssh_prefs :: "ssh_prefs \<Rightarrow> json" where
  "encode_ssh_prefs p =
     JObj [(''method'', JStr (approval_method_wire (sp_method p))), (''policy'', JStr (ssh_policy_wire (sp_policy p))),
           (''ttl'', JStr (sp_ttl p))]"

definition ssh_prefs_wire :: "ssh_prefs \<Rightarrow> string \<times> string \<times> string" where
  "ssh_prefs_wire p =
     (let v = encode_ssh_prefs p;
          field = (\<lambda>k. unwrap_or (Option.bind (json_get v k) as_str) [])
      in (field ''method'', field ''policy'', field ''ttl''))"

definition parse_wire :: "(json \<Rightarrow> 'a option) \<Rightarrow> string \<Rightarrow> 'a option" where
  "parse_wire rd s = rd (JStr s)"

definition ssh_prefs_from_store :: "prefs_store \<Rightarrow> ssh_prefs" where
  "ssh_prefs_from_store store =
     (let stored = ps_inner store;
          ssh = default_ssh_prefs;
          ssh = (case Option.bind (pf_ssh_method stored) (parse_wire decode_approval_method) of
                   Some m \<Rightarrow> ssh\<lparr>sp_method := m\<rparr> | None \<Rightarrow> ssh);
          ssh = (case Option.bind (pf_ssh_policy stored) (parse_wire decode_ssh_policy) of
                   Some p \<Rightarrow> ssh\<lparr>sp_policy := p\<rparr> | None \<Rightarrow> ssh)
      in (case opt_filter (\<lambda>t. t \<noteq> []) (pf_ssh_ttl stored) of Some t \<Rightarrow> ssh\<lparr>sp_ttl := t\<rparr> | None \<Rightarrow> ssh))"

section \<open>Changing the SSH settings\<close>

text \<open>
  \<^verbatim>\<open>set_ssh_approval\<close>, the command of the Preferences view (the IPC operation \<^verbatim>\<open>ui.set_ssh_approval\<close> is the same
  code), in its three steps: the coordinator applies the change, answers with its preferences, and these
  are written to the store. Between two of its steps other commands may run.
\<close>

record settings =
  se_coord :: coord
  se_store :: prefs_store
  se_read :: "(nat, ssh_prefs) hmap"

datatype settings_step =
    SsApply cenv "approval_method option" "ssh_approval_policy option" "string option"
  | SsRead nat
  | SsPersist nat write_result
  | SsTerminal terminal_preset "string option" write_result

fun settings_exec :: "(json \<Rightarrow> string) \<Rightarrow> settings_step \<Rightarrow> settings \<Rightarrow> settings" where
  "settings_exec ser (SsApply env m p t) s = s\<lparr>se_coord := set_ssh_approval env m p t (se_coord s)\<rparr>"
| "settings_exec ser (SsRead k) s = s\<lparr>se_read := hm_insert k (ssh (se_coord s)) (se_read s)\<rparr>"
| "settings_exec ser (SsPersist k w) s =
     (case hm_get (se_read s) k of
        Some p \<Rightarrow> s\<lparr>se_store := prefs_set_ssh ser w (ssh_prefs_wire p) (se_store s), se_read := hm_remove k (se_read s)\<rparr>
      | None \<Rightarrow> s)"
| "settings_exec ser (SsTerminal preset template w) s =
     s\<lparr>se_store := prefs_set_terminal ser w preset template (se_store s)\<rparr>"

definition set_ssh_command ::
  "cenv \<Rightarrow> nat \<Rightarrow> approval_method option \<Rightarrow> ssh_approval_policy option \<Rightarrow> string option \<Rightarrow> write_result \<Rightarrow> settings_step list" where
  "set_ssh_command env k m p t w = [SsApply env m p t, SsRead k, SsPersist k w]"

section \<open>Reading back\<close>

lemma method_reads_back [simp]: "decode_approval_method (JStr (approval_method_wire m)) = Some m"
  by (cases m) (simp_all add: decode_approval_method_def variant_named_def)

lemma policy_reads_back [simp]: "decode_ssh_policy (JStr (ssh_policy_wire p)) = Some p"
  by (cases p) (simp_all add: decode_ssh_policy_def variant_named_def)

lemma preset_reads_back [simp]: "decode_terminal_preset (JStr (preset_id t)) = Some t"
  by (cases t) (simp_all add: decode_terminal_preset_def variant_named_def)

lemma decode_encode_prefs: "decode_prefs (encode_prefs p) = Some p"
  by (cases p)
     (auto simp: decode_prefs_def encode_prefs_def prefs_fields_def rd_vals opt_val_def split: option.splits)

interpretation prefs_codec: wire_codec encode_prefs decode_prefs
  by unfold_locales (rule decode_encode_prefs)

lemma ssh_prefs_wire_eq [simp]:
  "ssh_prefs_wire p = (approval_method_wire (sp_method p), ssh_policy_wire (sp_policy p), sp_ttl p)"
  by (simp add: ssh_prefs_wire_def encode_ssh_prefs_def json_get_def)

text \<open>The preferences a restarted coordinator starts from: an empty TTL is read as the default.\<close>

definition rehydrated :: "ssh_prefs \<Rightarrow> ssh_prefs" where
  "rehydrated p = (if sp_ttl p = [] then p\<lparr>sp_ttl := default_approval_ttl\<rparr> else p)"

lemma from_store_set_ssh: "ssh_prefs_from_store (prefs_set_ssh ser w (ssh_prefs_wire p) st) = rehydrated p"
  by (auto simp: ssh_prefs_from_store_def prefs_set_ssh_def prefs_save_def parse_wire_def rehydrated_def
      default_ssh_prefs_def opt_filter_def)

lemma set_fields [simp]:
  "pf_terminal_preset (ps_inner (prefs_set_ssh ser w v st)) = pf_terminal_preset (ps_inner st)"
  "pf_terminal_template (ps_inner (prefs_set_ssh ser w v st)) = pf_terminal_template (ps_inner st)"
  "ssh_prefs_from_store (prefs_set_terminal ser w preset template st) = ssh_prefs_from_store st"
  "ps_inner (prefs_save ser w st) = ps_inner st"
  by (auto simp: prefs_set_ssh_def prefs_save_def prefs_set_terminal_def ssh_prefs_from_store_def Let_def
      split: prod.splits option.splits)

lemma load_saved:
  assumes "parse (ser (encode_prefs (ps_inner st))) = Some (encode_prefs (ps_inner st))"
    and "ps_file st = Some (ser (encode_prefs (ps_inner st)))"
  shows "prefs_load parse (ps_file st) = st"
  using assms by (cases st) (simp add: prefs_load_def decode_encode_prefs)


section \<open>Interleaved changes\<close>

text \<open>
  The steps that may run between a command's read and its write, and after its write: none applies
  another change to the coordinator, and nothing after it fails to write or writes other settings.
\<close>

fun between :: "nat \<Rightarrow> settings_step \<Rightarrow> bool" where
  "between k (SsApply env m p t) = False"
| "between k (SsRead j) = (j \<noteq> k)"
| "between k (SsPersist j w) = (j \<noteq> k)"
| "between k (SsTerminal preset template w) = True"

fun afterwards :: "settings_step \<Rightarrow> bool" where
  "afterwards (SsRead j) = True"
| "afterwards (SsTerminal preset template w) = (w = Written)"
| "afterwards x = False"

definition in_file :: "(json \<Rightarrow> string) \<Rightarrow> settings \<Rightarrow> bool" where
  "in_file ser s \<longleftrightarrow>
     ps_file (se_store s) = Some (ser (encode_prefs (ps_inner (se_store s))))
     \<and> ssh_prefs_from_store (se_store s) = rehydrated (ssh (se_coord s))"

lemma ssh_reevaluate_one [simp]: "ssh (reevaluate_one env grants i s) = ssh s"
  by (auto simp: reevaluate_one_def Let_def split: option.splits policy_action.splits)

lemma ssh_reevaluate_all [simp]: "ssh (fold (reevaluate_one env grants) ks s) = ssh s"
  by (induction ks arbitrary: s) simp_all

lemma ssh_set_ssh_approval:
  "ssh (set_ssh_approval env m p t s) =
   \<lparr>sp_method = unwrap_or m (sp_method (ssh s)), sp_policy = unwrap_or p (sp_policy (ssh s)),
    sp_ttl = unwrap_or t (sp_ttl (ssh s))\<rparr>"
  by (cases m; cases p; cases t) (simp_all add: set_ssh_approval_def reevaluate_pending_def Let_def)

lemma between_step:
  "between k x \<Longrightarrow>
   se_coord (settings_exec ser x s) = se_coord s
   \<and> hm_get (se_read (settings_exec ser x s)) k = hm_get (se_read s) k"
  by (cases x) (auto split: option.splits)

lemma between_steps:
  "list_all (between k) xs \<Longrightarrow>
   se_coord (fold (settings_exec ser) xs s) = se_coord s
   \<and> hm_get (se_read (fold (settings_exec ser) xs s)) k = hm_get (se_read s) k"
  by (induction xs arbitrary: s) (auto simp: between_step)

lemma persist_in_file:
  "hm_get (se_read s) k = Some (ssh (se_coord s)) \<Longrightarrow> in_file ser (settings_exec ser (SsPersist k Written) s)"
  by (simp add: in_file_def from_store_set_ssh del: ssh_prefs_wire_eq)
     (simp add: prefs_set_ssh_def prefs_save_def)

lemma set_terminal_file:
  "ps_file (prefs_set_terminal ser Written preset template st) =
   Some (ser (encode_prefs (ps_inner (prefs_set_terminal ser Written preset template st))))"
  by (simp add: prefs_set_terminal_def prefs_save_def Let_def)

lemma afterwards_step: "afterwards x \<Longrightarrow> in_file ser s \<Longrightarrow> in_file ser (settings_exec ser x s)"
  by (cases x) (auto simp: in_file_def set_terminal_file)

lemma afterwards_steps: "list_all afterwards xs \<Longrightarrow> in_file ser s \<Longrightarrow> in_file ser (fold (settings_exec ser) xs s)"
  by (induction xs arbitrary: s) (auto simp: afterwards_step)

lemma command_in_file:
  assumes "list_all (between k) mid" "list_all afterwards post"
  shows "in_file ser (fold (settings_exec ser) (pre @ [SsRead k] @ mid @ [SsPersist k Written] @ post) s)"
proof -
  define s1 where "s1 = settings_exec ser (SsRead k) (fold (settings_exec ser) pre s)"
  define s2 where "s2 = fold (settings_exec ser) mid s1"
  have "hm_get (se_read s1) k = Some (ssh (se_coord s1))"
    by (simp add: s1_def)
  then have "hm_get (se_read s2) k = Some (ssh (se_coord s2))"
    using between_steps [OF assms(1)] by (simp add: s2_def)
  from afterwards_steps [OF assms(2) persist_in_file [OF this]] show ?thesis
    by (simp add: s2_def s1_def)
qed

text \<open>
  C18. The settings survive a restart. Take any run of setting changes, of the Preferences view and the IPC
  socket interleaved in every order, in which some command's write succeeded, the coordinator's settings
  had not been changed since that command read them, and only successful terminal writes followed. Then a
  restarted app loads exactly the preferences that were in memory, terminal choice included, and its
  coordinator starts with the method, policy and TTL that the running one held (an empty TTL as the default).
\<close>

theorem settings_survive_restart:
  assumes "list_all (between k) mid" "list_all afterwards post"
    and "final = fold (settings_exec ser) (pre @ [SsRead k] @ mid @ [SsPersist k Written] @ post) s"
    and "parse (ser (encode_prefs (ps_inner (se_store final)))) = Some (encode_prefs (ps_inner (se_store final)))"
  shows "prefs_load parse (ps_file (se_store final)) = se_store final
         \<and> ssh_prefs_from_store (prefs_load parse (ps_file (se_store final))) = rehydrated (ssh (se_coord final))"
proof -
  have "in_file ser final"
    unfolding assms(3) by (rule command_in_file [OF assms(1,2)])
  with load_saved [of parse ser, OF assms(4)] show ?thesis
    by (simp add: in_file_def)
qed

definition demo_settings :: settings where
  "demo_settings = fold (settings_exec (\<lambda>_. ''{}''))
     ([SsApply (demo_env 11) (Some MPrompt) None (Some ''2h'')] @ [SsRead 0] @ [SsTerminal Ghostty None (WriteFailed None)]
      @ [SsPersist 0 Written] @ [SsTerminal Roost (Some ''t'') Written])
     \<lparr>se_coord = demo_init, se_store = \<lparr>ps_inner = default_prefs, ps_file = None\<rparr>, se_read = []\<rparr>"

theorem settings_survive_restart_witness:
  "ssh_prefs_from_store (prefs_load (\<lambda>_. Some (encode_prefs (ps_inner (se_store demo_settings)))) (ps_file (se_store demo_settings)))
     = \<lparr>sp_method = MPrompt, sp_policy = TimeBasedAllow, sp_ttl = ''2h''\<rparr>"
proof -
  have "ssh (se_coord demo_settings) = \<lparr>sp_method = MPrompt, sp_policy = TimeBasedAllow, sp_ttl = ''2h''\<rparr>"
    by (simp add: demo_settings_def ssh_set_ssh_approval demo_init_def coord_init_def default_ssh_prefs_def)
  then show ?thesis
    using settings_survive_restart [of 0 "[SsTerminal Ghostty None (WriteFailed None)]" "[SsTerminal Roost (Some ''t'') Written]"
        demo_settings _ _ _ "\<lambda>_. Some (encode_prefs (ps_inner (se_store demo_settings)))", OF _ _ demo_settings_def]
    by (auto simp: rehydrated_def)
qed

text \<open>
  The condition on the reads is needed: a command that read its settings before another command ran
  completely writes the older settings over the newer ones.
\<close>

lemma late_write_restores_old_settings:
  assumes "ssh (se_coord s) \<noteq> ssh (set_ssh_approval env m p t (se_coord s))" "k \<noteq> j"
    and "sp_ttl (ssh (se_coord s)) \<noteq> []"
  shows "ssh_prefs_from_store (se_store (fold (settings_exec ser)
            ([SsRead k] @ set_ssh_command env j m p t Written @ [SsPersist k Written]) s)) = ssh (se_coord s)
         \<and> ssh (se_coord (fold (settings_exec ser)
            ([SsRead k] @ set_ssh_command env j m p t Written @ [SsPersist k Written]) s)) \<noteq> ssh (se_coord s)"
  using assms by (simp add: set_ssh_command_def from_store_set_ssh rehydrated_def del: ssh_prefs_wire_eq)

end
