(* ===== verification/Instance.thy ===== *)
theory Instance
  imports Json
begin

text \<open>
  Start-up of the desktop app: its configuration from the environment (\<^verbatim>\<open>tauri/src-tauri/src/env.rs\<close>) and the
  single-instance guard (\<^verbatim>\<open>tauri/src-tauri/src/single_instance.rs\<close>) with the order of lock, bind and exit that
  \<^verbatim>\<open>run\<close> in \<^verbatim>\<open>lib.rs\<close> follows. The environment is a function from names to values (Unicode text); the lock
  file, the lock and the socket are a shared state on which launches interleave.
\<close>

section \<open>Paths\<close>

definition path_join :: "string \<Rightarrow> string \<Rightarrow> string" where
  "path_join dir name =
     (if starts_with ''/'' name then name
      else if dir = [] \<or> last dir = CHR ''/'' then dir @ name else dir @ ''/'' @ name)"

text \<open>\<^verbatim>\<open>Path::parent\<close>, on the reversed text: trailing separators and \<^verbatim>\<open>.\<close> components do not count.\<close>

fun trim_components :: "string \<Rightarrow> string" where
  "trim_components [] = []"
| "trim_components (c # r) =
     (if c = CHR ''/'' then (if r = [] then ''/'' else trim_components r)
      else if c = CHR ''.'' \<and> r \<noteq> [] \<and> hd r = CHR ''/'' then trim_components r
      else c # r)"

definition path_parent :: "string \<Rightarrow> string option" where
  "path_parent p =
     (let r = trim_components (rev p) in
      if r = [] \<or> r = ''/'' then None
      else Some (rev (trim_components (dropWhile (\<lambda>c. c \<noteq> CHR ''/'') r))))"

section \<open>The environment\<close>

record app_env =
  ae_test_mode :: bool
  ae_mock_base_url :: "string option"
  ae_config_path :: string
  ae_socket_path :: string
  ae_host_agent_socket :: string

definition env_home :: "(string \<Rightarrow> string option) \<Rightarrow> string" where
  "env_home vars = unwrap_or (vars ''HOME'') []"

definition default_host_agent_socket :: "bool \<Rightarrow> (string \<Rightarrow> string option) \<Rightarrow> string" where
  "default_host_agent_socket macos vars =
     (let dir = (case vars ''SHED_HOST_AGENT_SOCKET_DIR'' of
                   Some explicit \<Rightarrow> explicit
                 | None \<Rightarrow>
                     if macos then path_join (env_home vars) ''Library/Application Support/shed''
                     else case opt_filter (\<lambda>x. x \<noteq> []) (vars ''XDG_RUNTIME_DIR'') of
                       Some xdg \<Rightarrow> path_join xdg ''shed''
                     | None \<Rightarrow> path_join (env_home vars) ''.local/share/shed'')
      in path_join dir ''host-agent.sock'')"

definition default_config_path :: "(string \<Rightarrow> string option) \<Rightarrow> string" where
  "default_config_path vars = path_join (env_home vars) ''.shed/config.yaml''"

definition default_socket_path :: "nat \<Rightarrow> (string \<Rightarrow> string option) \<Rightarrow> string" where
  "default_socket_path uid vars =
     (let dir = (case vars ''XDG_RUNTIME_DIR'' of
                   Some x \<Rightarrow> if x \<noteq> [] then x else ''/tmp/shed-tauri-'' @ nat_to_string uid
                 | None \<Rightarrow> ''/tmp/shed-tauri-'' @ nat_to_string uid)
      in path_join dir ''shed-tauri.sock'')"

definition env_from_process :: "bool \<Rightarrow> nat \<Rightarrow> (string \<Rightarrow> string option) \<Rightarrow> app_env" where
  "env_from_process macos uid vars =
     (let var = (\<lambda>k. opt_filter (\<lambda>v. v \<noteq> []) (vars k));
          test_mode = (vars ''SHED_TAURI_TEST_MODE'' = Some ''1'')
      in \<lparr>ae_test_mode = test_mode,
          ae_mock_base_url = var ''SHED_TAURI_MOCK_BASE_URL'',
          ae_config_path = unwrap_or (var ''SHED_TAURI_SHED_CONFIG'') (if test_mode then [] else default_config_path vars),
          ae_socket_path = unwrap_or (var ''SHED_TAURI_SOCKET'') (default_socket_path uid vars),
          ae_host_agent_socket = unwrap_or (var ''SHED_TAURI_HOST_AGENT_SOCKET'') (default_host_agent_socket macos vars)\<rparr>)"

section \<open>The instance lock\<close>

definition lock_path_for :: "string \<Rightarrow> string" where
  "lock_path_for socket_path = path_join (unwrap_or (path_parent socket_path) ''/tmp'') ''shed-tauri.lock''"

definition read_pid :: "string \<Rightarrow> nat option" where
  "read_pid content = parse_unsigned (2 ^ 32 - 1) (trim content)"

datatype acquire_error = AlreadyHeld nat | LockIo

text \<open>How far a launched process has come: it holds the lock, has emptied the file, has written its pid, or
  runs with its socket bound; \<open>PhUnlocked\<close> is a process that could not use the lock file and goes on without.\<close>

datatype phase = PhLocked | PhTruncated | PhRecorded | PhUnlocked | PhBound

record machine_state =
  ms_pidfile :: string
  ms_holder :: "nat option"
  ms_socket :: "nat option"
  ms_phase :: "(nat, phase) hmap"

datatype launch_event =
    LaunchTry nat
  | LaunchIo nat
  | LaunchTruncate nat
  | LaunchRecord nat
  | LaunchBind nat
  | LaunchExit nat

text \<open>\<^verbatim>\<open>try_lock_exclusive\<close> and, when it would block, the pid that the loser reads.\<close>

definition try_acquire :: "nat \<Rightarrow> machine_state \<Rightarrow> (acquire_error + unit) \<times> machine_state" where
  "try_acquire pid s =
     (case ms_holder s of
        Some q \<Rightarrow> (Inl (AlreadyHeld (unwrap_or (read_pid (ms_pidfile s)) 0)), s)
      | None \<Rightarrow> (Inr (), s\<lparr>ms_holder := Some pid, ms_phase := hm_insert pid PhLocked (ms_phase s)\<rparr>))"

fun launch_exec :: "launch_event \<Rightarrow> machine_state \<Rightarrow> machine_state" where
  "launch_exec (LaunchTry pid) s = snd (try_acquire pid s)"
| "launch_exec (LaunchIo pid) s = s\<lparr>ms_phase := hm_insert pid PhUnlocked (ms_phase s)\<rparr>"
| "launch_exec (LaunchTruncate pid) s = s\<lparr>ms_pidfile := [], ms_phase := hm_insert pid PhTruncated (ms_phase s)\<rparr>"
| "launch_exec (LaunchRecord pid) s =
     s\<lparr>ms_pidfile := nat_to_string pid, ms_phase := hm_insert pid PhRecorded (ms_phase s)\<rparr>"
| "launch_exec (LaunchBind pid) s = s\<lparr>ms_socket := Some pid, ms_phase := hm_insert pid PhBound (ms_phase s)\<rparr>"
| "launch_exec (LaunchExit pid) s =
     s\<lparr>ms_holder := (if ms_holder s = Some pid then None else ms_holder s), ms_phase := hm_remove pid (ms_phase s)\<rparr>"

fun launch_enabled :: "launch_event \<Rightarrow> machine_state \<Rightarrow> bool" where
  "launch_enabled (LaunchTry pid) s = (pid < 2 ^ 32 \<and> hm_get (ms_phase s) pid = None)"
| "launch_enabled (LaunchIo pid) s = (hm_get (ms_phase s) pid = None)"
| "launch_enabled (LaunchTruncate pid) s = (hm_get (ms_phase s) pid = Some PhLocked)"
| "launch_enabled (LaunchRecord pid) s = (hm_get (ms_phase s) pid = Some PhTruncated)"
| "launch_enabled (LaunchBind pid) s =
     (hm_get (ms_phase s) pid = Some PhRecorded \<or> hm_get (ms_phase s) pid = Some PhUnlocked)"
| "launch_enabled (LaunchExit pid) s = (hm_get (ms_phase s) pid \<noteq> None)"

inductive launches :: "launch_event list \<Rightarrow> machine_state \<Rightarrow> bool" where
  launches_init: "launches [] \<lparr>ms_pidfile = content, ms_holder = None, ms_socket = None, ms_phase = []\<rparr>"
| launches_step: "launches es s \<Longrightarrow> launch_enabled e s \<Longrightarrow> launches (es @ [e]) (launch_exec e s)"

inductive_cases launches_snocE: "launches (es @ [e]) s"

section \<open>At most one instance\<close>

text \<open>
  As long as no launch fails to use the lock file, every live process holds the lock, so there is at most
  one, and once it has recorded itself the file holds its pid.
\<close>

definition instance_inv :: "machine_state \<Rightarrow> bool" where
  "instance_inv s \<longleftrightarrow>
     (case ms_holder s of
        None \<Rightarrow> hm_get (ms_phase s) = Map.empty
      | Some pid \<Rightarrow>
          pid < 2 ^ 32 \<and>
          (\<exists>ph. hm_get (ms_phase s) = [pid \<mapsto> ph] \<and> ph \<noteq> PhUnlocked
             \<and> (ph = PhRecorded \<or> ph = PhBound \<longrightarrow> ms_pidfile s = nat_to_string pid)))"

fun no_io :: "launch_event \<Rightarrow> bool" where
  "no_io (LaunchIo pid) = False"
| "no_io e = True"

lemma map_of_insert_fun: "hm_get (hm_insert k v m) = (hm_get m)(k \<mapsto> v)"
  by (simp add: fun_eq_iff)

lemma map_of_remove_fun: "hm_get (hm_remove k m) = (hm_get m)(k := None)"
  by (simp add: fun_eq_iff)

lemma instance_inv_try: "instance_inv s \<Longrightarrow> launch_enabled (LaunchTry p) s \<Longrightarrow> instance_inv (launch_exec (LaunchTry p) s)"
  by (cases "ms_holder s") (auto simp: instance_inv_def try_acquire_def map_of_insert_fun intro!: exI [of _ PhLocked])

lemma instance_inv_exit: "instance_inv s \<Longrightarrow> instance_inv (launch_exec (LaunchExit p) s)"
  by (cases "ms_holder s") (auto simp: instance_inv_def map_of_remove_fun)

lemma instance_inv_own:
  assumes "instance_inv s" "hm_get (ms_phase s) p = Some ph0"
    and "ms_holder t = ms_holder s" "hm_get (ms_phase t) = (hm_get (ms_phase s))(p \<mapsto> ph)" "ph \<noteq> PhUnlocked"
    and "ph = PhRecorded \<or> ph = PhBound \<Longrightarrow> ms_pidfile t = nat_to_string p"
  shows "instance_inv t"
  using assms by (cases "ms_holder s") (auto simp: instance_inv_def split: if_splits)

lemma instance_inv_bind:
  assumes "instance_inv s" "launch_enabled (LaunchBind p) s" shows "hm_get (ms_phase s) p = Some PhRecorded \<and> ms_pidfile s = nat_to_string p"
  using assms by (cases "ms_holder s") (auto simp: instance_inv_def split: if_splits)

lemma instance_inv_step:
  assumes "instance_inv s" "launch_enabled e s" "no_io e"
  shows "instance_inv (launch_exec e s)"
proof (cases e)
  case (LaunchTry p)
  show ?thesis unfolding LaunchTry by (rule instance_inv_try [OF assms(1) assms(2) [unfolded LaunchTry]])
next
  case (LaunchTruncate p)
  with assms(2) show ?thesis
    by (intro instance_inv_own [OF assms(1), of p PhLocked _ PhTruncated]) (simp_all add: fun_eq_iff)
next
  case (LaunchRecord p)
  with assms(2) show ?thesis
    by (intro instance_inv_own [OF assms(1), of p PhTruncated _ PhRecorded]) (simp_all add: fun_eq_iff)
next
  case (LaunchBind p)
  have "hm_get (ms_phase s) p = Some PhRecorded" "ms_pidfile s = nat_to_string p"
    using instance_inv_bind [OF assms(1) assms(2) [unfolded LaunchBind]] by simp_all
  then show ?thesis
    unfolding LaunchBind by (intro instance_inv_own [OF assms(1), of p PhRecorded _ PhBound]) (simp_all add: fun_eq_iff)
next
  case (LaunchExit p)
  show ?thesis unfolding LaunchExit by (rule instance_inv_exit [OF assms(1)])
qed (use assms(3) in simp)

lemma instance_inv_launches: "launches es s \<Longrightarrow> list_all no_io es \<Longrightarrow> instance_inv s"
proof (induction rule: launches.induct)
  case (launches_init content)
  then show ?case by (simp add: instance_inv_def)
next
  case (launches_step es s e)
  then show ?case by (simp add: instance_inv_step)
qed

lemma digit_char_mem: "d < 10 \<Longrightarrow> digit_char d \<in> set ''0123456789''"
proof -
  assume "d < 10"
  then have "d = 0 \<or> d = 1 \<or> d = 2 \<or> d = 3 \<or> d = 4 \<or> d = 5 \<or> d = 6 \<or> d = 7 \<or> d = 8 \<or> d = 9" by arith
  then show ?thesis by (elim disjE) (hypsubst, code_simp)+
qed

lemma digits_not_blank:
  "set ''0123456789'' \<inter> hd ` set ws_seqs = {}" "set ''0123456789'' \<inter> hd ` set (map rev ws_seqs) = {}"
  "[] \<notin> set (map rev ws_seqs)"
  by code_simp+

lemma strip_any_first:
  assumes "[] \<notin> set ps" "c \<notin> hd ` set ps" shows "strip_any ps (c # r) = None"
proof (rule ccontr)
  assume "strip_any ps (c # r) \<noteq> None"
  then obtain p t where p: "p \<in> set ps" "c # r = p @ t" using strip_any_Some by fastforce
  with assms(1) have "hd p = c" by (cases p) auto
  with assms(2) p(1) show False by auto
qed

lemma strip_any_digit:
  assumes "c \<in> set ''0123456789''"
  shows "strip_any ws_seqs (c # r) = None" "strip_any (map rev ws_seqs) (c # r) = None"
  using digits_not_blank ws_seqs_nonempty assms by (blast intro: strip_any_first)+

lemma trim_digits:
  assumes "s \<noteq> []" "set s \<subseteq> set ''0123456789''" shows "trim s = s"
proof -
  have "hd s \<in> set s" "last s \<in> set s" using assms(1) by simp_all
  with assms have d: "hd s \<in> set ''0123456789''" "last s \<in> set ''0123456789''" by blast+
  have "strip_any ws_seqs (hd s # tl s) = None" using d(1) by (rule strip_any_digit)
  moreover have "strip_any (map rev ws_seqs) (last s # tl (rev s)) = None" using d(2) by (rule strip_any_digit)
  ultimately have "strip_any ws_seqs s = None" "strip_any (map rev ws_seqs) (rev s) = None"
    using assms(1) by (simp_all add: hd_rev [symmetric])
  then show ?thesis by (simp add: trim_def trim_end_def trim_rev_id trim_start_id)
qed

lemma trim_nat_to_string [simp]: "trim (nat_to_string n) = nat_to_string n"
  by (rule trim_digits) (auto dest!: nat_to_string_digits digit_char_mem)

lemma read_pid_recorded: "pid < 2 ^ 32 \<Longrightarrow> read_pid (nat_to_string pid) = Some pid"
  by (simp add: read_pid_def)

text \<open>
  C37. The guard of the IPC socket. Over every interleaving of launches and exits in which the lock file can
  be used: a process about to remove and bind the socket path is the only live one, so no live instance
  ever loses its socket; and a launch that finds the lock held does nothing but report, with the holder's
  own pid once the holder has recorded itself.
\<close>

theorem live_socket_is_never_taken:
  assumes "launches es s" "list_all no_io es"
  shows "(launch_enabled (LaunchBind p) s \<longrightarrow> (\<forall>q. hm_get (ms_phase s) q \<noteq> None \<longrightarrow> q = p))
     \<and> (hm_get (ms_phase s) q = Some PhBound \<and> p \<noteq> q \<longrightarrow> try_acquire p s = (Inl (AlreadyHeld q), s))"
  using instance_inv_launches [OF assms]
  by (cases "ms_holder s") (auto simp: instance_inv_def try_acquire_def read_pid_recorded split: if_splits)


fun all_enabled :: "launch_event list \<Rightarrow> machine_state \<Rightarrow> bool" where
  "all_enabled [] s = True"
| "all_enabled (e # es) s = (launch_enabled e s \<and> all_enabled es (launch_exec e s))"

lemma launches_run: "launches es0 s \<Longrightarrow> all_enabled es s \<Longrightarrow> launches (es0 @ es) (fold launch_exec es s)"
proof (induction es arbitrary: es0 s)
  case (Cons e es)
  then have "launches ((es0 @ [e]) @ es) (fold launch_exec es (launch_exec e s))"
    by (intro Cons.IH launches_step) simp_all
  then show ?case by simp
qed simp

lemma demo_launches:
  "launches [LaunchTry 7, LaunchTruncate 7, LaunchRecord 7, LaunchBind 7]
     \<lparr>ms_pidfile = ''7'', ms_holder = Some 7, ms_socket = Some 7, ms_phase = [(7, PhBound)]\<rparr>"
proof -
  have n: "nat_to_string 7 = ''7''" by code_simp
  from launches_run [OF launches_init [of "[]"], of "[LaunchTry 7, LaunchTruncate 7, LaunchRecord 7, LaunchBind 7]"]
  show ?thesis by (simp add: try_acquire_def n)
qed

theorem live_socket_is_never_taken_witness:
  "\<exists>s. launches [LaunchTry 7, LaunchTruncate 7, LaunchRecord 7, LaunchBind 7] s
     \<and> try_acquire 9 s = (Inl (AlreadyHeld 7), s)"
  using live_socket_is_never_taken [OF demo_launches, of 9 7] demo_launches by (intro exI) simp

end
