(* ===== verification/Shed_Models.thy ===== *)
theory Shed_Models
  imports Json
begin

text \<open>
  The shed-server data model (\<^verbatim>\<open>core/shed-core/src/models.rs\<close>): the read DTOs with their defensive
  decoding (absent optionals, \<^verbatim>\<open>null\<close> collections, unknown statuses, name sentinels) and the body of a
  create request.
\<close>

section \<open>Sheds\<close>

datatype shed_status = StRunning | StStopped | StStarting | StError | StUnknown

fun shed_status_wire :: "shed_status \<Rightarrow> string" where
  "shed_status_wire StRunning = ''running''"
| "shed_status_wire StStopped = ''stopped''"
| "shed_status_wire StStarting = ''starting''"
| "shed_status_wire StError = ''error''"
| "shed_status_wire StUnknown = ''unknown''"

definition shed_status_named :: "string \<Rightarrow> shed_status" where
  "shed_status_named s =
     (if s = ''running'' then StRunning else if s = ''stopped'' then StStopped
      else if s = ''starting'' then StStarting else if s = ''error'' then StError else StUnknown)"

definition decode_shed_status :: "json \<Rightarrow> shed_status option" where
  "decode_shed_status = as_unit_variant (\<lambda>s. Some (shed_status_named s))"

record server_info =
  si_name :: string
  si_version :: string
  si_backend :: "string option"
  si_ssh_port :: "int option"
  si_http_port :: "int option"

definition decode_server_info :: "json \<Rightarrow> server_info option" where
  "decode_server_info v =
     do { fs \<leftarrow> struct_fields [(''name'', False), (''version'', False), (''backend'', False), (''ssh_port'', False),
                              (''http_port'', False)] v;
          n \<leftarrow> rd_req as_str fs ''name'';
          ve \<leftarrow> rd_req as_str fs ''version'';
          b \<leftarrow> rd_opt as_str fs ''backend'';
          sp \<leftarrow> rd_opt as_i64 fs ''ssh_port'';
          hp \<leftarrow> rd_opt as_i64 fs ''http_port'';
          Some \<lparr>si_name = n, si_version = ve, si_backend = b, si_ssh_port = sp, si_http_port = hp\<rparr> }"

record shed =
  sh_host :: string
  sh_name :: string
  sh_status :: shed_status
  sh_backend :: "string option"
  sh_repo :: "string option"
  sh_image :: "string option"
  sh_image_digest :: "string option"
  sh_local_dir :: "string option"
  sh_ip_address :: "string option"
  sh_cpus :: "int option"
  sh_memory_mb :: "int option"
  sh_created_at :: "string option"
  sh_started_at :: "string option"
  sh_active_namespaces :: "string list"

definition shed_fields :: "field_spec list" where
  "shed_fields = [(''host'', True), (''name'', False), (''status'', True), (''backend'', False), (''repo'', False),
     (''image'', False), (''image_digest'', False), (''local_dir'', False), (''ip_address'', False), (''cpus'', False),
     (''memory_mb'', False), (''created_at'', False), (''started_at'', False), (''active_namespaces'', True)]"

definition decode_shed :: "json \<Rightarrow> shed option" where
  "decode_shed v =
     do { fs \<leftarrow> struct_fields shed_fields v;
          h \<leftarrow> rd_default [] as_str fs ''host'';
          n \<leftarrow> rd_req as_str fs ''name'';
          st \<leftarrow> rd_default StUnknown decode_shed_status fs ''status'';
          b \<leftarrow> rd_opt as_str fs ''backend'';
          r \<leftarrow> rd_opt as_str fs ''repo'';
          i \<leftarrow> rd_opt as_str fs ''image'';
          d \<leftarrow> rd_opt as_str fs ''image_digest'';
          l \<leftarrow> rd_opt as_str fs ''local_dir'';
          ip \<leftarrow> rd_opt as_str fs ''ip_address'';
          c \<leftarrow> rd_opt as_i64 fs ''cpus'';
          m \<leftarrow> rd_opt as_i64 fs ''memory_mb'';
          ca \<leftarrow> rd_opt as_str fs ''created_at'';
          sa \<leftarrow> rd_opt as_str fs ''started_at'';
          an \<leftarrow> null_default [] (as_list as_str) fs ''active_namespaces'';
          Some \<lparr>sh_host = h, sh_name = n, sh_status = st, sh_backend = b, sh_repo = r, sh_image = i, sh_image_digest = d,
            sh_local_dir = l, sh_ip_address = ip, sh_cpus = c, sh_memory_mb = m, sh_created_at = ca, sh_started_at = sa,
            sh_active_namespaces = an\<rparr> }"

definition nullable :: "('a \<Rightarrow> json) \<Rightarrow> 'a option \<Rightarrow> json" where
  "nullable wr x = (case x of Some v \<Rightarrow> wr v | None \<Rightarrow> JNull)"

definition encode_shed :: "shed \<Rightarrow> json" where
  "encode_shed s = JObj
     [(''host'', JStr (sh_host s)), (''name'', JStr (sh_name s)), (''status'', JStr (shed_status_wire (sh_status s))),
      (''backend'', nullable JStr (sh_backend s)), (''repo'', nullable JStr (sh_repo s)),
      (''image'', nullable JStr (sh_image s)), (''image_digest'', nullable JStr (sh_image_digest s)),
      (''local_dir'', nullable JStr (sh_local_dir s)), (''ip_address'', nullable JStr (sh_ip_address s)),
      (''cpus'', nullable JInt (sh_cpus s)), (''memory_mb'', nullable JInt (sh_memory_mb s)),
      (''created_at'', nullable JStr (sh_created_at s)), (''started_at'', nullable JStr (sh_started_at s)),
      (''active_namespaces'', JArr (map JStr (sh_active_namespaces s)))]"

definition decode_shed_list :: "json \<Rightarrow> shed list option" where
  "decode_shed_list v =
     do { fs \<leftarrow> struct_fields [(''sheds'', True)] v; null_default [] (as_list decode_shed) fs ''sheds'' }"

section \<open>Images and disk usage\<close>

definition unknown_name :: string where "unknown_name = ''?''"

record shed_image =
  im_name :: string
  im_docker_ref :: "string option"
  im_alias :: "string option"
  im_is_default :: bool
  im_cached :: bool
  im_in_use :: bool
  im_digest :: "string option"
  im_source :: "string option"
  im_size_bytes :: int

definition decode_shed_image :: "json \<Rightarrow> shed_image option" where
  "decode_shed_image v =
     do { fs \<leftarrow> struct_fields [(''name'', True), (''docker_ref'', False), (''alias'', False), (''is_default'', True),
            (''cached'', True), (''in_use'', True), (''digest'', False), (''source'', False), (''size_bytes'', True)] v;
          n \<leftarrow> rd_default unknown_name as_str fs ''name'';
          r \<leftarrow> rd_opt as_str fs ''docker_ref'';
          a \<leftarrow> rd_opt as_str fs ''alias'';
          d \<leftarrow> rd_default False as_bool fs ''is_default'';
          c \<leftarrow> rd_default False as_bool fs ''cached'';
          u \<leftarrow> rd_default False as_bool fs ''in_use'';
          g \<leftarrow> rd_opt as_str fs ''digest'';
          s \<leftarrow> rd_opt as_str fs ''source'';
          z \<leftarrow> rd_default 0 as_i64 fs ''size_bytes'';
          Some \<lparr>im_name = n, im_docker_ref = r, im_alias = a, im_is_default = d, im_cached = c, im_in_use = u, im_digest = g,
            im_source = s, im_size_bytes = z\<rparr> }"

definition decode_image_list :: "json \<Rightarrow> shed_image list option" where
  "decode_image_list v =
     do { fs \<leftarrow> struct_fields [(''images'', True)] v; null_default [] (as_list decode_shed_image) fs ''images'' }"

record disk_size =
  ds_logical :: int
  ds_physical :: int

definition zero_size :: disk_size where "zero_size = \<lparr>ds_logical = 0, ds_physical = 0\<rparr>"

definition decode_disk_size :: "json \<Rightarrow> disk_size option" where
  "decode_disk_size v =
     do { fs \<leftarrow> struct_fields [(''logical_bytes'', True), (''physical_bytes'', True)] v;
          l \<leftarrow> rd_default 0 as_i64 fs ''logical_bytes'';
          p \<leftarrow> rd_default 0 as_i64 fs ''physical_bytes'';
          Some \<lparr>ds_logical = l, ds_physical = p\<rparr> }"

record disk_entry =
  de_name :: string
  de_docker_ref :: "string option"
  de_size :: disk_size

definition decode_disk_entry :: "json \<Rightarrow> disk_entry option" where
  "decode_disk_entry v =
     do { fs \<leftarrow> struct_fields [(''name'', True), (''docker_ref'', False), (''size'', True)] v;
          n \<leftarrow> rd_default unknown_name as_str fs ''name'';
          r \<leftarrow> rd_opt as_str fs ''docker_ref'';
          z \<leftarrow> rd_default zero_size decode_disk_size fs ''size'';
          Some \<lparr>de_name = n, de_docker_ref = r, de_size = z\<rparr> }"

record disk_totals =
  dt_images :: disk_size
  dt_sheds :: disk_size
  dt_snapshots :: disk_size
  dt_orphans :: disk_size
  dt_all :: disk_size

definition zero_totals :: disk_totals where
  "zero_totals = \<lparr>dt_images = zero_size, dt_sheds = zero_size, dt_snapshots = zero_size, dt_orphans = zero_size,
     dt_all = zero_size\<rparr>"

definition decode_disk_totals :: "json \<Rightarrow> disk_totals option" where
  "decode_disk_totals v =
     do { fs \<leftarrow> struct_fields [(''images'', True), (''sheds'', True), (''snapshots'', True), (''orphans'', True),
                              (''all'', True)] v;
          i \<leftarrow> rd_default zero_size decode_disk_size fs ''images'';
          s \<leftarrow> rd_default zero_size decode_disk_size fs ''sheds'';
          n \<leftarrow> rd_default zero_size decode_disk_size fs ''snapshots'';
          r \<leftarrow> rd_default zero_size decode_disk_size fs ''orphans'';
          a \<leftarrow> rd_default zero_size decode_disk_size fs ''all'';
          Some \<lparr>dt_images = i, dt_sheds = s, dt_snapshots = n, dt_orphans = r, dt_all = a\<rparr> }"

record system_disk_usage =
  du_server_name :: "string option"
  du_backend :: "string option"
  du_images :: "disk_entry list"
  du_sheds :: "disk_entry list"
  du_orphans :: "disk_entry list"
  du_totals :: disk_totals

definition decode_system_disk_usage :: "json \<Rightarrow> system_disk_usage option" where
  "decode_system_disk_usage v =
     do { fs \<leftarrow> struct_fields [(''server_name'', False), (''backend'', False), (''images'', True), (''sheds'', True),
                              (''orphans'', True), (''totals'', True)] v;
          n \<leftarrow> rd_opt as_str fs ''server_name'';
          b \<leftarrow> rd_opt as_str fs ''backend'';
          i \<leftarrow> null_default [] (as_list decode_disk_entry) fs ''images'';
          s \<leftarrow> null_default [] (as_list decode_disk_entry) fs ''sheds'';
          r \<leftarrow> null_default [] (as_list decode_disk_entry) fs ''orphans'';
          t \<leftarrow> rd_default zero_totals decode_disk_totals fs ''totals'';
          Some \<lparr>du_server_name = n, du_backend = b, du_images = i, du_sheds = s, du_orphans = r, du_totals = t\<rparr> }"

section \<open>Egress profiles and the create request\<close>

record egress_profile =
  ep_mode :: "string option"
  ep_allow :: "string list option"
  ep_deny :: "string list option"
  ep_rule :: "string option"

definition decode_egress_profile :: "json \<Rightarrow> egress_profile option" where
  "decode_egress_profile v =
     do { fs \<leftarrow> struct_fields [(''mode'', False), (''allow'', False), (''deny'', False), (''rule'', False)] v;
          m \<leftarrow> rd_opt as_str fs ''mode'';
          a \<leftarrow> rd_opt (as_list as_str) fs ''allow'';
          d \<leftarrow> rd_opt (as_list as_str) fs ''deny'';
          r \<leftarrow> rd_opt as_str fs ''rule'';
          Some \<lparr>ep_mode = m, ep_allow = a, ep_deny = d, ep_rule = r\<rparr> }"

record egress_profile_info =
  ei_name :: string
  ei_source :: string
  ei_profile :: egress_profile

definition decode_egress_profile_info :: "json \<Rightarrow> egress_profile_info option" where
  "decode_egress_profile_info v =
     do { fs \<leftarrow> struct_fields [(''name'', False), (''source'', False), (''profile'', False)] v;
          n \<leftarrow> rd_req as_str fs ''name'';
          s \<leftarrow> rd_req as_str fs ''source'';
          p \<leftarrow> rd_req decode_egress_profile fs ''profile'';
          Some \<lparr>ei_name = n, ei_source = s, ei_profile = p\<rparr> }"

record create_shed_request =
  cr_name :: string
  cr_repo :: "string option"
  cr_local_dir :: "string option"
  cr_image :: "string option"
  cr_backend :: "string option"
  cr_cpus :: "int option"
  cr_memory_mb :: "int option"
  cr_no_provision :: "bool option"

definition encode_create_shed_request :: "create_shed_request \<Rightarrow> json" where
  "encode_create_shed_request r = JObj
     ([(''name'', JStr (cr_name r))] @ opt_field ''repo'' JStr (cr_repo r) @ opt_field ''local_dir'' JStr (cr_local_dir r)
      @ opt_field ''image'' JStr (cr_image r) @ opt_field ''backend'' JStr (cr_backend r)
      @ opt_field ''cpus'' JInt (cr_cpus r) @ opt_field ''memory_mb'' JInt (cr_memory_mb r)
      @ opt_field ''no_provision'' JBool (cr_no_provision r))"

section \<open>Lemmas\<close>

lemma decode_status_total: "decode_shed_status (JStr s) = Some (shed_status_named s)"
  by (simp add: decode_shed_status_def)

lemma status_roundtrip: "decode_shed_status (JStr (shed_status_wire st)) = Some st"
  by (cases st) (simp_all add: decode_shed_status_def shed_status_named_def)

definition i64_fits :: "int option \<Rightarrow> bool" where
  "i64_fits x = (case x of Some i \<Rightarrow> - (2 ^ 63) \<le> i \<and> i < 2 ^ 63 | None \<Rightarrow> True)"

lemma opt_val_nullable [simp]:
  "opt_val as_str (Some (nullable JStr x)) = Some x"
  "i64_fits y \<Longrightarrow> opt_val as_i64 (Some (nullable JInt y)) = Some y"
  by (cases x; simp add: nullable_def) (cases y; simp add: nullable_def opt_val_def as_i64_def i64_fits_def)

lemma decode_encode_shed:
  assumes "i64_fits (sh_cpus s)" "i64_fits (sh_memory_mb s)"
  shows "decode_shed (encode_shed s) = Some s"
proof -
  have "all_some (map (as_str \<circ> JStr) xs) = Some xs" for xs
    using all_some_map [of xs "as_str \<circ> JStr" id] by simp
  then show ?thesis
    using assms by (cases s) (simp add: decode_shed_def encode_shed_def shed_fields_def rd_vals status_roundtrip)
qed

lemma empty_sheds:
  "decode_shed_list (JObj []) = Some []" "decode_shed_list (JObj [(''sheds'', JNull)]) = Some []"
  by (simp_all add: decode_shed_list_def rd_vals)

end
