(* ===== verification/Sse.thy ===== *)
theory Sse
  imports Prelude
begin

text \<open>
  Server-sent events (\<^verbatim>\<open>core/shed-core/src/sse.rs\<close>): a parser fed with byte chunks. Lines are decoded
  with \<^verbatim>\<open>String::from_utf8_lossy\<close>, written out here: every maximal prefix of an ill-formed UTF-8
  sequence becomes one U+FFFD.
\<close>

section \<open>Lossy UTF-8 decoding\<close>

definition byte_in :: "nat \<Rightarrow> nat \<Rightarrow> char \<Rightarrow> bool" where
  "byte_in lo hi c \<longleftrightarrow> lo \<le> of_char c \<and> of_char c \<le> hi"

text \<open>The ranges of the continuation bytes that a lead byte needs; \<^const>\<open>None\<close> for an invalid lead byte.\<close>

definition utf8_tail :: "char \<Rightarrow> (nat \<times> nat) list option" where
  "utf8_tail c =
     (let n = (of_char c :: nat); k = (0x80, 0xBF) in
      if n < 0x80 then Some []
      else if 0xC2 \<le> n \<and> n \<le> 0xDF then Some [k]
      else if n = 0xE0 then Some [(0xA0, 0xBF), k]
      else if n = 0xED then Some [(0x80, 0x9F), k]
      else if 0xE1 \<le> n \<and> n \<le> 0xEF then Some [k, k]
      else if n = 0xF0 then Some [(0x90, 0xBF), k, k]
      else if 0xF1 \<le> n \<and> n \<le> 0xF3 then Some [k, k, k]
      else if n = 0xF4 then Some [(0x80, 0x8F), k, k]
      else None)"

text \<open>The continuation bytes taken, the rest, and whether the sequence is complete.\<close>

fun utf8_take :: "(nat \<times> nat) list \<Rightarrow> string \<Rightarrow> string \<times> string \<times> bool" where
  "utf8_take [] s = ([], s, True)"
| "utf8_take (r # rs) [] = ([], [], False)"
| "utf8_take (r # rs) (c # cs) =
     (if byte_in (fst r) (snd r) c
      then (case utf8_take rs cs of (t, u, ok) \<Rightarrow> (c # t, u, ok))
      else ([], c # cs, False))"

definition replacement_char :: string where
  "replacement_char = [CHR 0xEF, CHR 0xBF, CHR 0xBD]"

lemma utf8_take_length: "utf8_take rs s = (t, u, ok) \<Longrightarrow> length u \<le> length s"
  by (induction rs s arbitrary: t u ok rule: utf8_take.induct) (fastforce split: if_splits prod.splits)+

function utf8_lossy :: "string \<Rightarrow> string" where
  "utf8_lossy [] = []"
| "utf8_lossy (c # cs) =
     (case utf8_tail c of
        None \<Rightarrow> replacement_char @ utf8_lossy cs
      | Some rs \<Rightarrow>
          (case utf8_take rs cs of
             (t, u, ok) \<Rightarrow> (if ok then c # t else replacement_char) @ utf8_lossy u))"
  by pat_completeness auto
termination
  by (relation "measure length") (auto dest: utf8_take_length [OF sym] simp: le_imp_less_Suc)

section \<open>The parser\<close>

record sse_event =
  se_event :: string
  se_data :: string

record sse_parser =
  sp_event :: string
  sp_data :: string
  sp_line_buf :: string

definition sse_new :: sse_parser where
  "sse_new = \<lparr>sp_event = [], sp_data = [], sp_line_buf = []\<rparr>"

definition sse_flush :: "sse_parser \<Rightarrow> sse_event option \<times> sse_parser" where
  "sse_flush p =
     (if sp_event p = [] \<and> sp_data p = [] then (None, p)
      else (Some \<lparr>se_event = sp_event p, se_data = sp_data p\<rparr>, p\<lparr>sp_event := [], sp_data := []\<rparr>))"

definition push_line :: "string \<Rightarrow> sse_parser \<Rightarrow> sse_event option \<times> sse_parser" where
  "push_line raw p =
     (let line = unwrap_or (strip_suffix [CHR 0x0D] raw) raw in
      if line = [] then sse_flush p
      else if starts_with '':'' line then (None, p)
      else case strip_prefix ''event:'' line of
        Some v \<Rightarrow> (None, p\<lparr>sp_event := trim v\<rparr>)
      | None \<Rightarrow>
          (case strip_prefix ''data:'' line of
             Some v \<Rightarrow>
               (None, p\<lparr>sp_data := (if sp_data p = [] then trim v else sp_data p @ CHR 0x0A # trim v)\<rparr>)
           | None \<Rightarrow> (None, p)))"

definition take_line :: "sse_parser \<Rightarrow> sse_event option \<times> sse_parser" where
  "take_line p = push_line (utf8_lossy (sp_line_buf p)) (p\<lparr>sp_line_buf := []\<rparr>)"

fun opt_list :: "'a option \<Rightarrow> 'a list" where
  "opt_list None = []"
| "opt_list (Some x) = [x]"

definition feed_byte :: "char \<Rightarrow> sse_event list \<times> sse_parser \<Rightarrow> sse_event list \<times> sse_parser" where
  "feed_byte b st =
     (case st of (out, p) \<Rightarrow>
        if b = CHR 0x0A then (case take_line p of (ev, p') \<Rightarrow> (out @ opt_list ev, p'))
        else (out, p\<lparr>sp_line_buf := sp_line_buf p @ [b]\<rparr>))"

definition feed :: "string \<Rightarrow> sse_parser \<Rightarrow> sse_event list \<times> sse_parser" where
  "feed chunk p = fold feed_byte chunk ([], p)"

definition finish :: "sse_parser \<Rightarrow> sse_event list \<times> sse_parser" where
  "finish p =
     (case (if sp_line_buf p \<noteq> [] then (case take_line p of (ev, p') \<Rightarrow> (opt_list ev, p')) else ([], p)) of
        (out, p) \<Rightarrow> (case sse_flush p of (ev, p') \<Rightarrow> (out @ opt_list ev, p')))"

text \<open>A whole stream: every chunk is fed, then the parser is finished.\<close>

fun feed_all :: "string list \<Rightarrow> sse_parser \<Rightarrow> sse_event list \<times> sse_parser" where
  "feed_all [] p = ([], p)"
| "feed_all (c # cs) p =
     (case feed c p of (out, p') \<Rightarrow> (case feed_all cs p' of (out', q) \<Rightarrow> (out @ out', q)))"

definition sse_events :: "string list \<Rightarrow> sse_event list" where
  "sse_events chunks = (case feed_all chunks sse_new of (out, p) \<Rightarrow> out @ fst (finish p))"

section \<open>Chunks\<close>

lemma fold_feed_byte: "fold feed_byte chunk (out, p) = (out @ fst (feed chunk p), snd (feed chunk p))"
proof (induction chunk arbitrary: out p)
  case Nil
  then show ?case by (simp add: feed_def)
next
  case (Cons b bs)
  obtain o' p' where st: "feed_byte b ([], p) = (o', p')" by (cases "feed_byte b ([], p)") auto
  then have "feed_byte b (out, p) = (out @ o', p')"
    by (auto simp: feed_byte_def split: if_splits prod.splits)
  moreover have "feed (b # bs) p = fold feed_byte bs (o', p')" using st by (simp add: feed_def)
  ultimately show ?case using Cons.IH [of "out @ o'" p'] Cons.IH [of o' p'] by simp
qed

lemma feed_append: "feed (a @ b) p = (fst (feed a p) @ fst (feed b (snd (feed a p))), snd (feed b (snd (feed a p))))"
proof -
  have "feed (a @ b) p = fold feed_byte b (feed a p)" by (simp add: feed_def)
  also have "\<dots> = fold feed_byte b (fst (feed a p), snd (feed a p))" by simp
  finally show ?thesis by (simp only: fold_feed_byte)
qed

lemma feed_Nil [simp]: "feed [] p = ([], p)"
  by (simp add: feed_def)

lemma feed_all_concat: "feed_all cs p = feed (concat cs) p"
  by (induction cs arbitrary: p) (simp_all add: feed_append case_prod_unfold)

lemma sse_events_concat: "sse_events cs = sse_events [concat cs]"
  by (simp add: sse_events_def feed_all_concat)


section \<open>Round trip\<close>

text \<open>How a server writes an event: its type line, one data line per line of the payload, a blank line.\<close>

definition sse_print :: "string \<times> string list \<Rightarrow> string" where
  "sse_print ev =
     ''event: '' @ fst ev @ [CHR 0x0A] @ concat (map (\<lambda>d. ''data: '' @ d @ [CHR 0x0A]) (snd ev)) @ [CHR 0x0A]"

definition clean_text :: "string \<Rightarrow> bool" where
  "clean_text s \<longleftrightarrow> CHR 0x0A \<notin> set s \<and> utf8_lossy s = s \<and> trim s = s"

definition printable_event :: "string \<times> string list \<Rightarrow> bool" where
  "printable_event ev \<longleftrightarrow> clean_text (fst ev) \<and> list_all clean_text (snd ev) \<and> snd ev \<noteq> [] \<and> hd (snd ev) \<noteq> []"

definition read_event :: "string \<times> string list \<Rightarrow> sse_event" where
  "read_event ev = \<lparr>se_event = fst ev, se_data = join [CHR 0x0A] (snd ev)\<rparr>"

lemma utf8_lossy_ascii: "of_char c < (0x80 :: nat) \<Longrightarrow> utf8_lossy (c # cs) = c # utf8_lossy cs"
  by (simp add: utf8_tail_def Let_def)

lemma trim_space: "trim (CHR '' '' # s) = trim s"
proof -
  have "strip_any ws_seqs (CHR '' '' # s) = Some s" by (simp add: ws_seqs_def)
  then have "trim_start (CHR '' '' # s) = trim_start s" by (subst trim_start.simps) simp
  then show ?thesis by (simp add: trim_def)
qed

lemma trimmed_no_cr:
  assumes "trim s = s"
  shows "strip_suffix [CHR 0x0D] (p @ CHR '' '' # s) = None"
proof (cases s rule: rev_cases)
  case Nil
  then show ?thesis by (simp add: strip_suffix_def)
next
  case (snoc t c)
  have "trim_end s = s" using assms by (metis trim_def trim_end_idem)
  then have "trim_rev (rev s) = rev s" unfolding trim_end_def by (metis rev_rev_ident)
  then have "strip_any (map rev ws_seqs) (rev s) = None" using trim_rev_clean [of "rev s"] by simp
  then have "c \<noteq> CHR 0x0D" using snoc by (auto simp: ws_seqs_def)
  then show ?thesis using snoc by (simp add: strip_suffix_def)
qed

lemma feed_plain: "CHR 0x0A \<notin> set l \<Longrightarrow> feed l p = ([], p\<lparr>sp_line_buf := sp_line_buf p @ l\<rparr>)"
proof (induction l arbitrary: p)
  case (Cons b l)
  then have "feed (b # l) p = feed l (p\<lparr>sp_line_buf := sp_line_buf p @ [b]\<rparr>)"
    by (auto simp: feed_def feed_byte_def)
  then show ?case using Cons by simp
qed simp

lemma feed_line:
  assumes "CHR 0x0A \<notin> set l" "sp_line_buf p = []"
  shows "feed (l @ [CHR 0x0A]) p = (opt_list (fst (push_line (utf8_lossy l) p)), snd (push_line (utf8_lossy l) p))"
  using assms by (cases p) (simp add: feed_append feed_plain, simp add: feed_def feed_byte_def take_line_def case_prod_unfold)

lemma push_event_line:
  assumes "clean_text e"
  shows "push_line (''event: '' @ e) p = (None, p\<lparr>sp_event := e\<rparr>)"
proof -
  have "strip_suffix [CHR 0x0D] (''event: '' @ e) = None"
    using trimmed_no_cr [of e "''event:''"] assms by (simp add: clean_text_def)
  then show ?thesis using assms by (simp add: push_line_def starts_with_def trim_space clean_text_def)
qed

lemma push_data_line:
  assumes "clean_text d"
  shows "push_line (''data: '' @ d) p
    = (None, p\<lparr>sp_data := (if sp_data p = [] then d else sp_data p @ CHR 0x0A # d)\<rparr>)"
proof -
  have "strip_suffix [CHR 0x0D] (''data: '' @ d) = None"
    using trimmed_no_cr [of d "''data:''"] assms by (simp add: clean_text_def)
  then show ?thesis using assms by (simp add: push_line_def starts_with_def trim_space clean_text_def)
qed

lemma feed_data_line:
  assumes "clean_text d" "sp_line_buf p = []"
  shows "feed (''data: '' @ d @ [CHR 0x0A]) p
    = ([], p\<lparr>sp_data := (if sp_data p = [] then d else sp_data p @ CHR 0x0A # d)\<rparr>)"
  using feed_line [of "''data: '' @ d" p] assms push_data_line [OF assms(1), of p]
  by (simp add: utf8_lossy_ascii clean_text_def del: utf8_lossy.simps)

lemma feed_event_line:
  assumes "clean_text e" "sp_line_buf p = []"
  shows "feed (''event: '' @ e @ [CHR 0x0A]) p = ([], p\<lparr>sp_event := e\<rparr>)"
  using feed_line [of "''event: '' @ e" p] assms push_event_line [OF assms(1), of p]
  by (simp add: utf8_lossy_ascii clean_text_def del: utf8_lossy.simps)

lemma join_cons: "join sep (x # xs) = x @ concat (map (\<lambda>d. sep @ d) xs)"
  by (induction xs arbitrary: x) simp_all

lemma feed_data_lines:
  "list_all clean_text ds \<Longrightarrow> sp_line_buf p = [] \<Longrightarrow> sp_data p \<noteq> [] \<Longrightarrow>
   feed (concat (map (\<lambda>d. ''data: '' @ d @ [CHR 0x0A]) ds)) p
     = ([], p\<lparr>sp_data := sp_data p @ concat (map (\<lambda>d. [CHR 0x0A] @ d) ds)\<rparr>)"
proof (induction ds arbitrary: p)
  case (Cons d ds)
  have "feed (concat (map (\<lambda>d. ''data: '' @ d @ [CHR 0x0A]) (d # ds))) p
      = feed ((''data: '' @ d @ [CHR 0x0A]) @ concat (map (\<lambda>d. ''data: '' @ d @ [CHR 0x0A]) ds)) p"
    by simp
  then show ?case
    using Cons feed_data_line [of d p] by (simp only: feed_append) simp
qed simp

lemma feed_print:
  assumes "printable_event ev"
  shows "feed (sse_print ev) sse_new = ([read_event ev], sse_new)"
proof -
  obtain e d ds where ev: "ev = (e, d # ds)" "clean_text e" "clean_text d" "list_all clean_text ds" "d \<noteq> []"
    using assms by (cases ev; cases "snd ev") (auto simp: printable_event_def)
  let ?p = "\<lparr>sp_event = e, sp_data = d, sp_line_buf = []\<rparr>"
  let ?q = "\<lparr>sp_event = e, sp_data = join [CHR 0x0A] (d # ds), sp_line_buf = []\<rparr>"
  have blank: "feed [CHR 0x0A] ?q = ([read_event ev], sse_new)"
    using ev(5) by (simp add: feed_def feed_byte_def take_line_def push_line_def strip_suffix_def sse_flush_def
        sse_new_def read_event_def ev(1) join_cons)
  have "sse_print ev = (''event: '' @ e @ [CHR 0x0A]) @ (''data: '' @ d @ [CHR 0x0A])
      @ concat (map (\<lambda>d. ''data: '' @ d @ [CHR 0x0A]) ds) @ [CHR 0x0A]"
    by (simp add: sse_print_def ev(1))
  then show ?thesis
    using feed_event_line [OF ev(2), of sse_new] feed_data_line [OF ev(3), of "sse_new\<lparr>sp_event := e\<rparr>"]
      feed_data_lines [OF ev(4), of ?p] blank ev(5)
    by (simp only: feed_append) (simp add: sse_new_def join_cons)
qed

lemma feed_prints: "list_all printable_event evs \<Longrightarrow> feed (concat (map sse_print evs)) sse_new = (map read_event evs, sse_new)"
  by (induction evs) (simp_all add: feed_append feed_print)

text \<open>
  C27. However a server's event stream is cut into chunks, even in the middle of a line, of a blank
  line or of a character, the parser delivers exactly the events that were written, in order, each
  with its type and its data lines joined by newlines.
\<close>

theorem sse_roundtrip:
  assumes "list_all printable_event evs" and "concat chunks = concat (map sse_print evs)"
  shows "sse_events chunks = map read_event evs"
proof -
  have "feed_all chunks sse_new = (map read_event evs, sse_new)"
    using feed_prints [OF assms(1)] by (simp only: feed_all_concat assms(2))
  moreover have "finish sse_new = ([], sse_new)" by (simp add: finish_def sse_new_def sse_flush_def)
  ultimately show ?thesis by (simp add: sse_events_def)
qed

theorem sse_roundtrip_witness:
  "sse_events [''event: prog'', ''ress'' @ [CHR 0x0A] @ ''data: ab'', [CHR 0x0A], [CHR 0x0A]]
    = [\<lparr>se_event = ''progress'', se_data = ''ab''\<rparr>]"
proof -
  have t: "trim ''progress'' = ''progress''" "trim ''ab'' = ''ab''" by code_simp+
  have "list_all printable_event [(''progress'', [''ab''])]"
    by (simp add: printable_event_def clean_text_def t utf8_lossy_ascii del: utf8_lossy.simps(2))
  then show ?thesis
    using sse_roundtrip [of "[(''progress'', [''ab''])]" "[''event: prog'', ''ress'' @ [CHR 0x0A] @ ''data: ab'', [CHR 0x0A], [CHR 0x0A]]"]
    by (simp add: sse_print_def read_event_def)
qed

end
