(* ===== verification/Token.thy ===== *)
theory Token
  imports Host_Agent_Safety Timefmt
begin

text \<open>
  Control tokens: the cache with its refresh window (\<^verbatim>\<open>ControlTokenProvider\<close> in
  \<^verbatim>\<open>core/shed-core/src/token.rs\<close>) and the minter that asks the host agent
  (\<^verbatim>\<open>core/shed-app/src/token_minter.rs\<close>). The trait \<^verbatim>\<open>TokenMinter\<close> is the locale \<^verbatim>\<open>token_minter\<close>.

  The provider holds its lock over the whole of \<^verbatim>\<open>token()\<close>, so a call is one function; what the minter
  answers to that call and the clock reading are arguments.
\<close>

section \<open>Errors\<close>

datatype shed_error =
    BadStatus nat
  | Transport string
  | DecodeError string
  | CreateError string
  | ConfigError string

definition shed_error_text :: "shed_error \<Rightarrow> string" where
  "shed_error_text e =
     (case e of
        BadStatus n \<Rightarrow> ''shed-server returned HTTP '' @ nat_to_string n
      | Transport m \<Rightarrow> ''transport error: '' @ m
      | DecodeError m \<Rightarrow> ''decode error: '' @ m
      | CreateError m \<Rightarrow> ''create failed: '' @ m
      | ConfigError m \<Rightarrow> m)"

definition client_error_text :: "host_agent_client_error \<Rightarrow> string" where
  "client_error_text e =
     (case e of
        NotConnected \<Rightarrow> ''host agent not connected''
      | TimedOut \<Rightarrow> ''timed out waiting for host agent reply''
      | Disconnected \<Rightarrow> ''host agent connection dropped'')"

section \<open>The provider\<close>

record minted_token =
  mt_token :: string
  mt_expires_at :: "nat option"

record control_token_provider =
  ct_server :: string
  ct_cached :: "minted_token option"

definition provider_new :: "string \<Rightarrow> control_token_provider" where
  "provider_new server = \<lparr>ct_server = server, ct_cached = None\<rparr>"

definition refresh_window :: nat where "refresh_window = 2 * 60 * 60"

text \<open>The addition is of \<^verbatim>\<open>u64\<close>.\<close>

definition needs_refresh :: "nat \<Rightarrow> minted_token \<Rightarrow> bool" where
  "needs_refresh now t =
     (case mt_expires_at t of None \<Rightarrow> False | Some e \<Rightarrow> (now + refresh_window) mod 2 ^ 64 \<ge> e)"

definition provider_token ::
  "(string \<Rightarrow> shed_error + minted_token) \<Rightarrow> nat \<Rightarrow> control_token_provider \<Rightarrow> (shed_error + string) \<times> control_token_provider" where
  "provider_token mint now p =
     (case ct_cached p of
        Some t \<Rightarrow> if \<not> needs_refresh now t then (Inr (mt_token t), p)
                 else (case mint (ct_server p) of
                         Inl e \<Rightarrow> (Inl e, p)
                       | Inr m \<Rightarrow> if mt_token m = [] then (Inl (Transport ''control-token mint returned an empty token''), p)
                                 else (Inr (mt_token m), p\<lparr>ct_cached := Some m\<rparr>))
      | None \<Rightarrow> (case mint (ct_server p) of
                   Inl e \<Rightarrow> (Inl e, p)
                 | Inr m \<Rightarrow> if mt_token m = [] then (Inl (Transport ''control-token mint returned an empty token''), p)
                           else (Inr (mt_token m), p\<lparr>ct_cached := Some m\<rparr>)))"

definition provider_invalidate :: "control_token_provider \<Rightarrow> control_token_provider" where
  "provider_invalidate p = p\<lparr>ct_cached := None\<rparr>"

section \<open>The host-agent minter\<close>

definition map_response :: "(string \<Rightarrow> int option) \<Rightarrow> token_response \<Rightarrow> string \<Rightarrow> shed_error + minted_token" where
  "map_response rfc resp server =
     (case opt_filter (\<lambda>e. e \<noteq> []) (tr_error resp) of
        Some e \<Rightarrow> Inl (ConfigError e)
      | None \<Rightarrow>
          (case opt_filter (\<lambda>t. t \<noteq> []) (tr_token resp) of
             None \<Rightarrow> Inl (ConfigError (''host agent returned no token for '' @ server))
           | Some t \<Rightarrow>
               Inr \<lparr>mt_token = t,
                    mt_expires_at = map_option (\<lambda>s. nat (max s 0)) (Option.bind (tr_expires_at resp) (parse_unix rfc))\<rparr>))"

text \<open>The result of \<^verbatim>\<open>request_token\<close> for the server, which the client of the host agent delivers.\<close>

definition host_agent_mint ::
  "(string \<Rightarrow> int option) \<Rightarrow> (string \<Rightarrow> host_agent_client_error + token_response) \<Rightarrow> string \<Rightarrow> shed_error + minted_token" where
  "host_agent_mint rfc request server =
     (case request server of
        Inl e \<Rightarrow> Inl (Transport (client_error_text e))
      | Inr resp \<Rightarrow> map_response rfc resp server)"

section \<open>The minter's contract\<close>

locale token_minter =
  fixes mint :: "string \<Rightarrow> shed_error + minted_token"
  assumes mint_nonempty: "mint server = Inr m \<Longrightarrow> mt_token m \<noteq> []"
begin

lemma provider_mints:
  "ct_cached p = None \<or> (\<exists>t. ct_cached p = Some t \<and> needs_refresh now t) \<Longrightarrow>
   provider_token mint now p =
     (case mint (ct_server p) of Inl e \<Rightarrow> (Inl e, p) | Inr m \<Rightarrow> (Inr (mt_token m), p\<lparr>ct_cached := Some m\<rparr>))"
  using mint_nonempty by (auto simp: provider_token_def split: option.splits sum.splits)

end

interpretation host_agent_minter: token_minter "host_agent_mint rfc request" for rfc request
  by unfold_locales (auto simp: host_agent_mint_def map_response_def split: sum.splits option.splits)

definition provider_inv :: "control_token_provider \<Rightarrow> bool" where
  "provider_inv p = (case ct_cached p of Some t \<Rightarrow> mt_token t \<noteq> [] | None \<Rightarrow> True)"

lemma provider_token_inv: "provider_inv p \<Longrightarrow> provider_inv (snd (provider_token mint now p))"
  by (auto simp: provider_inv_def provider_token_def split: option.splits sum.splits if_splits)

lemma provider_token_nonempty:
  "provider_inv p \<Longrightarrow> fst (provider_token mint now p) = Inr tok \<Longrightarrow> tok \<noteq> []"
  by (auto simp: provider_inv_def provider_token_def split: option.splits sum.splits if_splits)

text \<open>The operations on a provider: a call of \<^verbatim>\<open>token()\<close> with what the minter would answer, or \<^verbatim>\<open>invalidate()\<close>.\<close>

datatype provider_op = PoToken nat "string \<Rightarrow> shed_error + minted_token" | PoInvalidate

fun provider_exec :: "provider_op \<Rightarrow> control_token_provider \<Rightarrow> control_token_provider" where
  "provider_exec (PoToken now mint) p = snd (provider_token mint now p)"
| "provider_exec PoInvalidate p = provider_invalidate p"

interpretation provider: machine provider_exec provider_inv
proof
  fix op p
  assume "provider_inv p"
  then show "provider_inv (provider_exec op p)"
    by (cases op) (simp_all add: provider_token_inv provider_invalidate_def, simp add: provider_inv_def)
qed

text \<open>
  C25. After any use of a provider, a call that would have to mint and whose mint fails returns the
  error and leaves the cache as it was; a call that returns a token returns a non-empty one, which is
  either the cached token, which has no expiry or one more than two hours (7200 s, the sum being of
  64-bit words) away, or the one just minted, which is then the cached one.
\<close>

theorem provider_token_spec:
  defines "p \<equiv> \<lambda>ops server. fold provider_exec ops (provider_new server)"
  shows "case provider_token mint now (p ops server) of
      (Inl e, q) \<Rightarrow> q = p ops server
    | (Inr tok, q) \<Rightarrow> tok \<noteq> []
        \<and> ((\<exists>t. ct_cached (p ops server) = Some t \<and> mt_token t = tok \<and> q = p ops server
              \<and> (case mt_expires_at t of None \<Rightarrow> True | Some e \<Rightarrow> (now + 7200) mod 2 ^ 64 < e))
           \<or> (\<exists>m. mint (ct_server (p ops server)) = Inr m \<and> mt_token m = tok \<and> ct_cached q = Some m))"
proof -
  have "provider_inv (p ops server)"
    unfolding p_def by (rule provider.run_inv) (simp add: provider_inv_def provider_new_def)
  then show ?thesis
    by (auto simp: provider_inv_def provider_token_def needs_refresh_def refresh_window_def
        split: option.splits sum.splits if_splits)
qed

text \<open>
  The host-agent minter is fail-closed: it yields a token exactly for a reply with no error text
  and a non-empty token, and then that token; every transport failure, error reply and empty reply is
  an error.
\<close>

lemma host_agent_mint_fail_closed:
  "(\<exists>m. host_agent_mint rfc request server = Inr m \<and> mt_token m = tok) \<longleftrightarrow>
   (\<exists>resp. request server = Inr resp \<and> tr_error resp \<in> {None, Some []} \<and> tr_token resp = Some tok \<and> tok \<noteq> [])"
  by (auto simp: host_agent_mint_def map_response_def opt_filter_def split: sum.splits option.splits if_splits)

end
