(* ===== verification/Tls.thy ===== *)
theory Tls
  imports Token
begin

text \<open>
  Leaf-certificate pinning (\<^verbatim>\<open>core/shed-core/src/tls.rs\<close>). The SHA-256 digest and the verification of
  the handshake signature are functions of the rustls and sha2 crates and stay parameters; the pin's
  text form and the accept decision are modelled.
\<close>

definition hex_digit :: "nat \<Rightarrow> char" where
  "hex_digit d = (if d < 10 then char_of (0x30 + d) else char_of (0x57 + d))"

text \<open>\<^verbatim>\<open>format!("{b:02x}")\<close>.\<close>

definition hex_byte :: "char \<Rightarrow> string" where
  "hex_byte b = [hex_digit (of_char b div 16), hex_digit (of_char b mod 16)]"

definition fingerprint :: "(string \<Rightarrow> string) \<Rightarrow> string \<Rightarrow> string" where
  "fingerprint sha256 der = ''sha256:'' @ concat (map hex_byte (sha256 der))"

definition pin_matches :: "(string \<Rightarrow> string) \<Rightarrow> string \<Rightarrow> string \<Rightarrow> bool" where
  "pin_matches sha256 leaf_der pin \<longleftrightarrow> fingerprint sha256 leaf_der = pin"

record leaf_pin_verifier =
  lv_pin :: string

definition pin_verifier :: "string \<Rightarrow> leaf_pin_verifier" where
  "pin_verifier pin = \<lparr>lv_pin = to_lowercase pin\<rparr>"

text \<open>\<open>versions\<close> is rustls's error when it cannot set up the default protocol versions.\<close>

definition pinned_client_config :: "string option \<Rightarrow> string \<Rightarrow> shed_error + leaf_pin_verifier" where
  "pinned_client_config versions pin =
     (case versions of Some e \<Rightarrow> Inl (ConfigError e) | None \<Rightarrow> Inr (pin_verifier pin))"

definition verify_server_cert :: "(string \<Rightarrow> string) \<Rightarrow> leaf_pin_verifier \<Rightarrow> string \<Rightarrow> string + unit" where
  "verify_server_cert sha256 v end_entity =
     (if pin_matches sha256 end_entity (lv_pin v) then Inr ()
      else Inl (''leaf certificate does not match pin '' @ lv_pin v))"

text \<open>
  The signature of the handshake is left to rustls and its supported algorithms (\<open>rustls12\<close>, \<open>rustls13\<close>), for the
  same certificate.
\<close>

definition verify_tls12_signature ::
  "(string \<Rightarrow> string \<Rightarrow> string \<Rightarrow> string + unit) \<Rightarrow> leaf_pin_verifier \<Rightarrow> string \<Rightarrow> string \<Rightarrow> string \<Rightarrow> string + unit" where
  "verify_tls12_signature rustls12 v message cert dss = rustls12 message cert dss"

definition verify_tls13_signature ::
  "(string \<Rightarrow> string \<Rightarrow> string \<Rightarrow> string + unit) \<Rightarrow> leaf_pin_verifier \<Rightarrow> string \<Rightarrow> string \<Rightarrow> string \<Rightarrow> string + unit" where
  "verify_tls13_signature rustls13 v message cert dss = rustls13 message cert dss"

lemma hex_digit_inj: "d < 16 \<Longrightarrow> e < 16 \<Longrightarrow> hex_digit d = hex_digit e \<Longrightarrow> d = e"
  by (auto simp: hex_digit_def char_of_eq_iff take_bit_eq_mod split: if_splits)

lemma hex_byte_inj: "hex_byte a = hex_byte b \<longleftrightarrow> a = b"
proof
  assume "hex_byte a = hex_byte b"
  then have h: "hex_digit (of_char a div 16) = hex_digit (of_char b div 16)"
    "hex_digit (of_char a mod 16) = hex_digit (of_char b mod 16)" by (simp_all add: hex_byte_def)
  have "of_char c div 16 < (16 :: nat)" for c :: char
    using nat_of_char_less_256 [of c] by (simp add: less_mult_imp_div_less)
  then have "of_char a div 16 = (of_char b div 16 :: nat)" "of_char a mod 16 = (of_char b mod 16 :: nat)"
    using h hex_digit_inj by simp_all
  then have "of_char a = (of_char b :: nat)" by (metis div_mult_mod_eq)
  then show "a = b" by simp
qed simp

lemma hex_bytes_inj: "concat (map hex_byte xs) = concat (map hex_byte ys) \<longleftrightarrow> xs = ys"
proof
  show "concat (map hex_byte xs) = concat (map hex_byte ys) \<Longrightarrow> xs = ys"
  proof (induction xs arbitrary: ys)
    case Nil
    then show ?case by (cases ys) (simp_all add: hex_byte_def)
  next
    case (Cons x xs)
    then obtain y zs where "ys = y # zs" by (cases ys) (auto simp: hex_byte_def)
    moreover have "length (hex_byte x) = length (hex_byte y)" by (simp add: hex_byte_def)
    ultimately show ?case using Cons hex_byte_inj by (auto dest: append_eq_append_conv [THEN iffD1, rotated])
  qed
qed simp

lemma fingerprint_eq: "fingerprint h a = fingerprint h b \<longleftrightarrow> h a = h b"
  by (simp add: fingerprint_def hex_bytes_inj)

text \<open>
  A pinned client accepts a handshake exactly for the certificates whose digest is the pinned
  one: with the fingerprint of a certificate as the pin, in lower or upper case, another certificate
  passes only with the same SHA-256 digest.
\<close>

lemma pin_accepts_same_digest:
  assumes "to_lowercase pin = fingerprint sha256 der" "pinned_client_config versions pin = Inr v"
  shows "verify_server_cert sha256 v leaf = Inr () \<longleftrightarrow> sha256 leaf = sha256 der"
  using assms by (auto simp: verify_server_cert_def pinned_client_config_def pin_verifier_def pin_matches_def fingerprint_eq
      split: option.splits)

end
