(* ===== verification/Http.thy ===== *)
theory Http
  imports Shed_Models Sse Tls
begin

text \<open>
  The shed-server HTTP client (\<^verbatim>\<open>core/shed-core/src/http.rs\<close>): construction with the pin check, the
  bearer token, one request with its retry on 401, the typed reads and lifecycle calls, and the
  streamed create with its sink.

  reqwest is outside: what a sent request is answered with is an argument, the requests sent are
  returned in order. serde\_json's text parser is the parameter \<^verbatim>\<open>parse\<close>; the message of a decode error is
  not modelled.
\<close>

section \<open>The client\<close>

record client =
  cl_base_url :: string
  cl_server_name :: string
  cl_token :: string
  cl_provider :: "control_token_provider option"
  cl_pin :: "leaf_pin_verifier option"

text \<open>The redirect policy of the built client.\<close>

definition redirect_follows :: "string \<Rightarrow> bool" where
  "redirect_follows scheme \<longleftrightarrow> scheme = ''https''"

text \<open>The libraries below: rustls's error for the protocol versions, and reqwest's for building the client.\<close>

record http_stack =
  hs_versions :: "string option"
  hs_build :: "leaf_pin_verifier option \<Rightarrow> string option"

definition build_http_client :: "http_stack \<Rightarrow> string option \<Rightarrow> shed_error + leaf_pin_verifier option" where
  "build_http_client stack pin =
     bind_result (case pin of None \<Rightarrow> Inr None | Some p \<Rightarrow> bind_result (pinned_client_config (hs_versions stack) p) (\<lambda>cfg. Inr (Some cfg)))
       (\<lambda>cfg. case hs_build stack cfg of Some e \<Rightarrow> Inl (Transport e) | None \<Rightarrow> Inr cfg)"

definition client_new ::
  "http_stack \<Rightarrow> string \<Rightarrow> string \<Rightarrow> string \<Rightarrow> string option \<Rightarrow> bool \<Rightarrow> shed_error + client" where
  "client_new stack base_url server_name token pin has_minter =
     (let pin = opt_filter (\<lambda>p. p \<noteq> []) pin in
      if pin \<noteq> None \<and> \<not> starts_with ''https://'' (to_lowercase base_url)
      then Inl (ConfigError (''TLS pin configured for a non-https URL '' @ base_url @ ''; refusing to send unpinned plaintext''))
      else bind_result (build_http_client stack pin) (\<lambda>http.
        Inr \<lparr>cl_base_url = base_url, cl_server_name = server_name, cl_token = token,
             cl_provider = (if has_minter then Some (provider_new server_name) else None), cl_pin = http\<rparr>))"

section \<open>Requests\<close>

datatype http_method = MGet | MPost | MDelete

record http_request =
  rq_method :: http_method
  rq_url :: string
  rq_bearer :: "string option"
  rq_timeout :: nat

text \<open>An answer: a transport error, or a status and the body or the error of reading it.\<close>

datatype http_reply = NetError string | Reply nat "string + string"

text \<open>What the surroundings do for one request: the minter's answer, the clock, the server's reply.\<close>

record nenv =
  ne_mint :: "string \<Rightarrow> shed_error + minted_token"
  ne_now :: nat
  ne_reply :: http_reply

definition get_timeout :: nat where "get_timeout = 8"
definition write_timeout :: nat where "write_timeout = 15"
definition create_idle_timeout :: nat where "create_idle_timeout = 120"

definition bearer :: "nenv \<Rightarrow> client \<Rightarrow> string option \<times> client" where
  "bearer env c =
     (case cl_provider c of
        Some p \<Rightarrow>
          (case provider_token (ne_mint env) (ne_now env) p of
             (r, p') \<Rightarrow> (opt_filter (\<lambda>t. t \<noteq> []) (result_ok r), c\<lparr>cl_provider := Some p'\<rparr>))
      | None \<Rightarrow> (if cl_token c \<noteq> [] then Some (cl_token c) else None, c))"

fun drop_slashes :: "string \<Rightarrow> string" where
  "drop_slashes [] = []"
| "drop_slashes (c # cs) = (if c = CHR ''/'' then drop_slashes cs else c # cs)"

text \<open>\<^verbatim>\<open>base_url.trim_end_matches('/')\<close> followed by the path.\<close>

definition join_url :: "string \<Rightarrow> string \<Rightarrow> string" where
  "join_url base path = rev (drop_slashes (rev base)) @ path"

definition reply_result :: "http_reply \<Rightarrow> shed_error + string" where
  "reply_result r =
     (case r of
        NetError e \<Rightarrow> Inl (Transport e)
      | Reply status body \<Rightarrow>
          if \<not> (200 \<le> status \<and> status < 300) then Inl (BadStatus status)
          else (case body of Inl e \<Rightarrow> Inl (Transport e) | Inr b \<Rightarrow> Inr b))"

definition send_once ::
  "nenv \<Rightarrow> http_method \<Rightarrow> string \<Rightarrow> nat \<Rightarrow> client \<Rightarrow> (shed_error + string) \<times> client \<times> http_request" where
  "send_once env mth path timeout c =
     (case bearer env c of
        (tok, c') \<Rightarrow>
          (reply_result (ne_reply env), c',
           \<lparr>rq_method = mth, rq_url = join_url (cl_base_url c) path, rq_bearer = tok, rq_timeout = timeout\<rparr>))"

definition invalidate :: "client \<Rightarrow> client" where
  "invalidate c = c\<lparr>cl_provider := map_option provider_invalidate (cl_provider c)\<rparr>"

definition request ::
  "nenv \<Rightarrow> nenv \<Rightarrow> http_method \<Rightarrow> string \<Rightarrow> nat \<Rightarrow> client \<Rightarrow> (shed_error + string) \<times> client \<times> http_request list" where
  "request env env' mth path timeout c =
     (case send_once env mth path timeout c of
        (r, c1, q1) \<Rightarrow>
          if r = Inl (BadStatus 401) \<and> cl_provider c1 \<noteq> None
          then (case send_once env' mth path timeout (invalidate c1) of (r2, c2, q2) \<Rightarrow> (r2, c2, [q1, q2]))
          else (r, c1, [q1]))"

section \<open>Typed calls\<close>

definition get_json ::
  "(string \<Rightarrow> json option) \<Rightarrow> (json \<Rightarrow> 'a option) \<Rightarrow> nenv \<Rightarrow> nenv \<Rightarrow> string \<Rightarrow> client \<Rightarrow> (shed_error + 'a) \<times> client" where
  "get_json parse dec env env' path c =
     (case request env env' MGet path get_timeout c of
        (r, c', _) \<Rightarrow>
          (bind_result r (\<lambda>b. case Option.bind (parse b) dec of Some x \<Rightarrow> Inr x | None \<Rightarrow> Inl (DecodeError ''json'')), c'))"

definition lifecycle :: "nenv \<Rightarrow> nenv \<Rightarrow> http_method \<Rightarrow> string \<Rightarrow> client \<Rightarrow> (shed_error + unit) \<times> client \<times> http_request list" where
  "lifecycle env env' mth path c =
     (case request env env' mth path write_timeout c of (r, c', qs) \<Rightarrow> (bind_result r (\<lambda>_. Inr ()), c', qs))"

definition info where
  "info parse env env' c = get_json parse decode_server_info env env' ''/api/info'' c"

definition list_sheds :: "(string \<Rightarrow> json option) \<Rightarrow> nenv \<Rightarrow> nenv \<Rightarrow> client \<Rightarrow> (shed_error + shed list) \<times> client" where
  "list_sheds parse env env' c =
     (case get_json parse decode_shed_list env env' ''/api/sheds'' c of
        (r, c') \<Rightarrow> (bind_result r (\<lambda>sheds. Inr (map (\<lambda>s. s\<lparr>sh_host := cl_server_name c\<rparr>) sheds)), c'))"

definition system_df where
  "system_df parse env env' c = get_json parse decode_system_disk_usage env env' ''/api/system/df'' c"

definition list_images where
  "list_images parse env env' c = get_json parse decode_image_list env env' ''/api/images'' c"

definition egress_profiles where
  "egress_profiles parse env env' c = get_json parse (as_list decode_egress_profile_info) env env' ''/api/egress/profiles'' c"

definition shed_path :: "string \<Rightarrow> string \<Rightarrow> string" where
  "shed_path name suffix = ''/api/sheds/'' @ name @ suffix"

definition start_shed where "start_shed env env' name c = lifecycle env env' MPost (shed_path name ''/start'') c"
definition stop_shed where "stop_shed env env' name c = lifecycle env env' MPost (shed_path name ''/stop'') c"
definition reset_shed where "reset_shed env env' name c = lifecycle env env' MPost (shed_path name ''/reset'') c"
definition delete_shed where "delete_shed env env' name c = lifecycle env env' MDelete (shed_path name []) c"

section \<open>Streamed create\<close>

datatype sink_call = OnProgress string | OnComplete shed | OnError string

definition decode_progress :: "(string \<Rightarrow> json option) \<Rightarrow> string \<Rightarrow> string option" where
  "decode_progress parse data =
     (case Option.bind (parse data) (\<lambda>v. do { fs \<leftarrow> struct_fields [(''message'', False)] v; rd_opt as_str fs ''message'' }) of
        Some (Some m) \<Rightarrow> Some m
      | _ \<Rightarrow> if data = [] then None else Some data)"

definition decode_error :: "(string \<Rightarrow> json option) \<Rightarrow> string \<Rightarrow> string" where
  "decode_error parse data =
     (case Option.bind (parse data) (\<lambda>v. do { fs \<leftarrow> struct_fields [(''code'', False), (''message'', False)] v;
                                              c \<leftarrow> rd_opt as_str fs ''code''; m \<leftarrow> rd_opt as_str fs ''message'';
                                              Some (c, m) }) of
        Some (c, m) \<Rightarrow> unwrap_or (opt_or m c) data
      | None \<Rightarrow> data)"

definition handle_create_event ::
  "(string \<Rightarrow> json option) \<Rightarrow> string \<Rightarrow> sse_event \<Rightarrow> sink_call list \<times> bool \<Rightarrow> shed_error + sink_call list \<times> bool" where
  "handle_create_event parse server_name ev st =
     (case st of (calls, saw) \<Rightarrow>
        if se_event ev = ''progress''
        then Inr (case decode_progress parse (se_data ev) of Some m \<Rightarrow> (calls @ [OnProgress m], saw) | None \<Rightarrow> (calls, saw))
        else if se_event ev = ''complete''
        then (case Option.bind (parse (se_data ev)) decode_shed of
                None \<Rightarrow> Inl (DecodeError ''json'')
              | Some s \<Rightarrow> Inr (calls @ [OnComplete (s\<lparr>sh_host := server_name\<rparr>)], True))
        else if se_event ev = ''error'' then Inl (CreateError (decode_error parse (se_data ev)))
        else Inr (calls, saw))"

text \<open>
  The loops over events: the calls made so far are kept beside the outcome, since an early return does
  not undo them.
\<close>

fun handle_events ::
  "(string \<Rightarrow> json option) \<Rightarrow> string \<Rightarrow> sse_event list \<Rightarrow> sink_call list \<times> bool \<Rightarrow> shed_error option \<times> sink_call list \<times> bool" where
  "handle_events parse sn [] st = (None, st)"
| "handle_events parse sn (ev # evs) st =
     (case handle_create_event parse sn ev st of
        Inl e \<Rightarrow> (Some e, st)
      | Inr st' \<Rightarrow> handle_events parse sn evs st')"

datatype stream_item = SChunk string | SError string | SIdle

fun create_loop ::
  "(string \<Rightarrow> json option) \<Rightarrow> string \<Rightarrow> stream_item list \<Rightarrow> sse_parser \<Rightarrow> sink_call list \<times> bool \<Rightarrow> shed_error option \<times> sink_call list \<times> bool" where
  "create_loop parse sn [] p st = handle_events parse sn (fst (finish p)) st"
| "create_loop parse sn (SIdle # items) p st = (Some (CreateError ''create stream idle timeout''), st)"
| "create_loop parse sn (SError e # items) p st = (Some (Transport e), st)"
| "create_loop parse sn (SChunk chunk # items) p st =
     (case feed chunk p of (evs, p') \<Rightarrow>
        (case handle_events parse sn evs st of
           (Some e, st') \<Rightarrow> (Some e, st')
         | (None, st') \<Rightarrow> create_loop parse sn items p' st'))"

datatype create_reply = CreateNetError string | CreateStream nat "stream_item list"

definition create_stream ::
  "(string \<Rightarrow> json option) \<Rightarrow> string \<Rightarrow> create_reply \<Rightarrow> shed_error option \<times> sink_call list" where
  "create_stream parse sn reply =
     (case reply of
        CreateNetError e \<Rightarrow> (Some (Transport e), [])
      | CreateStream status items \<Rightarrow>
          if \<not> (200 \<le> status \<and> status < 300) then (Some (BadStatus status), [])
          else (case create_loop parse sn items sse_new ([], False) of
                  (Some e, calls, saw) \<Rightarrow> (Some e, calls)
                | (None, calls, saw) \<Rightarrow>
                    (if saw then None else Some (CreateError ''stream ended before a complete event''), calls)))"

text \<open>
  The request of a create: a POST whose reply is an event stream. It has no overall timeout; the wait for
  each chunk has one (\<^const>\<open>SIdle\<close>).
\<close>

record create_post =
  cq_method :: http_method
  cq_url :: string
  cq_accept :: string
  cq_bearer :: "string option"
  cq_body :: json

text \<open>\<^verbatim>\<open>create_shed\<close>: the calls made to the sink, the client afterwards and the one request sent.\<close>

definition create_shed ::
  "(string \<Rightarrow> json option) \<Rightarrow> nenv \<Rightarrow> create_shed_request \<Rightarrow> create_reply \<Rightarrow> client \<Rightarrow> sink_call list \<times> client \<times> create_post" where
  "create_shed parse env req reply c =
     (case bearer env c of
        (tok, c') \<Rightarrow>
          (let post = \<lparr>cq_method = MPost, cq_url = join_url (cl_base_url c) ''/api/sheds'',
                       cq_accept = ''text/event-stream'', cq_bearer = tok, cq_body = encode_create_shed_request req\<rparr> in
           case create_stream parse (cl_server_name c) reply of
             (None, calls) \<Rightarrow> (calls, c', post)
           | (Some e, calls) \<Rightarrow> (calls @ [OnError (shed_error_text e)], c', post)))"

section \<open>Properties of requests\<close>

text \<open>
  A client is built with a pin only for an https URL (in any case): a non-empty pin on another
  URL is refused, and a built client with a non-empty pin verifies against that pin.
\<close>

lemma pinned_clients_are_https:
  assumes "client_new stack base_url server_name token pin has_minter = Inr c" and "pin \<notin> {None, Some []}"
  shows "starts_with ''https://'' (to_lowercase (cl_base_url c)) \<and> cl_pin c = map_option pin_verifier pin"
  using assms by (auto simp: client_new_def build_http_client_def pinned_client_config_def Let_def opt_filter_def
      split: sum.splits option.splits if_splits)

definition client_inv :: "client \<Rightarrow> bool" where
  "client_inv c = (case cl_provider c of Some p \<Rightarrow> provider_inv p | None \<Rightarrow> True)"

lemma bearer_provider:
  assumes "cl_provider c = Some p"
  shows "fst (bearer env c) = Some t \<Longrightarrow>
      (\<exists>m. ct_cached p = Some m \<and> mt_token m = t) \<or> (\<exists>m. ne_mint env (ct_server p) = Inr m \<and> mt_token m = t)"
    "\<exists>p'. snd (bearer env c) = c\<lparr>cl_provider := Some p'\<rparr> \<and> ct_server p' = ct_server p"
  using assms
  by (auto simp: bearer_def provider_token_def split: option.splits sum.splits if_splits)

lemma bearer_after_invalidate:
  assumes "cl_provider c = Some p" "fst (bearer env (invalidate c)) = Some t"
  shows "\<exists>m. ne_mint env (ct_server p) = Inr m \<and> mt_token m = t"
  using bearer_provider(1) [of "invalidate c" "provider_invalidate p"] assms
  by (simp add: invalidate_def provider_invalidate_def)

text \<open>
  C26. No downgrade: every bearer token that a provider-backed client sends with a request was either
  in its cache or minted for that attempt; the static token is never sent in its place, and when the
  mint fails with an empty cache the request goes out without a token. The second attempt happens only
  after a 401 and sends only a freshly minted token.
\<close>

theorem no_static_token_downgrade:
  assumes "cl_provider c = Some p" and "request env env' mth path timeout c = (r, c', qs)"
  shows "(\<forall>t. rq_bearer (hd qs) = Some t \<longrightarrow>
            (\<exists>m. ct_cached p = Some m \<and> mt_token m = t) \<or> (\<exists>m. ne_mint env (ct_server p) = Inr m \<and> mt_token m = t))
    \<and> (length qs = 2 \<longrightarrow> reply_result (ne_reply env) = Inl (BadStatus 401)
         \<and> (\<forall>t. rq_bearer (qs ! 1) = Some t \<longrightarrow> (\<exists>m. ne_mint env' (ct_server p) = Inr m \<and> mt_token m = t)))
    \<and> length qs \<in> {1, 2}"
proof -
  obtain tok c1 where b: "bearer env c = (tok, c1)" by (cases "bearer env c")
  obtain p1 where p1: "cl_provider c1 = Some p1" "ct_server p1 = ct_server p"
    using bearer_provider(2) [OF assms(1), of env] b by auto
  have first: "\<forall>t. tok = Some t \<longrightarrow>
      (\<exists>m. ct_cached p = Some m \<and> mt_token m = t) \<or> (\<exists>m. ne_mint env (ct_server p) = Inr m \<and> mt_token m = t)"
    using bearer_provider(1) [OF assms(1), of env] b by auto
  have second: "\<forall>t. fst (bearer env' (invalidate c1)) = Some t \<longrightarrow> (\<exists>m. ne_mint env' (ct_server p) = Inr m \<and> mt_token m = t)"
    using bearer_after_invalidate [OF p1(1), of env'] p1(2) by simp
  show ?thesis
    using assms(2) b p1(1) first second
    by (auto simp: request_def send_once_def case_prod_unfold split: if_splits)
qed

definition demo_client :: client where
  "demo_client = \<lparr>cl_base_url = ''https://mini3:8443/'', cl_server_name = ''mini3'', cl_token = ''static'',
     cl_provider = Some (provider_new ''mini3''), cl_pin = None\<rparr>"

definition demo_nenv :: "shed_error + minted_token \<Rightarrow> http_reply \<Rightarrow> nenv" where
  "demo_nenv m r = \<lparr>ne_mint = (\<lambda>_. m), ne_now = 0, ne_reply = r\<rparr>"

theorem no_static_token_downgrade_witness:
  "case request (demo_nenv (Inr \<lparr>mt_token = ''old'', mt_expires_at = None\<rparr>) (Reply 401 (Inr [])))
      (demo_nenv (Inl (Transport ''gone'')) (Reply 200 (Inr ''ok''))) MGet ''/api/info'' 8 demo_client of
     (r, c, qs) \<Rightarrow> length qs = 2 \<and> rq_bearer (hd qs) = Some ''old'' \<and> rq_bearer (qs ! 1) = None"
proof -
  let ?e = "demo_nenv (Inr \<lparr>mt_token = ''old'', mt_expires_at = None\<rparr>) (Reply 401 (Inr []))"
  let ?e' = "demo_nenv (Inl (Transport ''gone'')) (Reply 200 (Inr ''ok''))"
  obtain r c qs where q: "request ?e ?e' MGet ''/api/info'' 8 demo_client = (r, c, qs)"
    by (cases "request ?e ?e' MGet ''/api/info'' 8 demo_client") auto
  have p: "cl_provider demo_client = Some (provider_new ''mini3'')" by (simp add: demo_client_def)
  have "length qs = 2 \<and> rq_bearer (hd qs) = Some ''old''"
    using q by (auto simp: request_def send_once_def bearer_def demo_nenv_def demo_client_def provider_token_def
        provider_new_def reply_result_def invalidate_def provider_invalidate_def)
  moreover have "\<not> (\<exists>t. rq_bearer (qs ! 1) = Some t)"
    using no_static_token_downgrade [OF p q] calculation by (auto simp: demo_nenv_def)
  ultimately show ?thesis using q by auto
qed


section \<open>Properties of create\<close>

fun is_error :: "sink_call \<Rightarrow> bool" where
  "is_error (OnError m) = True"
| "is_error _ = False"

fun is_complete :: "sink_call \<Rightarrow> bool" where
  "is_complete (OnComplete s) = True"
| "is_complete _ = False"

definition calls_ok :: "sink_call list \<times> bool \<Rightarrow> bool" where
  "calls_ok st \<longleftrightarrow> \<not> list_ex is_error (fst st) \<and> (snd st \<longleftrightarrow> list_ex is_complete (fst st))"

lemma handle_create_event_ok: "calls_ok st \<Longrightarrow> handle_create_event parse sn ev st = Inr st' \<Longrightarrow> calls_ok st'"
  by (auto simp: calls_ok_def handle_create_event_def split: prod.splits option.splits if_splits)

lemma handle_events_ok: "calls_ok st \<Longrightarrow> calls_ok (snd (handle_events parse sn evs st))"
proof (induction evs arbitrary: st)
  case (Cons ev evs)
  show ?case
  proof (cases "handle_create_event parse sn ev st")
    case (Inl e)
    then show ?thesis using Cons.prems by simp
  next
    case (Inr st')
    then show ?thesis using Cons.IH [of st'] handle_create_event_ok [OF Cons.prems Inr] by simp
  qed
qed simp

lemma create_loop_ok: "calls_ok st \<Longrightarrow> calls_ok (snd (create_loop parse sn items p st))"
proof (induction parse sn items p st rule: create_loop.induct)
  case (4 parse sn chunk items p st)
  obtain evs p' where f: "feed chunk p = (evs, p')" by (cases "feed chunk p")
  obtain r st' where h: "handle_events parse sn evs st = (r, st')" by (cases "handle_events parse sn evs st")
  then have "calls_ok st'" using handle_events_ok [OF 4(2), of parse sn evs] by simp
  then show ?case using 4(1) [OF f [symmetric] h [symmetric]] f h by (cases r) auto
qed (simp_all add: handle_events_ok)

lemma create_stream_ok:
  assumes "create_stream parse sn reply = (r, calls)"
  shows "\<not> list_ex is_error calls \<and> (r = None \<longrightarrow> list_ex is_complete calls)"
proof (cases reply)
  case (CreateNetError e)
  then show ?thesis using assms by (auto simp: create_stream_def)
next
  case (CreateStream status items)
  obtain r' cs saw where l: "create_loop parse sn items sse_new ([], False) = (r', cs, saw)"
    by (cases "create_loop parse sn items sse_new ([], False)") auto
  have "calls_ok (snd (create_loop parse sn items sse_new ([], False)))"
    by (rule create_loop_ok) (simp add: calls_ok_def)
  then have "\<not> list_ex is_error cs" "saw \<longleftrightarrow> list_ex is_complete cs" by (simp_all add: l calls_ok_def)
  then show ?thesis using assms CreateStream l by (auto simp: create_stream_def split: option.splits if_splits)
qed

lemma create_report_shape:
  "case create_shed parse env req reply c of
     (calls, c', post) \<Rightarrow> (list_ex is_complete calls \<and> \<not> list_ex is_error calls)
       \<or> (calls \<noteq> [] \<and> is_error (last calls) \<and> \<not> list_ex is_error (butlast calls))"
proof -
  obtain r calls where s: "create_stream parse (cl_server_name c) reply = (r, calls)"
    by (cases "create_stream parse (cl_server_name c) reply")
  show ?thesis
    using create_stream_ok [OF s] s by (cases r) (auto simp: create_shed_def Let_def split: prod.splits)
qed

text \<open>
  Every create reaches a final report: the sink either gets a completed shed and no error at all,
  or gets exactly one error, as its last call; the first case occurs only after a complete event.
\<close>

lemma create_reports_once:
  "case create_shed parse env req reply c of
     (calls, c', post) \<Rightarrow> (list_ex is_complete calls \<and> \<not> list_ex is_error calls)
       \<or> (calls \<noteq> [] \<and> is_error (last calls) \<and> \<not> list_ex is_error (butlast calls))"
  by (rule create_report_shape)

lemma handle_events_append:
  "handle_events parse sn (xs @ ys) st =
     (case handle_events parse sn xs st of
        (Some e, st') \<Rightarrow> (Some e, st') | (None, st') \<Rightarrow> handle_events parse sn ys st')"
  by (induction xs arbitrary: st) (auto split: sum.splits)

lemma create_loop_chunks:
  "create_loop parse sn (map SChunk chunks) p st
    = handle_events parse sn (fst (feed_all chunks p) @ fst (finish (snd (feed_all chunks p)))) st"
proof (induction chunks arbitrary: p st)
  case (Cons c cs)
  obtain evs p' where f: "feed c p = (evs, p')" by (cases "feed c p")
  show ?case
    by (cases "handle_events parse sn evs st"; cases "fst (handle_events parse sn evs st)")
      (auto simp: f Cons handle_events_append case_prod_unfold)
qed simp

text \<open>
  What the sink is told depends only on the bytes of the create stream and not on how they are
  cut into chunks: it is the handling of the events that the whole stream parses to.
\<close>

lemma create_is_chunk_independent:
  assumes "concat chunks = concat chunks'"
  shows "create_shed parse env req (CreateStream status (map SChunk chunks)) c
    = create_shed parse env req (CreateStream status (map SChunk chunks')) c"
proof -
  have "create_loop parse sn (map SChunk chunks) sse_new st = create_loop parse sn (map SChunk chunks') sse_new st" for sn st
    by (simp only: create_loop_chunks feed_all_concat assms)
  then show ?thesis by (simp add: create_shed_def create_stream_def)
qed

end
