(* ===== verification/Create.thy ===== *)
theory Create
  imports Http
begin

text \<open>
  The pull-based store of creates in flight (\<^verbatim>\<open>core/shed-core/src/create.rs\<close>): the sink folds the
  calls of \<^verbatim>\<open>create_shed\<close> into the entry of its id, callers poll and cancel by id. Every method body runs
  under the store's lock; the abort handle's effect (no further sink calls) is a shorter sequence of
  operations.
\<close>

datatype create_state = CsProgress | CsComplete | CsError

record create_progress =
  cp_id :: string
  cp_state :: create_state
  cp_messages :: "string list"
  cp_shed :: "shed option"
  cp_error :: "string option"

record stored_progress =
  st_state :: create_progress
  st_abort :: bool

type_synonym create_store = "(string, stored_progress) hmap"

definition modify :: "string \<Rightarrow> (stored_progress \<Rightarrow> stored_progress) \<Rightarrow> create_store \<Rightarrow> create_store" where
  "modify i f m = (case hm_get m i of Some p \<Rightarrow> hm_insert i (f p) m | None \<Rightarrow> m)"

fun store_sink :: "string \<Rightarrow> sink_call \<Rightarrow> create_store \<Rightarrow> create_store" where
  "store_sink i (OnProgress msg) m =
     modify i (\<lambda>p. p\<lparr>st_state := (st_state p)\<lparr>cp_messages := cp_messages (st_state p) @ [msg]\<rparr>\<rparr>) m"
| "store_sink i (OnComplete s) m =
     modify i (\<lambda>p. p\<lparr>st_state := (st_state p)\<lparr>cp_state := CsComplete, cp_shed := Some s\<rparr>\<rparr>) m"
| "store_sink i (OnError msg) m =
     modify i (\<lambda>p. p\<lparr>st_state := (st_state p)\<lparr>cp_state := CsError, cp_error := Some msg\<rparr>\<rparr>) m"

text \<open>The two locked sections of \<^verbatim>\<open>start\<close>, for the fresh id; the task it spawns makes the sink calls.\<close>

definition create_start :: "string \<Rightarrow> create_store \<Rightarrow> create_store" where
  "create_start i m =
     hm_insert i \<lparr>st_state = \<lparr>cp_id = i, cp_state = CsProgress, cp_messages = [], cp_shed = None, cp_error = None\<rparr>,
                  st_abort = False\<rparr> m"

definition create_started :: "string \<Rightarrow> create_store \<Rightarrow> create_store" where
  "create_started i m = modify i (\<lambda>p. p\<lparr>st_abort := True\<rparr>) m"

definition create_status :: "string \<Rightarrow> create_store \<Rightarrow> create_progress option" where
  "create_status i m = map_option st_state (hm_get m i)"

text \<open>The store without the entry, and whether a running task is aborted.\<close>

definition create_cancel :: "string \<Rightarrow> create_store \<Rightarrow> create_store \<times> bool" where
  "create_cancel i m =
     (case hm_get m i of Some p \<Rightarrow> (hm_remove i m, st_abort p) | None \<Rightarrow> (m, False))"

datatype store_op = SoStart string | SoStarted string | SoSink string sink_call | SoCancel string

fun store_exec :: "store_op \<Rightarrow> create_store \<Rightarrow> create_store" where
  "store_exec (SoStart i) m = create_start i m"
| "store_exec (SoStarted i) m = create_started i m"
| "store_exec (SoSink i c) m = store_sink i c m"
| "store_exec (SoCancel i) m = fst (create_cancel i m)"

section \<open>Lemmas\<close>

lemma get_modify [simp]: "hm_get (modify i f m) j = (if j = i then map_option f (hm_get m i) else hm_get m j)"
  by (auto simp: modify_def split: option.splits)

lemma store_sink_other: "j \<noteq> i \<Longrightarrow> hm_get (store_sink i c m) j = hm_get m j"
  by (cases c) simp_all

lemma store_sink_gone: "hm_get m i = None \<Longrightarrow> hm_get (store_sink i c m) i = None"
  by (cases c) simp_all

fun progress_messages :: "sink_call list \<Rightarrow> string list" where
  "progress_messages [] = []"
| "progress_messages (OnProgress m # cs) = m # progress_messages cs"
| "progress_messages (_ # cs) = progress_messages cs"

text \<open>What a sink call does to the entry of its create, and what a run of them leaves there.\<close>

fun apply_sink :: "sink_call \<Rightarrow> create_progress \<Rightarrow> create_progress" where
  "apply_sink (OnProgress msg) p = p\<lparr>cp_messages := cp_messages p @ [msg]\<rparr>"
| "apply_sink (OnComplete s) p = p\<lparr>cp_state := CsComplete, cp_shed := Some s\<rparr>"
| "apply_sink (OnError msg) p = p\<lparr>cp_state := CsError, cp_error := Some msg\<rparr>"

text \<open>The sink calls of one create among the operations on the store.\<close>

fun sink_calls :: "string \<Rightarrow> store_op list \<Rightarrow> sink_call list" where
  "sink_calls i [] = []"
| "sink_calls i (SoSink j c # ops) = (if j = i then c # sink_calls i ops else sink_calls i ops)"
| "sink_calls i (_ # ops) = sink_calls i ops"

lemma status_store_sink: "create_status i (store_sink i c m) = map_option (apply_sink c) (create_status i m)"
  by (cases c) (simp_all add: create_status_def option.map_comp comp_def)

lemma status_exec_other:
  assumes "op \<noteq> SoStart i" "op \<noteq> SoCancel i" "\<And>c. op \<noteq> SoSink i c"
  shows "create_status i (store_exec op m) = create_status i m"
proof (cases op)
  case (SoStarted j)
  then show ?thesis by (simp add: create_started_def create_status_def option.map_comp comp_def)
next
  case (SoSink j c)
  then show ?thesis using assms store_sink_other [of i j c m] by (cases "j = i") (simp_all add: create_status_def)
qed (use assms in \<open>auto simp: create_status_def create_start_def create_cancel_def split: option.splits\<close>)

lemma status_run:
  assumes "SoStart i \<notin> set ops" "SoCancel i \<notin> set ops"
  shows "create_status i (fold store_exec ops m) = map_option (fold apply_sink (sink_calls i ops)) (create_status i m)"
  using assms
proof (induction ops arbitrary: m)
  case Nil
  then show ?case by (simp add: option.map_ident)
next
  case (Cons op ops)
  show ?case
  proof (cases "\<exists>c. op = SoSink i c")
    case True
    then show ?thesis using Cons by (auto simp: status_store_sink option.map_comp comp_def)
  next
    case False
    then have "sink_calls i (op # ops) = sink_calls i ops" by (cases op) auto
    then show ?thesis using Cons False status_exec_other [of op i m] by auto
  qed
qed

lemma apply_sink_fold:
  "cp_id (fold apply_sink calls p) = cp_id p"
  "cp_messages (fold apply_sink calls p) = cp_messages p @ progress_messages calls"
  "\<not> list_ex is_error calls \<Longrightarrow> cp_error (fold apply_sink calls p) = cp_error p"
  "\<not> list_ex is_error calls \<Longrightarrow> list_ex is_complete calls \<Longrightarrow>
     cp_state (fold apply_sink calls p) = CsComplete \<and> (\<exists>s. OnComplete s \<in> set calls \<and> cp_shed (fold apply_sink calls p) = Some s)"
proof (induction calls rule: rev_induct)
  case (snoc c calls)
  have app: "progress_messages (xs @ ys) = progress_messages xs @ progress_messages ys" for xs ys
    by (induction xs rule: progress_messages.induct) simp_all
  { case 1 show ?case using snoc by (cases c) simp_all
  next
    case 2 show ?case using snoc by (cases c) (simp_all add: app)
  next
    case 3 then show ?case using snoc by (cases c) simp_all
  next
    case 4 then show ?case using snoc by (cases c) auto
  }
qed simp_all

text \<open>
  Cancel is final and local: once an id is cancelled, whatever sink calls still arrive for it and
  whatever happens to other ids, its status stays unknown; and no operation on one id changes the
  status of another.
\<close>

lemma create_cancel_is_final:
  assumes "SoStart i \<notin> set ops"
  shows "create_status i (fold store_exec ops (fst (create_cancel i m))) = None
    \<and> (j \<noteq> i \<longrightarrow> create_status j (fst (create_cancel i m)) = create_status j m)"
proof -
  have none: "hm_get (store_exec op n) i = None" if "hm_get n i = None" "op \<noteq> SoStart i" for op n
  proof (cases op)
    case (SoSink k c)
    then show ?thesis using that store_sink_other [of i k c n] store_sink_gone [of n i c] by (cases "k = i") simp_all
  qed (use that in \<open>auto simp: create_start_def create_started_def create_cancel_def split: option.splits\<close>)
  have "hm_get n i = None \<Longrightarrow> hm_get (fold store_exec ops n) i = None" for n
    using assms by (induction ops arbitrary: n) (auto simp: none)
  moreover have "hm_get (fst (create_cancel i m)) k = (if k = i then None else hm_get m k)" for k
    by (auto simp: create_cancel_def split: option.splits)
  ultimately show ?thesis by (simp add: create_status_def)
qed

end
