(* ===== verification/Config.thy ===== *)
theory Config
  imports Prelude
begin

text \<open>
  Host discovery (\<^verbatim>\<open>core/shed-core/src/config.rs\<close>): the indentation-aware reader of
  \<^verbatim>\<open>~/.shed/config.yaml\<close>, the server entries built from it, and the endpoint a client dials. The shape of the
  file, which the CLI of another repository writes, is specified after the fixtures of this one, and reading such
  a file gives what it says (\<^verbatim>\<open>config_roundtrip\<close>, applied to the shared fixture).
\<close>

section \<open>The reader (\<^verbatim>\<open>yaml_lite\<close>)\<close>

datatype node = NMap "(string \<times> node) list" | NScalar string

definition as_scalar :: "node \<Rightarrow> string option" where
  "as_scalar n = (case n of NScalar s \<Rightarrow> Some s | NMap _ \<Rightarrow> None)"

record yline =
  yl_indent :: int
  yl_key :: string
  yl_value :: "string option"

definition quoted_by :: "char \<Rightarrow> string \<Rightarrow> bool" where
  "quoted_by q s \<longleftrightarrow> starts_with [q] s \<and> ends_with [q] s"

definition unquote :: "string \<Rightarrow> string" where
  "unquote s =
     (if length s \<ge> 2 \<and> (quoted_by (CHR 0x22) s \<or> quoted_by (CHR 0x27) s) then butlast (tl s) else s)"

definition leading_spaces :: "string \<Rightarrow> nat" where
  "leading_spaces s = length (takeWhile (\<lambda>c. c = CHR '' '') s)"

definition strip_comment :: "string \<Rightarrow> string" where
  "strip_comment rest = (case split_once (CHR ''#'') rest of Some (a, _) \<Rightarrow> trim a | None \<Rightarrow> rest)"

definition parse_line :: "string \<Rightarrow> yline option" where
  "parse_line raw =
     (let trimmed = trim raw in
      if trimmed = [] \<or> starts_with ''#'' trimmed then None
      else case split_once (CHR '':'') raw of
        None \<Rightarrow> None
      | Some (k, v) \<Rightarrow>
          (let rest = strip_comment (trim v)
           in Some \<lparr>yl_indent = int (leading_spaces raw), yl_key = unquote (trim k),
                    yl_value = (if rest = [] \<or> rest = ''{}'' then None else Some (unquote rest))\<rparr>))"

text \<open>
  \<^verbatim>\<open>build\<close>: the index is the list of the lines that are left. The loop carries the map; a nested block
  is read by the loop for its first line's indentation.
\<close>

function build_loop :: "int \<Rightarrow> int \<Rightarrow> yline list \<Rightarrow> (string, node) hmap \<Rightarrow> node \<times> yline list" where
  "build_loop child parent [] m = (NMap m, [])"
| "build_loop child parent (l # ls) m =
     (if yl_indent l \<le> parent then (NMap m, l # ls)
      else if yl_indent l \<noteq> child then build_loop child parent ls m
      else case yl_value l of
        Some v \<Rightarrow> build_loop child parent ls (hm_insert (yl_key l) (NScalar v) m)
      | None \<Rightarrow>
          (case (case ls of [] \<Rightarrow> (NMap [], []) | l2 # _ \<Rightarrow> build_loop (yl_indent l2) child ls []) of
             (n, rest) \<Rightarrow> build_loop child parent rest (hm_insert (yl_key l) n m)))"
  by pat_completeness auto

termination
proof (relation "measure (\<lambda>(child, parent, ls, m). length ls)", simp_all)
  fix child parent :: int and l :: yline and ls :: "yline list" and n and rest :: "yline list"
  assume nr: "(n, rest) = (case ls of [] \<Rightarrow> (NMap [], []) | l2 # x \<Rightarrow> build_loop (yl_indent l2) child ls [])"
    and dom: "\<And>l2 x. ls = l2 # x \<Longrightarrow> build_loop_dom (yl_indent l2, child, l2 # x, [])"
  have le: "length (snd (build_loop child parent ls m)) \<le> length ls" if "build_loop_dom (child, parent, ls, m)"
    for child parent ls m
    using that
  proof (induction child parent ls m rule: build_loop.pinduct)
    case (2 child parent l ls m)
    obtain n rest where nr: "(case ls of [] \<Rightarrow> (NMap [], []) | l2 # x \<Rightarrow> build_loop (yl_indent l2) child ls []) = (n, rest)"
      by (cases "case ls of [] \<Rightarrow> (NMap [], []) | l2 # x \<Rightarrow> build_loop (yl_indent l2) child ls []")
    have "length rest \<le> length ls" if "yl_value l = None" "\<not> yl_indent l \<le> parent" "\<not> yl_indent l \<noteq> child"
      using 2(3) that nr by (cases ls) auto
    then show ?case
      using 2(2) 2(4) [of n rest] 2(5) nr by (auto simp: build_loop.psimps(2) [OF 2(1)] split: option.splits)
  qed (simp add: build_loop.psimps)
  show "length rest < Suc (length ls)"
  proof (cases ls)
    case Nil
    then show ?thesis using nr by simp
  next
    case (Cons l2 x)
    then show ?thesis using nr le [OF dom [OF Cons]] by (simp add: snd_def split: prod.splits)
  qed
qed

definition build :: "yline list \<Rightarrow> int \<Rightarrow> node \<times> yline list" where
  "build ls parent = (case ls of [] \<Rightarrow> (NMap [], []) | l # _ \<Rightarrow> build_loop (yl_indent l) parent ls [])"

definition yaml_parse :: "string \<Rightarrow> node" where
  "yaml_parse text = fst (build (List.map_filter parse_line (split_on (CHR 0x0A) text)) (- 1))"


section \<open>Server entries\<close>

record shed_server_entry =
  se_name :: string
  se_host :: string
  se_http_port :: nat
  se_ssh_port :: nat
  se_control_token :: string
  se_api_url :: string
  se_tls_cert_fingerprint :: string

record shed_config =
  sc_servers :: "shed_server_entry list"
  sc_default_server :: "string option"

definition scalar_field :: "(string, node) hmap \<Rightarrow> string \<Rightarrow> string option" where
  "scalar_field flds k = Option.bind (hm_get flds k) as_scalar"

definition server_entry :: "string \<Rightarrow> (string, node) hmap \<Rightarrow> shed_server_entry" where
  "server_entry name flds =
     (let scalar = scalar_field flds in
      \<lparr>se_name = name, se_host = unwrap_or (scalar ''host'') name,
       se_http_port = unwrap_or (Option.bind (scalar ''http_port'') parse_u16) 8080,
       se_ssh_port = unwrap_or (Option.bind (scalar ''ssh_port'') parse_u16) 22,
       se_control_token = unwrap_or (scalar ''control_token'') [],
       se_api_url = unwrap_or (scalar ''api_url'') [],
       se_tls_cert_fingerprint = to_lowercase (unwrap_or (scalar ''tls_cert_fingerprint'') [])\<rparr>)"

fun server_entries :: "(string, node) hmap \<Rightarrow> shed_server_entry list" where
  "server_entries [] = []"
| "server_entries ((name, NMap flds) # m) = server_entry name flds # server_entries m"
| "server_entries ((name, NScalar v) # m) = server_entries m"

definition default_config :: shed_config where
  "default_config = \<lparr>sc_servers = [], sc_default_server = None\<rparr>"

definition config_parse :: "string \<Rightarrow> shed_config" where
  "config_parse text =
     (case yaml_parse text of
        NScalar _ \<Rightarrow> default_config
      | NMap root \<Rightarrow>
          \<lparr>sc_servers = sort_key se_name
             (case hm_get root ''servers'' of Some (NMap m) \<Rightarrow> server_entries m | _ \<Rightarrow> []),
           sc_default_server = scalar_field root ''default_server''\<rparr>)"

text \<open>\<^verbatim>\<open>load\<close>: the file's text, or \<^const>\<open>None\<close> when it cannot be read.\<close>

definition config_load :: "string option \<Rightarrow> shed_config" where
  "config_load contents = (case contents of Some text \<Rightarrow> config_parse text | None \<Rightarrow> default_config)"

section \<open>Endpoints\<close>

record resolved_endpoint =
  re_base_url :: string
  re_pin :: string

definition is_http_url_with_host :: "string \<Rightarrow> bool" where
  "is_http_url_with_host s =
     (let lower = to_lowercase s in
      case opt_or (strip_prefix ''http://'' lower) (strip_prefix ''https://'' lower) of
        None \<Rightarrow> False
      | Some rest \<Rightarrow>
          (let host = takeWhile (\<lambda>c. c \<notin> set ''/:?#'') rest in host \<noteq> [] \<and> \<not> has_whitespace host))"

definition resolved_endpoint :: "shed_server_entry \<Rightarrow> resolved_endpoint" where
  "resolved_endpoint e =
     (if se_api_url e \<noteq> [] \<and> is_http_url_with_host (se_api_url e)
      then \<lparr>re_base_url = se_api_url e, re_pin = se_tls_cert_fingerprint e\<rparr>
      else \<lparr>re_base_url = ''http://'' @ se_host e @ '':'' @ nat_to_string (se_http_port e),
            re_pin = se_tls_cert_fingerprint e\<rparr>)"

section \<open>Words\<close>

definition graphic :: "char \<Rightarrow> bool" where
  "graphic c \<longleftrightarrow> (0x21 :: nat) \<le> of_char c \<and> of_char c \<le> (0x7E :: nat)"

definition word :: "string \<Rightarrow> bool" where
  "word w \<longleftrightarrow> w \<noteq> [] \<and> list_all graphic w"

definition key_word :: "string \<Rightarrow> bool" where
  "key_word w \<longleftrightarrow> word w \<and> CHR '':'' \<notin> set w \<and> hd w \<notin> {CHR ''#'', CHR 0x22, CHR 0x27}"

definition value_word :: "string \<Rightarrow> bool" where
  "value_word w \<longleftrightarrow> word w \<and> CHR ''#'' \<notin> set w \<and> w \<noteq> ''{}'' \<and> hd w \<notin> {CHR 0x22, CHR 0x27}"

lemma graphic_not_ws:
  assumes "graphic c"
  shows "strip_any ws_seqs (c # s) = None" "strip_any (map rev ws_seqs) (c # s) = None"
proof -
  have "\<forall>p \<in> set (ws_seqs @ map rev ws_seqs). p = [] \<or> \<not> graphic (hd p)"
    by (simp add: ws_seqs_def graphic_def)
  then have "\<forall>p \<in> set (ws_seqs @ map rev ws_seqs). strip_prefix p (c # s) = None"
    using assms ws_seqs_nonempty by (metis (no_types, lifting) Un_iff hd_Cons_tl imageE list.sel(1) rev_is_Nil_conv set_append set_map strip_prefix.simps(3))
  then have n: "list_all (\<lambda>p. strip_prefix p (c # s) = None) (ws_seqs @ map rev ws_seqs)" by (simp add: list_all_iff)
  have "list_all (\<lambda>p. strip_prefix p (c # s) = None) ps \<Longrightarrow> strip_any ps (c # s) = None" for ps
    by (induction ps) simp_all
  then show "strip_any ws_seqs (c # s) = None" "strip_any (map rev ws_seqs) (c # s) = None" using n by simp_all
qed

lemma trim_start_spaces: "trim_start (replicate n (CHR '' '') @ s) = trim_start s"
proof (induction n)
  case (Suc n)
  have "strip_any ws_seqs (CHR '' '' # t) = Some t" for t by (simp add: ws_seqs_def)
  then show ?case using Suc by (simp add: trim_start.simps [of "CHR '' '' # replicate n (CHR '' '') @ s"])
qed simp

lemma trim_graphic:
  assumes "w \<noteq> []" "graphic (hd w)" "graphic (last w)"
  shows "trim (replicate n (CHR '' '') @ w) = w"
proof -
  have "trim_start (replicate n (CHR '' '') @ w) = w"
    using assms graphic_not_ws(1) [of "hd w" "tl w"] by (simp add: trim_start_spaces trim_start_id)
  moreover have "trim_rev (rev w) = rev w"
    using assms graphic_not_ws(2) [of "last w" "rev (butlast w)"]
    by (intro trim_rev_id) (metis append_butlast_last_id rev.simps(2) rev_rev_ident rev_swap)
  ultimately show ?thesis by (simp add: trim_def trim_end_def)
qed

lemma word_ends: "word w \<Longrightarrow> w \<noteq> [] \<and> graphic (hd w) \<and> graphic (last w)"
  by (auto simp: word_def list_all_iff)

lemma trim_word: "word w \<Longrightarrow> trim (replicate n (CHR '' '') @ w) = w"
  using trim_graphic word_ends by blast

lemma unquote_id: "hd w \<notin> {CHR 0x22, CHR 0x27} \<Longrightarrow> unquote w = w"
  by (cases w) (auto simp: unquote_def quoted_by_def starts_with_def)


section \<open>Configuration files\<close>

text \<open>
  The shape of the file, as the repository's fixtures have it (\<^verbatim>\<open>core/fixtures/config_sample.yaml\<close>,
  \<^verbatim>\<open>tools/shedtest/fixtures/config.yaml\<close>, the tests of \<^verbatim>\<open>config.rs\<close>): top-level scalars and sections, a
  section holding named blocks, a block holding fields, an empty section or block written \<^verbatim>\<open>{}\<close>. The
  fixtures indent blocks by 4 and fields by 8.
\<close>

datatype config_item = Scalar string string | Section string "(string \<times> (string \<times> string) list) list"

fun item_key :: "config_item \<Rightarrow> string" where
  "item_key (Scalar k v) = k"
| "item_key (Section k bs) = k"

abbreviation (input) pad :: "nat \<Rightarrow> string" where
  "pad n \<equiv> replicate n (CHR '' '')"

fun block_lines :: "nat \<Rightarrow> nat \<Rightarrow> string \<times> (string \<times> string) list \<Rightarrow> string list" where
  "block_lines n m (name, []) = [pad n @ name @ '': {}'']"
| "block_lines n m (name, kv # kvs) = (pad n @ name @ '':'') # map (\<lambda>(k, v). pad m @ k @ '': '' @ v) (kv # kvs)"

fun item_lines :: "nat \<Rightarrow> nat \<Rightarrow> config_item \<Rightarrow> string list" where
  "item_lines n m (Scalar k v) = [k @ '': '' @ v]"
| "item_lines n m (Section k []) = [k @ '': {}'']"
| "item_lines n m (Section k (b # bs)) = (k @ '':'') # concat (map (block_lines n m) (b # bs))"

text \<open>The fields of a server that have a meaning, and any other one (the fixtures have \<^verbatim>\<open>added_at\<close>).\<close>

datatype server_field =
    FHost string
  | FHttpPort nat
  | FSshPort nat
  | FControlToken string
  | FApiUrl string
  | FPin string
  | FOther string string

fun field_kv :: "server_field \<Rightarrow> string \<times> string" where
  "field_kv (FHost h) = (''host'', h)"
| "field_kv (FHttpPort p) = (''http_port'', nat_to_string p)"
| "field_kv (FSshPort p) = (''ssh_port'', nat_to_string p)"
| "field_kv (FControlToken t) = (''control_token'', t)"
| "field_kv (FApiUrl u) = (''api_url'', u)"
| "field_kv (FPin f) = (''tls_cert_fingerprint'', f)"
| "field_kv (FOther k v) = (k, v)"

fun set_field :: "server_field \<Rightarrow> shed_server_entry \<Rightarrow> shed_server_entry" where
  "set_field (FHost h) e = e\<lparr>se_host := h\<rparr>"
| "set_field (FHttpPort p) e = e\<lparr>se_http_port := p\<rparr>"
| "set_field (FSshPort p) e = e\<lparr>se_ssh_port := p\<rparr>"
| "set_field (FControlToken t) e = e\<lparr>se_control_token := t\<rparr>"
| "set_field (FApiUrl u) e = e\<lparr>se_api_url := u\<rparr>"
| "set_field (FPin f) e = e\<lparr>se_tls_cert_fingerprint := to_lowercase f\<rparr>"
| "set_field (FOther k v) e = e"

text \<open>What a block stands for: the defaults, then its fields.\<close>

definition block_entry :: "string \<Rightarrow> server_field list \<Rightarrow> shed_server_entry" where
  "block_entry name fs = fold set_field fs
     \<lparr>se_name = name, se_host = name, se_http_port = 8080, se_ssh_port = 22, se_control_token = [],
      se_api_url = [], se_tls_cert_fingerprint = []\<rparr>"

record config_file =
  cf_before :: "config_item list"
  cf_servers :: "(string \<times> server_field list) list"
  cf_after :: "config_item list"

definition file_items :: "config_file \<Rightarrow> config_item list" where
  "file_items f = cf_before f
     @ Section ''servers'' (map (\<lambda>(name, fs). (name, map field_kv fs)) (cf_servers f)) # cf_after f"

fun default_of :: "config_item list \<Rightarrow> string option" where
  "default_of [] = None"
| "default_of (Scalar k v # its) = (if k = ''default_server'' then Some v else default_of its)"
| "default_of (Section k bs # its) = default_of its"

fun wf_item :: "config_item \<Rightarrow> bool" where
  "wf_item (Scalar k v) \<longleftrightarrow> key_word k \<and> value_word v"
| "wf_item (Section k bs) \<longleftrightarrow> key_word k \<and> distinct (map fst bs)
     \<and> list_all (\<lambda>(name, kvs). key_word name \<and> distinct (map fst kvs)
          \<and> list_all (\<lambda>(k, v). key_word k \<and> value_word v) kvs) bs"

fun wf_field :: "server_field \<Rightarrow> bool" where
  "wf_field (FHttpPort p) \<longleftrightarrow> p \<le> 65535"
| "wf_field (FSshPort p) \<longleftrightarrow> p \<le> 65535"
| "wf_field (FOther k v) \<longleftrightarrow>
     k \<notin> {''host'', ''http_port'', ''ssh_port'', ''control_token'', ''api_url'', ''tls_cert_fingerprint''}"
| "wf_field _ \<longleftrightarrow> True"

definition wf_file :: "config_file \<Rightarrow> bool" where
  "wf_file f \<longleftrightarrow> list_all wf_item (file_items f) \<and> distinct (map item_key (file_items f))
     \<and> list_all (\<lambda>(_, fs). list_all wf_field fs) (cf_servers f)"

text \<open>Blank and comment lines may stand anywhere, and a comment may follow a line.\<close>

definition noise :: "string \<Rightarrow> bool" where
  "noise l \<longleftrightarrow> (let r = dropWhile (\<lambda>c. c = CHR '' '') l in r = [] \<or> hd r = CHR ''#'')"

definition remark :: "string \<Rightarrow> bool" where
  "remark r \<longleftrightarrow> r = [] \<or> hd r = CHR '' '' \<and> (let t = dropWhile (\<lambda>c. c = CHR '' '') r in t \<noteq> [] \<and> hd t = CHR ''#'')"

definition commented :: "string \<Rightarrow> string \<Rightarrow> bool" where
  "commented l l' \<longleftrightarrow> (case strip_prefix l l' of Some r \<Rightarrow> remark r | None \<Rightarrow> False)"

definition text_of_file :: "nat \<Rightarrow> nat \<Rightarrow> config_file \<Rightarrow> string \<Rightarrow> bool" where
  "text_of_file n m f text \<longleftrightarrow>
     list_all2 commented (concat (map (item_lines n m) (file_items f)))
       (filter (\<lambda>l. \<not> noise l) (split_on (CHR 0x0A) text))"

section \<open>Reading a line\<close>

lemma ws_seqs_not_graphic: "p \<in> set (map rev ws_seqs) \<Longrightarrow> c \<in> set p \<Longrightarrow> \<not> graphic c"
proof -
  have "list_all (list_all (\<lambda>c. \<not> graphic c)) ws_seqs" by (simp add: ws_seqs_def graphic_def)
  then show "p \<in> set (map rev ws_seqs) \<Longrightarrow> c \<in> set p \<Longrightarrow> \<not> graphic c" by (auto simp: list_all_iff)
qed

text \<open>Trimming the end stops at a graphic character.\<close>

lemma trim_rev_keeps: "graphic g \<Longrightarrow> \<exists>t. trim_rev (s @ g # w) = t @ g # w"
proof (induction s rule: length_induct)
  case (1 s)
  show ?case
  proof (cases "strip_any (map rev ws_seqs) (s @ g # w)")
    case None
    then show ?thesis by (auto simp: trim_rev_id)
  next
    case (Some r)
    then obtain p where p: "p \<in> set (map rev ws_seqs)" "s @ g # w = p @ r" using strip_any_Some by blast
    have "g \<notin> set p" using p(1) ws_seqs_not_graphic 1(2) by blast
    then obtain u where u: "s = p @ u" "r = u @ g # w"
      using p(2) by (auto simp: append_eq_append_conv2 Cons_eq_append_conv)
    have "p \<noteq> []" using p(1) ws_seqs_nonempty by auto
    then have "\<exists>t. trim_rev r = t @ g # w" using 1 u by auto
    then show ?thesis using Some by (subst trim_rev.simps) simp
  qed
qed

lemma trim_end_keeps: "graphic g \<Longrightarrow> \<exists>t. trim_end (w @ g # s) = w @ g # t"
  using trim_rev_keeps [of g "rev s" "rev w"] by (force simp: trim_end_def)

lemma trim_keeps:
  assumes "graphic g" "w = [] \<or> graphic (hd w)"
  shows "\<exists>t. trim (pad n @ w @ g # s) = w @ g # t"
proof -
  have "trim_start (w @ g # s) = w @ g # s"
    using assms graphic_not_ws(1) by (cases w) (auto simp: trim_start_id)
  then show ?thesis using trim_end_keeps [OF assms(1), of w s] by (simp add: trim_def trim_start_spaces)
qed

lemma trim_spaces [simp]: "trim (pad n) = []"
proof -
  have "trim_rev [] = []" "trim_start [] = []"
    by (simp_all add: trim_rev_id trim_start_id ws_seqs_def)
  then show ?thesis using trim_start_spaces [of n "[]"] by (simp add: trim_def trim_end_def)
qed

lemma trim_graphic_spaces:
  assumes "w \<noteq> []" "graphic (hd w)" "graphic (last w)"
  shows "trim (w @ pad n) = w"
proof -
  have "strip_any (map rev ws_seqs) (CHR '' '' # t) = Some t" for t by (simp add: ws_seqs_def)
  then have "trim_rev (pad n @ t) = trim_rev t" for t
    by (induction n) (auto simp: trim_rev.simps [of "CHR '' '' # pad _ @ t"])
  then have "trim_end (w @ pad n) = trim_end w" by (simp add: trim_end_def)
  moreover have "trim_start (w @ pad n) = w @ pad n" "trim_start w = w"
    using assms graphic_not_ws(1) by (cases w; simp add: trim_start_id)+
  ultimately show ?thesis using trim_graphic [OF assms, of 0] by (simp add: trim_def)
qed

lemma spaces_then: "l = pad (length (takeWhile (\<lambda>c. c = CHR '' '') l)) @ dropWhile (\<lambda>c. c = CHR '' '') l"
  by (induction l) auto

lemma remark_cases:
  assumes "remark r"
  obtains "r = []" | a c where "r = pad (Suc a) @ CHR ''#'' # c"
proof (cases "r = []")
  case False
  let ?t = "dropWhile (\<lambda>c. c = CHR '' '') r" and ?n = "length (takeWhile (\<lambda>c. c = CHR '' '') r)"
  have t: "hd r = CHR '' ''" "?t \<noteq> []" "hd ?t = CHR ''#''" using assms False by (auto simp: remark_def Let_def)
  then have "?n \<noteq> 0" using False by (cases r) auto
  then have "r = pad (Suc (?n - 1)) @ CHR ''#'' # tl ?t" using t spaces_then [of r] by (metis Suc_pred' gr0I list.collapse)
  then show ?thesis by (rule that(2))
qed (use that in blast)

lemma parse_noise: "noise l \<Longrightarrow> parse_line l = None"
proof -
  assume "noise l"
  then consider "dropWhile (\<lambda>c. c = CHR '' '') l = []" | c where "dropWhile (\<lambda>c. c = CHR '' '') l = CHR ''#'' # c"
    by (cases "dropWhile (\<lambda>c. c = CHR '' '') l") (auto simp: noise_def Let_def)
  then show ?thesis
  proof cases
    case 1
    then have "trim l = []" using spaces_then [of l] trim_spaces by (metis append_Nil2)
    then show ?thesis by (simp add: parse_line_def)
  next
    case 2
    obtain n where "l = pad n @ [] @ CHR ''#'' # c" using 2 spaces_then [of l] by auto
    then obtain t where "trim l = CHR ''#'' # t" using trim_keeps [of "CHR ''#''" "[]" n c] by (auto simp: graphic_def)
    then show ?thesis by (simp add: parse_line_def starts_with_def)
  qed
qed

lemma leading_spaces_word: "word w \<Longrightarrow> leading_spaces (replicate n (CHR '' '') @ w @ r) = n"
  by (cases w) (auto simp: leading_spaces_def word_def graphic_def takeWhile_append)

lemma parse_keyed:
  assumes "key_word k"
  shows "parse_line (pad n @ k @ CHR '':'' # r) = Some \<lparr>yl_indent = int n, yl_key = k,
    yl_value = (let v = strip_comment (trim r) in if v = [] \<or> v = ''{}'' then None else Some (unquote v))\<rparr>"
proof -
  have w: "word k" and u: "unquote k = k" using assms by (auto simp: key_word_def unquote_id)
  obtain t where "trim (pad n @ k @ CHR '':'' # r) = k @ CHR '':'' # t"
    using trim_keeps [of "CHR '':''" k n r] word_ends [OF w] by (auto simp: graphic_def)
  moreover have "\<not> starts_with ''#'' (k @ CHR '':'' # t)" using assms by (cases k) (auto simp: key_word_def starts_with_def)
  moreover have "split_once (CHR '':'') (pad n @ k @ CHR '':'' # r) = Some (pad n @ k, r)"
    using assms by (auto simp: split_once_Some key_word_def)
  ultimately show ?thesis
    using leading_spaces_word [OF w, of n "CHR '':'' # r"] trim_word [OF w, of n] u
    by (simp add: parse_line_def Let_def)
qed

lemma value_read:
  assumes "w = [] \<or> graphic (hd w) \<and> graphic (last w)" "CHR ''#'' \<notin> set w" "remark r"
  shows "strip_comment (trim (pad n @ w @ r)) = w"
  using assms(3)
proof (cases rule: remark_cases)
  case 1
  then show ?thesis
    using assms trim_graphic [of w n] by (cases "w = []") (simp_all add: strip_comment_def split_once_None [THEN iffD2])
next
  case (2 a c)
  show ?thesis
  proof (cases "w = []")
    case True
    obtain t where "trim (pad (n + Suc a) @ [] @ CHR ''#'' # c) = CHR ''#'' # t"
      using trim_keeps [of "CHR ''#''" "[]" "n + Suc a" c] by (auto simp: graphic_def)
    moreover have "pad n @ w @ r = pad (n + Suc a) @ [] @ CHR ''#'' # c"
      using True 2 by (simp add: replicate_add replicate_app_Cons_same)
    ultimately have "strip_comment (trim (pad n @ w @ r)) = trim []" by (simp only: strip_comment_def) simp
    then show ?thesis using True trim_spaces [of 0] by simp
  next
    case False
    obtain t where "trim (pad n @ (w @ pad (Suc a)) @ CHR ''#'' # c) = (w @ pad (Suc a)) @ CHR ''#'' # t"
      using trim_keeps [of "CHR ''#''" "w @ pad (Suc a)" n c] False assms(1) by (auto simp: graphic_def)
    moreover have "split_once (CHR ''#'') ((w @ pad (Suc a)) @ CHR ''#'' # t) = Some (w @ pad (Suc a), t)"
      using assms(2) by (simp add: split_once_Some)
    ultimately show ?thesis
      using 2 False assms(1) trim_graphic_spaces [of w "Suc a"] by (simp add: strip_comment_def)
  qed
qed

text \<open>The three kinds of lines, each with what may follow it.\<close>

lemma parse_kv:
  assumes "key_word k" "value_word v" "remark r"
  shows "parse_line (pad n @ k @ '': '' @ v @ r) = Some \<lparr>yl_indent = int n, yl_key = k, yl_value = Some v\<rparr>"
  using parse_keyed [OF assms(1), of n "CHR '' '' # v @ r"] value_read [of v r 1] word_ends [of v] assms
  by (simp add: value_word_def unquote_id)

lemma parse_block:
  assumes "key_word k" "remark r"
  shows "parse_line (pad n @ k @ CHR '':'' # r) = Some \<lparr>yl_indent = int n, yl_key = k, yl_value = None\<rparr>"
    "parse_line (pad n @ k @ '': {}'' @ r) = Some \<lparr>yl_indent = int n, yl_key = k, yl_value = None\<rparr>"
  using parse_keyed [OF assms(1), of n r] value_read [of "[]" r 0] assms(2)
    parse_keyed [OF assms(1), of n "'' {}'' @ r"] value_read [of "''{}''" r 1]
  by (simp_all add: graphic_def)

section \<open>Reading a file\<close>

lemma hm_insert_new: "k \<notin> fst ` set m \<Longrightarrow> hm_insert k v m = m @ [(k, v)]"
  by (induction m) auto

definition field_nodes :: "(string \<times> string) list \<Rightarrow> (string \<times> node) list" where
  "field_nodes kvs = map (\<lambda>(k, v). (k, NScalar v)) kvs"

fun block_yaml :: "nat \<Rightarrow> nat \<Rightarrow> string \<times> (string \<times> string) list \<Rightarrow> yline list" where
  "block_yaml n m (name, kvs) = \<lparr>yl_indent = int n, yl_key = name, yl_value = None\<rparr>
     # map (\<lambda>(k, v). \<lparr>yl_indent = int m, yl_key = k, yl_value = Some v\<rparr>) kvs"

fun item_yaml :: "nat \<Rightarrow> nat \<Rightarrow> config_item \<Rightarrow> yline list" where
  "item_yaml n m (Scalar k v) = [\<lparr>yl_indent = 0, yl_key = k, yl_value = Some v\<rparr>]"
| "item_yaml n m (Section k bs) = \<lparr>yl_indent = 0, yl_key = k, yl_value = None\<rparr> # concat (map (block_yaml n m) bs)"

fun item_node :: "config_item \<Rightarrow> node" where
  "item_node (Scalar k v) = NScalar v"
| "item_node (Section k bs) = NMap (map (\<lambda>(name, kvs). (name, NMap (field_nodes kvs))) bs)"

lemma commented_iff: "commented l l' \<longleftrightarrow> (\<exists>r. l' = l @ r \<and> remark r)"
  by (auto simp: commented_def strip_prefix_Some split: option.splits)

lemma commented_Cons:
  "list_all2 commented (l # lls) ls \<Longrightarrow> \<exists>r ls'. ls = (l @ r) # ls' \<and> remark r \<and> list_all2 commented lls ls'"
  by (auto simp: list_all2_Cons1 commented_iff)

lemma commented_kvs:
  assumes "list_all (\<lambda>(k, v). key_word k \<and> value_word v) kvs"
    and "list_all2 commented (map (\<lambda>(k, v). pad m @ k @ '': '' @ v) kvs) ls"
  shows "map parse_line ls = map Some (map (\<lambda>(k, v). \<lparr>yl_indent = int m, yl_key = k, yl_value = Some v\<rparr>) kvs)"
  using assms
proof (induction kvs arbitrary: ls)
  case (Cons kv kvs)
  obtain k v where kv: "kv = (k, v)" by (cases kv)
  have "list_all2 commented ((pad m @ k @ '': '' @ v) # map (\<lambda>(k, v). pad m @ k @ '': '' @ v) kvs) ls"
    using Cons.prems(2) kv by simp
  from commented_Cons [OF this] obtain r ls' where "ls = ((pad m @ k @ '': '' @ v) @ r) # ls'" "remark r"
      "list_all2 commented (map (\<lambda>(k, v). pad m @ k @ '': '' @ v) kvs) ls'"
    by blast
  then show ?case using Cons parse_kv [of k v r m] kv by simp
qed simp

lemma commented_block:
  assumes "key_word name" "list_all (\<lambda>(k, v). key_word k \<and> value_word v) kvs" "list_all2 commented (block_lines n m (name, kvs)) ls"
  shows "map parse_line ls = map Some (block_yaml n m (name, kvs))"
proof (cases kvs)
  case Nil
  then obtain r where "ls = [pad n @ name @ '': {}'' @ r]" "remark r"
    using assms(3) by (auto simp: list_all2_Cons1 commented_iff)
  then show ?thesis using Nil parse_block(2) [OF assms(1), of r n] by simp
next
  case (Cons kv kvs')
  have "list_all2 commented ((pad n @ name @ '':'') # map (\<lambda>(k, v). pad m @ k @ '': '' @ v) kvs) ls"
    using assms(3) Cons by simp
  from commented_Cons [OF this] obtain r ls' where ls: "ls = (pad n @ name @ CHR '':'' # r) # ls'" "remark r"
      "list_all2 commented (map (\<lambda>(k, v). pad m @ k @ '': '' @ v) kvs) ls'"
    by auto
  then show ?thesis using parse_block(1) [OF assms(1), of r n] commented_kvs [OF assms(2) ls(3)] by simp
qed

lemma commented_blocks:
  assumes "list_all (\<lambda>(name, kvs). key_word name \<and> distinct (map fst kvs)
          \<and> list_all (\<lambda>(k, v). key_word k \<and> value_word v) kvs) bs"
    and "list_all2 commented (concat (map (block_lines n m) bs)) ls"
  shows "map parse_line ls = map Some (concat (map (block_yaml n m) bs))"
  using assms
proof (induction bs arbitrary: ls)
  case (Cons b bs)
  obtain name kvs where b: "b = (name, kvs)" by (cases b)
  obtain l1 l2 where ls: "ls = l1 @ l2" "list_all2 commented (block_lines n m b) l1"
      "list_all2 commented (concat (map (block_lines n m) bs)) l2"
    using Cons.prems(2) by (auto simp: list_all2_append1)
  show ?case using commented_block [of name kvs n m l1] Cons.IH [OF _ ls(3)] Cons.prems(1) ls b by simp
qed simp

lemma commented_item:
  assumes "wf_item it" "list_all2 commented (item_lines n m it) ls"
  shows "map parse_line ls = map Some (item_yaml n m it)"
proof (cases it)
  case (Scalar k v)
  then obtain r where "ls = [pad 0 @ k @ '': '' @ v @ r]" "remark r"
    using assms(2) by (auto simp: list_all2_Cons1 commented_iff)
  then show ?thesis using Scalar assms(1) parse_kv [of k v r 0] by simp
next
  case (Section k bs)
  have k: "key_word k" using Section assms(1) by simp
  show ?thesis
  proof (cases bs)
    case Nil
    then obtain r where "ls = [pad 0 @ k @ '': {}'' @ r]" "remark r"
      using assms(2) Section by (auto simp: list_all2_Cons1 commented_iff)
    then show ?thesis using Nil Section parse_block(2) [OF k, of r 0] by simp
  next
    case (Cons b bs')
    have "list_all2 commented ((k @ '':'') # concat (map (block_lines n m) bs)) ls" using assms(2) Section Cons by simp
    from commented_Cons [OF this] obtain r ls' where ls: "ls = (pad 0 @ k @ CHR '':'' # r) # ls'" "remark r"
        "list_all2 commented (concat (map (block_lines n m) bs)) ls'"
      by auto
    then show ?thesis using Section assms(1) parse_block(1) [OF k, of r 0] commented_blocks [OF _ ls(3)] by simp
  qed
qed

lemma map_filter_Some: "map f xs = map Some ys \<Longrightarrow> List.map_filter f xs = ys"
  by (induction xs arbitrary: ys) (auto simp: map_filter_simps)

lemma commented_items:
  assumes "list_all wf_item its" "list_all2 commented (concat (map (item_lines n m) its)) ls"
  shows "List.map_filter parse_line ls = concat (map (item_yaml n m) its)"
proof -
  have "map parse_line ls = map Some (concat (map (item_yaml n m) its))"
    using assms
  proof (induction its arbitrary: ls)
    case (Cons it its)
    obtain l1 l2 where ls: "ls = l1 @ l2" "list_all2 commented (item_lines n m it) l1"
        "list_all2 commented (concat (map (item_lines n m) its)) l2"
      using Cons.prems(2) by (auto simp: list_all2_append1)
    show ?case using commented_item [OF _ ls(2)] Cons.IH [OF _ ls(3)] Cons.prems(1) ls(1) by simp
  qed simp
  then show ?thesis by (rule map_filter_Some)
qed

lemma parse_without_noise:
  "List.map_filter parse_line ls = List.map_filter parse_line (filter (\<lambda>l. \<not> noise l) ls)"
  by (induction ls) (auto simp: map_filter_simps parse_noise split: option.splits)

section \<open>Building the tree\<close>

lemma build_fields:
  "n < m \<Longrightarrow> distinct (map fst kvs) \<Longrightarrow> fst ` set kvs \<inter> fst ` set mp = {} \<Longrightarrow> rest = [] \<or> yl_indent (hd rest) \<le> int n \<Longrightarrow>
   build_loop (int m) (int n) (map (\<lambda>(k, v). \<lparr>yl_indent = int m, yl_key = k, yl_value = Some v\<rparr>) kvs @ rest) mp
     = (NMap (mp @ field_nodes kvs), rest)"
proof (induction kvs arbitrary: mp)
  case Nil
  then show ?case by (cases rest) (auto simp: field_nodes_def)
next
  case (Cons kv kvs)
  have "build_loop (int m) (int n) (map (\<lambda>(k, v). \<lparr>yl_indent = int m, yl_key = k, yl_value = Some v\<rparr>) kvs @ rest)
        (mp @ [(fst kv, NScalar (snd kv))]) = (NMap ((mp @ [(fst kv, NScalar (snd kv))]) @ field_nodes kvs), rest)"
    by (rule Cons.IH) (use Cons.prems in auto)
  then show ?case using Cons.prems by (cases kv) (simp add: hm_insert_new field_nodes_def)
qed

lemma build_nothing: "rest = [] \<or> yl_indent (hd rest) \<le> p \<Longrightarrow>
  (case rest of [] \<Rightarrow> (NMap [], []) | l # _ \<Rightarrow> build_loop (yl_indent l) p rest []) = (NMap [], rest)"
  by (cases rest) auto

lemma build_block:
  assumes "0 < n" "n < m" "rest = [] \<or> yl_indent (hd rest) \<le> int n" "name \<notin> fst ` set mp" "distinct (map fst kvs)"
  shows "build_loop (int n) 0 (block_yaml n m (name, kvs) @ rest) mp
    = build_loop (int n) 0 rest (mp @ [(name, NMap (field_nodes kvs))])"
proof -
  let ?ls = "map (\<lambda>(k, v). \<lparr>yl_indent = int m, yl_key = k, yl_value = Some v\<rparr>) kvs @ rest"
  have "(case ?ls of [] \<Rightarrow> (NMap [], []) | l2 # _ \<Rightarrow> build_loop (yl_indent l2) (int n) ?ls []) = (NMap (field_nodes kvs), rest)"
  proof (cases kvs)
    case Nil
    then have "?ls = rest" "field_nodes kvs = []" by (simp_all add: field_nodes_def)
    then show ?thesis using build_nothing [OF assms(3)] by (simp only:)
  next
    case (Cons kv kvs')
    then show ?thesis using build_fields [OF assms(2,5), of "[]" rest] assms(3) by (auto simp: case_prod_unfold)
  qed
  then show ?thesis using assms(1,4) by (simp add: hm_insert_new)
qed

definition block_nodes :: "(string \<times> (string \<times> string) list) list \<Rightarrow> (string \<times> node) list" where
  "block_nodes bs = map (\<lambda>(name, kvs). (name, NMap (field_nodes kvs))) bs"

lemma blocks_hd: "bs \<noteq> [] \<Longrightarrow> \<exists>l ls. concat (map (block_yaml n m) bs) @ rest = l # ls \<and> yl_indent l = int n"
  by (cases bs; cases "hd bs") auto

lemma build_blocks:
  assumes "0 < n" "n < m"
  shows "distinct (map fst bs) \<Longrightarrow> list_all (\<lambda>(name, kvs). distinct (map fst kvs)) bs \<Longrightarrow> fst ` set bs \<inter> fst ` set mp = {} \<Longrightarrow>
    rest = [] \<or> yl_indent (hd rest) \<le> 0 \<Longrightarrow>
    build_loop (int n) 0 (concat (map (block_yaml n m) bs) @ rest) mp = (NMap (mp @ block_nodes bs), rest)"
proof (induction bs arbitrary: mp)
  case Nil
  then show ?case by (cases rest) (auto simp: block_nodes_def)
next
  case (Cons b bs)
  obtain name kvs where b: "b = (name, kvs)" by (cases b)
  let ?rest = "concat (map (block_yaml n m) bs) @ rest"
  have r: "?rest = [] \<or> yl_indent (hd ?rest) \<le> int n"
    using Cons.prems(4) blocks_hd [of bs n m rest] by (cases "bs = []") auto
  have "build_loop (int n) 0 (concat (map (block_yaml n m) (b # bs)) @ rest) mp
      = build_loop (int n) 0 ?rest (mp @ [(name, NMap (field_nodes kvs))])"
    using build_block [OF assms r, of name mp kvs] Cons.prems b by (simp del: block_yaml.simps)
  also have "\<dots> = (NMap ((mp @ [(name, NMap (field_nodes kvs))]) @ block_nodes bs), rest)"
    by (rule Cons.IH) (use Cons.prems b in auto)
  finally show ?case using b by (simp add: block_nodes_def)
qed

lemma build_item:
  assumes "0 < n" "n < m" "wf_item it" "item_key it \<notin> fst ` set mp" "rest = [] \<or> yl_indent (hd rest) \<le> 0"
  shows "build_loop 0 (- 1) (item_yaml n m it @ rest) mp = build_loop 0 (- 1) rest (mp @ [(item_key it, item_node it)])"
proof (cases it)
  case (Section k bs)
  let ?ls = "concat (map (block_yaml n m) bs) @ rest"
  have "distinct (map fst bs)" "list_all (\<lambda>(name, kvs). distinct (map fst kvs)) bs"
    using assms(3) Section by (auto simp: list_all_iff)
  then have b: "build_loop (int n) 0 ?ls [] = (NMap (block_nodes bs), rest)"
    using build_blocks [OF assms(1,2), of bs "[]" rest] assms(5) by simp
  have "(case ?ls of [] \<Rightarrow> (NMap [], []) | l2 # _ \<Rightarrow> build_loop (yl_indent l2) 0 ?ls []) = (NMap (block_nodes bs), rest)"
  proof (cases "bs = []")
    case True
    then have "?ls = rest" "block_nodes bs = []" by (simp_all add: block_nodes_def)
    then show ?thesis using build_nothing [OF assms(5)] by (simp only:)
  next
    case False
    then show ?thesis using blocks_hd [of bs n m rest] b by (auto simp del: block_yaml.simps)
  qed
  then show ?thesis using assms(4) Section by (simp add: hm_insert_new block_nodes_def)
qed (use assms(4) in \<open>simp add: hm_insert_new\<close>)

lemma build_items:
  assumes "0 < n" "n < m"
  shows "list_all wf_item its \<Longrightarrow> distinct (map item_key its) \<Longrightarrow> item_key ` set its \<inter> fst ` set mp = {} \<Longrightarrow>
    build_loop 0 (- 1) (concat (map (item_yaml n m) its)) mp = (NMap (mp @ map (\<lambda>it. (item_key it, item_node it)) its), [])"
proof (induction its arbitrary: mp)
  case (Cons it its)
  let ?rest = "concat (map (item_yaml n m) its)"
  have "?rest = [] \<or> yl_indent (hd ?rest) \<le> 0" by (cases its; cases "hd its") auto
  then have "build_loop 0 (- 1) (concat (map (item_yaml n m) (it # its))) mp
      = build_loop 0 (- 1) ?rest (mp @ [(item_key it, item_node it)])"
    using build_item [OF assms, of it mp ?rest] Cons.prems by simp
  also have "\<dots> = (NMap ((mp @ [(item_key it, item_node it)]) @ map (\<lambda>it. (item_key it, item_node it)) its), [])"
    by (rule Cons.IH) (use Cons.prems in auto)
  finally show ?case by simp
qed simp

lemma yaml_parse_file:
  assumes "0 < n" "n < m" "wf_file f" "text_of_file n m f text"
  shows "yaml_parse text = NMap (map (\<lambda>it. (item_key it, item_node it)) (file_items f))"
proof -
  let ?its = "file_items f"
  have "?its \<noteq> []" by (simp add: file_items_def)
  then obtain l ls where l: "concat (map (item_yaml n m) ?its) = l # ls" "yl_indent l = 0"
    by (cases ?its; cases "hd ?its") auto
  have "List.map_filter parse_line (split_on (CHR 0x0A) text) = concat (map (item_yaml n m) ?its)"
    using commented_items [of ?its n m] assms(3,4) parse_without_noise by (metis text_of_file_def wf_file_def)
  then show ?thesis
    using build_items [OF assms(1,2), of ?its "[]"] assms(3) l by (simp add: yaml_parse_def build_def wf_file_def)
qed

section \<open>The entries of a file\<close>

lemma field_keys: "map_of (field_nodes (map field_kv fs)) k = map_option NScalar (map_of (map field_kv fs) k)"
  by (induction fs) (auto simp: field_nodes_def split: prod.splits)

lemma map_of_absent: "k \<notin> fst ` field_kv ` set fs \<Longrightarrow> map_of (map field_kv fs) k = None"
  by (simp add: map_of_eq_None_iff)

lemma parse_port: "p \<le> 65535 \<Longrightarrow> parse_u16 (nat_to_string p) = Some p"
  by (simp add: parse_u16_def)

lemma fold_set_field:
  fixes fs :: "server_field list"
  defines "field \<equiv> map_of (map field_kv fs)"
  assumes "distinct (map (fst \<circ> field_kv) fs)" "list_all wf_field fs"
  shows "fold set_field fs e =
    \<lparr>se_name = se_name e, se_host = unwrap_or (field ''host'') (se_host e),
     se_http_port = unwrap_or (Option.bind (field ''http_port'') parse_u16) (se_http_port e),
     se_ssh_port = unwrap_or (Option.bind (field ''ssh_port'') parse_u16) (se_ssh_port e),
     se_control_token = unwrap_or (field ''control_token'') (se_control_token e),
     se_api_url = unwrap_or (field ''api_url'') (se_api_url e),
     se_tls_cert_fingerprint = unwrap_or (map_option to_lowercase (field ''tls_cert_fingerprint'')) (se_tls_cert_fingerprint e)\<rparr>"
  using assms(2,3) unfolding field_def
proof (induction fs arbitrary: e)
  case (Cons f fs)
  then show ?case by (cases f) (auto simp: map_of_absent parse_port image_comp)
qed simp

lemma server_entry_block:
  assumes "distinct (map (fst \<circ> field_kv) fs)" "list_all wf_field fs"
  shows "server_entry name (field_nodes (map field_kv fs)) = block_entry name fs"
proof -
  have low: "to_lowercase [] = []" by (simp add: to_lowercase.simps)
  have s: "scalar_field (field_nodes (map field_kv fs)) k = map_of (map field_kv fs) k" for k
    by (cases "map_of (map field_kv fs) k") (simp_all add: scalar_field_def field_keys as_scalar_def)
  have t: "to_lowercase (unwrap_or x []) = unwrap_or (map_option to_lowercase x) []" for x
    by (cases x) (simp_all add: low)
  show ?thesis
    by (rule shed_server_entry.equality)
      (simp_all add: server_entry_def block_entry_def s t fold_set_field [OF assms])
qed

lemma server_entries_blocks:
  "list_all (\<lambda>(name, fs). distinct (map (fst \<circ> field_kv) fs) \<and> list_all wf_field fs) bs \<Longrightarrow>
   server_entries (map (\<lambda>(name, fs). (name, NMap (field_nodes (map field_kv fs)))) bs) = map (\<lambda>(name, fs). block_entry name fs) bs"
  by (induction bs) (auto simp: server_entry_block)

lemma default_lookup:
  "distinct (map item_key its) \<Longrightarrow>
   Option.bind (map_of (map (\<lambda>it. (item_key it, item_node it)) its) ''default_server'') as_scalar = default_of its"
proof (induction its)
  case (Cons it its)
  have "map_of (map (\<lambda>it. (item_key it, item_node it)) its) k = None" if "k \<notin> item_key ` set its" for k
    using that by (force simp: map_of_eq_None_iff)
  then show ?case using Cons by (cases it) (auto simp: as_scalar_def)
qed simp

lemma default_skip [simp]: "default_of (xs @ Section k bs # ys) = default_of (xs @ ys)"
  by (induction xs rule: default_of.induct) auto

text \<open>
  C29. Reading a configuration file in the shape of the repository's fixtures, whatever the (nested)
  indentation, the order of the sections, the servers and the fields, the fields and sections that the
  reader does not know, and the blank and comment lines in between and comments after a line: the result
  has exactly the servers of the file, in the order of their names, each with the fields it is given
  (the pin in lower case) and the defaults for the others (its name as host, ports 8080 and 22, no
  token, URL or pin), and the default server that the file names before or after them, if it does.
\<close>

theorem config_roundtrip:
  assumes "0 < n" and "n < m" and "wf_file f" and "text_of_file n m f text"
  shows "config_parse text =
    \<lparr>sc_servers = sort_key se_name (map (\<lambda>(name, fs). block_entry name fs) (cf_servers f)),
     sc_default_server = default_of (cf_before f @ cf_after f)\<rparr>"
proof -
  let ?nodes = "map (\<lambda>it. (item_key it, item_node it)) (file_items f)"
  have d: "distinct (map item_key (file_items f))" using assms(3) by (simp add: wf_file_def)
  then have "map_of ?nodes ''servers''
      = Some (NMap (map (\<lambda>(name, fs). (name, NMap (field_nodes (map field_kv fs)))) (cf_servers f)))"
    by (auto simp: file_items_def map_add_def case_prod_unfold comp_def map_of_eq_None_iff split: option.split)
  moreover have "list_all (\<lambda>(name, fs). distinct (map (fst \<circ> field_kv) fs) \<and> list_all wf_field fs) (cf_servers f)"
    using assms(3) by (auto simp: wf_file_def file_items_def list_all_iff)
  ultimately show ?thesis
    using yaml_parse_file [OF assms] default_lookup [OF d]
    by (simp add: config_parse_def server_entries_blocks scalar_field_def file_items_def)
qed

text \<open>The shared fixture \<^verbatim>\<open>core/fixtures/config_sample.yaml\<close>, byte for byte, and what it holds.\<close>

definition config_sample :: string where
  "config_sample = join [CHR 0x0A]
     [''# shed config '' @ [CHR 0xE2, CHR 0x80, CHR 0x94] @ '' shared cross-language parity fixture.'',
      ''# The Rust `shed_core::config` parser (config.rs) and the Swift `ShedConfig`'',
      ''# parser (ShedConfig.swift) must produce identical results from this file.'',
      ''# Exercises: multiple servers (sorted by name), default_server, a control token'',
      ''# present + absent, api_url + a mixed-case pin (lowercased), an inline comment,'',
      ''# an ignored field (added_at), and an inline empty map `{}` (all-defaults).'',
      ''default_server: mini2'',
      ''servers:'',
      ''    mini2:'',
      ''        host: mini2'',
      ''        http_port: 8080'',
      ''        ssh_port: 2222'',
      ''        control_token: shed_control_abc123'',
      ''        added_at: 2026-05-09T01:44:44.395385-05:00'',
      ''    secure:'',
      ''        host: localhost'',
      ''        http_port: 8080'',
      ''        ssh_port: 2222'',
      ''        api_url: https://localhost:8443'',
      ''        tls_cert_fingerprint: SHA256:AABBCC   # mixed case -> lowercased'',
      ''    minimal: {}'',
      ''sheds: {}'',
      []]"

definition config_sample_file :: config_file where
  "config_sample_file =
     \<lparr>cf_before = [Scalar ''default_server'' ''mini2''],
      cf_servers =
        [(''mini2'', [FHost ''mini2'', FHttpPort 8080, FSshPort 2222, FControlToken ''shed_control_abc123'',
            FOther ''added_at'' ''2026-05-09T01:44:44.395385-05:00'']),
         (''secure'', [FHost ''localhost'', FHttpPort 8080, FSshPort 2222, FApiUrl ''https://localhost:8443'',
            FPin ''SHA256:AABBCC'']),
         (''minimal'', [])],
      cf_after = [Section ''sheds'' []]\<rparr>"

lemma split_on_join:
  "ls \<noteq> [] \<Longrightarrow> \<forall>l \<in> set ls. d \<notin> set l \<Longrightarrow> split_on d (join [d] ls) = ls"
  by (induction ls rule: induct_list012) (simp_all add: split_on_plain split_on_append)

lemma config_sample_ports: "nat_to_string 8080 = ''8080''" "nat_to_string 2222 = ''2222''"
  by (simp_all add: nat_to_string.simps digit_char_def char_of_eq_iff)

lemma config_sample_wf: "wf_file config_sample_file"
  by (simp add: wf_file_def file_items_def config_sample_file_def config_sample_ports key_word_def value_word_def word_def
      graphic_def)

lemma config_sample_text: "text_of_file 4 8 config_sample_file config_sample"
proof -
  have "filter (\<lambda>l. \<not> noise l) (split_on (CHR 0x0A) config_sample)
      = [''default_server: mini2'',
         ''servers:'',
         ''    mini2:'',
         ''        host: mini2'',
         ''        http_port: 8080'',
         ''        ssh_port: 2222'',
         ''        control_token: shed_control_abc123'',
         ''        added_at: 2026-05-09T01:44:44.395385-05:00'',
         ''    secure:'',
         ''        host: localhost'',
         ''        http_port: 8080'',
         ''        ssh_port: 2222'',
         ''        api_url: https://localhost:8443'',
         ''        tls_cert_fingerprint: SHA256:AABBCC   # mixed case -> lowercased'',
         ''    minimal: {}'',
         ''sheds: {}'']"
    unfolding config_sample_def by (subst split_on_join) (simp_all add: noise_def)
  moreover have "pad 4 = ''    ''" "pad 8 = ''        ''" by (simp_all add: numeral_eq_Suc)
  ultimately show ?thesis
    by (simp add: text_of_file_def file_items_def config_sample_file_def config_sample_ports commented_def remark_def)
qed

theorem config_roundtrip_witness:
  "0 < (4 :: nat) \<and> (4 :: nat) < 8 \<and> wf_file config_sample_file \<and> text_of_file 4 8 config_sample_file config_sample
   \<and> config_parse config_sample =
      \<lparr>sc_servers =
         [\<lparr>se_name = ''mini2'', se_host = ''mini2'', se_http_port = 8080, se_ssh_port = 2222,
           se_control_token = ''shed_control_abc123'', se_api_url = [], se_tls_cert_fingerprint = []\<rparr>,
          \<lparr>se_name = ''minimal'', se_host = ''minimal'', se_http_port = 8080, se_ssh_port = 22,
           se_control_token = [], se_api_url = [], se_tls_cert_fingerprint = []\<rparr>,
          \<lparr>se_name = ''secure'', se_host = ''localhost'', se_http_port = 8080, se_ssh_port = 2222,
           se_control_token = [], se_api_url = ''https://localhost:8443'', se_tls_cert_fingerprint = ''sha256:aabbcc''\<rparr>],
       sc_default_server = Some ''mini2''\<rparr>"
proof -
  have l: "to_lowercase ''SHA256:AABBCC'' = ''sha256:aabbcc''" by code_simp
  have o: "''mini2'' < ''minimal''" "''minimal'' < ''secure''" "''mini2'' < ''secure''" by code_simp+
  show ?thesis
    using config_roundtrip [OF _ _ config_sample_wf config_sample_text] config_sample_wf config_sample_text o
    by (simp add: config_sample_file_def block_entry_def l)
qed

text \<open>
  Whatever the file contains, the parsed servers are sorted by name, their ports are 16-bit, and
  each endpoint is the configured URL when that is an http(s) URL with a host and otherwise plain
  HTTP to the host and port; the pin always goes along.
\<close>

lemma config_entries_sound:
  "sorted (map se_name (sc_servers (config_parse text)))
   \<and> list_all (\<lambda>e. se_http_port e \<le> 65535 \<and> se_ssh_port e \<le> 65535
        \<and> re_pin (resolved_endpoint e) = se_tls_cert_fingerprint e
        \<and> (re_base_url (resolved_endpoint e) = se_api_url e \<and> is_http_url_with_host (se_api_url e)
           \<or> re_base_url (resolved_endpoint e) = ''http://'' @ se_host e @ '':'' @ nat_to_string (se_http_port e)))
      (sc_servers (config_parse text))"
proof -
  have p: "unwrap_or (Option.bind x parse_u16) d \<le> 65535" if "d \<le> 65535" for x d
    using that parse_unsigned_bound by (cases x; cases "Option.bind x parse_u16") (auto simp: parse_u16_def)
  have "list_all (\<lambda>e. se_http_port e \<le> 65535 \<and> se_ssh_port e \<le> 65535) (server_entries m)" for m
    by (induction m rule: server_entries.induct) (auto simp: server_entry_def Let_def p)
  then have "list_all (\<lambda>e. se_http_port e \<le> 65535 \<and> se_ssh_port e \<le> 65535) (sc_servers (config_parse text))"
    by (auto simp: config_parse_def default_config_def list_all_iff split: node.splits option.splits)
  moreover have "sorted (map se_name (sc_servers (config_parse text)))"
    by (auto simp: config_parse_def default_config_def split: node.splits)
  ultimately show ?thesis by (simp add: list_all_iff resolved_endpoint_def)
qed

end
