(* ===== verification/Backend.thy ===== *)
theory Backend
  imports Create Config Terminal
begin

text \<open>
  The data layer the clients share (\<^verbatim>\<open>core/shed-app/src/backend.rs\<close>): one HTTP client and one ssh
  endpoint per configured server, the reads over all hosts, the lifecycle calls, the creates and the
  targets of remote-control operations.

  A client's token cache is behind an \<^verbatim>\<open>Arc\<close>, so an operation that sends requests returns the
  backend with the client it used updated. The reads of all hosts are concurrent on different
  clients: the \<open>i\<close>-th client meets the surroundings \<open>envs i\<close>. \<^verbatim>\<open>builder\<close> is reqwest's client builder, \<^verbatim>\<open>home\<close> the
  variable \<^verbatim>\<open>HOME\<close>.
\<close>

section \<open>State\<close>

record ssh_target =
  tgt_host :: string
  tgt_port :: nat

record rc_target =
  rt_server_name :: string
  rt_ssh_host :: string
  rt_ssh_port :: nat
  rt_known_hosts :: string

record backend =
  be_clients :: "(string, client) hmap"
  be_ssh_targets :: "(string, ssh_target) hmap"
  be_default_server :: "string option"
  be_creates :: create_store

record reachability =
  ra_sheds :: "shed list"
  ra_last_error :: "string option"

record host_disk_usage =
  hd_host :: string
  hd_usage :: "system_disk_usage option"
  hd_error :: "string option"

section \<open>Construction\<close>

definition client_for_server ::
  "http_stack \<Rightarrow> string option \<Rightarrow> bool \<Rightarrow> shed_server_entry \<Rightarrow> (string \<times> client) option" where
  "client_for_server builder mock_base_url has_minter s =
     map_option (Pair (se_name s)) (result_ok
       (case mock_base_url of
          Some mock \<Rightarrow> client_new builder mock (se_name s) [] None False
        | None \<Rightarrow>
            (let r = resolved_endpoint s in
             client_new builder (re_base_url r) (se_name s) (se_control_token s)
               (if re_pin r \<noteq> [] then Some (re_pin r) else None) has_minter)))"

definition from_config_with_minter ::
  "http_stack \<Rightarrow> shed_config \<Rightarrow> string option \<Rightarrow> bool \<Rightarrow> backend" where
  "from_config_with_minter builder config mock_base_url has_minter =
     \<lparr>be_clients = List.map_filter (client_for_server builder mock_base_url has_minter) (sc_servers config),
      be_ssh_targets = map (\<lambda>s. (se_name s, \<lparr>tgt_host = se_host s, tgt_port = se_ssh_port s\<rparr>)) (sc_servers config),
      be_default_server = sc_default_server config, be_creates = []\<rparr>"

definition from_config where
  "from_config builder config mock_base_url = from_config_with_minter builder config mock_base_url False"

text \<open>\<open>contents\<close> is the text of the configuration file, if it can be read.\<close>

definition from_env_parts_with_minter ::
  "http_stack \<Rightarrow> bool \<Rightarrow> string option \<Rightarrow> string option \<Rightarrow> bool \<Rightarrow> backend" where
  "from_env_parts_with_minter builder test_mode mock_base_url contents has_minter =
     (if test_mode \<and> mock_base_url = None
      then \<lparr>be_clients = [], be_ssh_targets = [], be_default_server = None, be_creates = []\<rparr>
      else from_config_with_minter builder (config_load contents) mock_base_url has_minter)"

definition from_env_parts where
  "from_env_parts builder test_mode mock_base_url contents =
     from_env_parts_with_minter builder test_mode mock_base_url contents False"

section \<open>Resolution\<close>

definition resolve_entry :: "(string, 'a) hmap \<Rightarrow> string option \<Rightarrow> string option \<Rightarrow> (string \<times> 'a) option" where
  "resolve_entry items default_server host =
     (let by_name = (\<lambda>n. List.find (\<lambda>e. fst e = n) items) in
      case host of
        Some h \<Rightarrow> by_name h
      | None \<Rightarrow> opt_or (Option.bind default_server by_name) (case items of e # _ \<Rightarrow> Some e | [] \<Rightarrow> None))"

definition resolve :: "(string, 'a) hmap \<Rightarrow> string option \<Rightarrow> string option \<Rightarrow> 'a option" where
  "resolve items default_server host = map_option snd (resolve_entry items default_server host)"

definition no_configured_host :: "string option \<Rightarrow> shed_error" where
  "no_configured_host host =
     ConfigError (''no configured host'' @ unwrap_or (map_option (\<lambda>h. '': '' @ h) host) [])"

definition ok_or :: "'e \<Rightarrow> 'a option \<Rightarrow> 'e + 'a" where
  "ok_or e x = (case x of Some v \<Rightarrow> Inr v | None \<Rightarrow> Inl e)"

definition client_for :: "string option \<Rightarrow> backend \<Rightarrow> shed_error + client" where
  "client_for host b = ok_or (no_configured_host host) (resolve (be_clients b) (be_default_server b) host)"

definition ssh_target_for :: "string option \<Rightarrow> backend \<Rightarrow> shed_error + ssh_target" where
  "ssh_target_for host b = ok_or (no_configured_host host) (resolve (be_ssh_targets b) (be_default_server b) host)"

definition host_names :: "backend \<Rightarrow> string list" where
  "host_names b = map fst (be_clients b)"

section \<open>Reads over all hosts\<close>

type_synonym surroundings = "nat \<Rightarrow> nenv \<times> nenv"

definition fetch_all ::
  "(nenv \<Rightarrow> nenv \<Rightarrow> client \<Rightarrow> 'r \<times> client) \<Rightarrow> surroundings \<Rightarrow> backend \<Rightarrow> (string \<times> 'r) list \<times> backend" where
  "fetch_all op envs b =
     (let rs = map (\<lambda>(i, name, c). case envs i of (e, e') \<Rightarrow> (name, op e e' c)) (enumerate 0 (be_clients b))
      in (map (\<lambda>(name, r, c). (name, r)) rs, b\<lparr>be_clients := map (\<lambda>(name, r, c). (name, c)) rs\<rparr>))"

definition backend_list_sheds :: "(string \<Rightarrow> json option) \<Rightarrow> surroundings \<Rightarrow> backend \<Rightarrow> shed list \<times> backend" where
  "backend_list_sheds parse envs b =
     (case fetch_all (list_sheds parse) envs b of
        (rs, b') \<Rightarrow> (concat (List.map_filter (\<lambda>(name, r). result_ok r) rs), b'))"

fun rollup :: "(string \<times> (shed_error + shed list)) list \<Rightarrow> shed list \<times> string list" where
  "rollup [] = ([], [])"
| "rollup ((name, r) # rs) =
     (case rollup rs of (sheds, errors) \<Rightarrow>
        (case r of
           Inr s \<Rightarrow> (s @ sheds, errors)
         | Inl e \<Rightarrow> (sheds, (name @ '': '' @ shed_error_text e) # errors)))"

definition last_error_of :: "string list \<Rightarrow> string option" where
  "last_error_of errors =
     (case errors of
        [] \<Rightarrow> None
      | [e] \<Rightarrow> Some e
      | _ \<Rightarrow> Some (nat_to_string (length errors) @ '' hosts unreachable''))"

definition refresh :: "(string \<Rightarrow> json option) \<Rightarrow> surroundings \<Rightarrow> backend \<Rightarrow> reachability \<times> backend" where
  "refresh parse envs b =
     (case fetch_all (list_sheds parse) envs b of
        (rs, b') \<Rightarrow> (case rollup rs of (sheds, errors) \<Rightarrow> (\<lparr>ra_sheds = sheds, ra_last_error = last_error_of errors\<rparr>, b')))"

definition disk_row :: "string \<times> (shed_error + system_disk_usage) \<Rightarrow> host_disk_usage" where
  "disk_row = (\<lambda>(host, r). case r of
      Inr usage \<Rightarrow> \<lparr>hd_host = host, hd_usage = Some usage, hd_error = None\<rparr>
    | Inl e \<Rightarrow> \<lparr>hd_host = host, hd_usage = None, hd_error = Some (shed_error_text e)\<rparr>)"

definition backend_system_df :: "(string \<Rightarrow> json option) \<Rightarrow> surroundings \<Rightarrow> backend \<Rightarrow> host_disk_usage list \<times> backend" where
  "backend_system_df parse envs b =
     (case fetch_all (system_df parse) envs b of (rs, b') \<Rightarrow> (map disk_row rs, b'))"

section \<open>Lifecycle and create\<close>

text \<open>An operation on the client of a host: its answer, the backend after it and the requests sent.\<close>

definition with_client ::
  "(client \<Rightarrow> (shed_error + 'a) \<times> client \<times> http_request list) \<Rightarrow> string option \<Rightarrow> backend
    \<Rightarrow> (shed_error + 'a) \<times> backend \<times> http_request list" where
  "with_client op host b =
     (case resolve_entry (be_clients b) (be_default_server b) host of
        None \<Rightarrow> (Inl (no_configured_host host), b, [])
      | Some (name, c) \<Rightarrow>
          (case op c of (r, c', qs) \<Rightarrow> (r, b\<lparr>be_clients := hm_insert name c' (be_clients b)\<rparr>, qs)))"

definition backend_start where "backend_start env env' host name = with_client (start_shed env env' name) host"
definition backend_stop where "backend_stop env env' host name = with_client (stop_shed env env' name) host"
definition backend_reset where "backend_reset env env' host name = with_client (reset_shed env env' name) host"
definition backend_delete where "backend_delete env env' host name = with_client (delete_shed env env' name) host"

definition shed_action ::
  "nenv \<Rightarrow> nenv \<Rightarrow> string option \<Rightarrow> string \<Rightarrow> string \<Rightarrow> backend \<Rightarrow> (shed_error + unit) \<times> backend \<times> http_request list" where
  "shed_action env env' host name action b =
     (if action = ''start'' then backend_start env env' host name b
      else if action = ''stop'' then backend_stop env env' host name b
      else if action = ''reset'' then backend_reset env env' host name b
      else if action = ''delete'' then backend_delete env env' host name b
      else (Inl (ConfigError (''unknown action: '' @ action)), b, []))"

text \<open>
  \<^verbatim>\<open>create_start\<close>: \<open>i\<close> is the fresh id, \<open>between\<close> what other tasks do to the store between the two locked
  sections of \<^verbatim>\<open>CreateStore::start\<close>. The spawned task streams the create through the client into the sink.
\<close>

definition backend_create_start :: "string \<Rightarrow> store_op list \<Rightarrow> string option \<Rightarrow> backend \<Rightarrow> (shed_error + string) \<times> backend" where
  "backend_create_start i between host b =
     (case client_for host b of
        Inl e \<Rightarrow> (Inl e, b)
      | Inr c \<Rightarrow> (Inr i, b\<lparr>be_creates := create_started i (fold store_exec between (create_start i (be_creates b)))\<rparr>))"

definition create_task ::
  "(string \<Rightarrow> json option) \<Rightarrow> nenv \<Rightarrow> create_shed_request \<Rightarrow> create_reply \<Rightarrow> string \<Rightarrow> string option \<Rightarrow> backend \<Rightarrow> backend" where
  "create_task parse env req reply i host b =
     (case resolve_entry (be_clients b) (be_default_server b) host of
        None \<Rightarrow> b
      | Some (name, c) \<Rightarrow>
          (case create_shed parse env req reply c of
             (calls, c', post) \<Rightarrow> b\<lparr>be_clients := hm_insert name c' (be_clients b),
                                   be_creates := fold (store_sink i) calls (be_creates b)\<rparr>))"

definition backend_create_status :: "string \<Rightarrow> backend \<Rightarrow> create_progress option" where
  "backend_create_status i b = create_status i (be_creates b)"

definition backend_create_cancel :: "string \<Rightarrow> backend \<Rightarrow> backend" where
  "backend_create_cancel i b = b\<lparr>be_creates := fst (create_cancel i (be_creates b))\<rparr>"

section \<open>Terminals and remote-control targets\<close>

definition known_hosts_path :: "string option \<Rightarrow> string" where
  "known_hosts_path home = unwrap_or home [] @ ''/.shed/known_hosts''"

definition terminal_preview ::
  "string option \<Rightarrow> string option \<Rightarrow> string \<Rightarrow> string option \<Rightarrow> backend \<Rightarrow> shed_error + terminal_command" where
  "terminal_preview home host shed session b =
     bind_result (ssh_target_for host b) (\<lambda>t.
       Inr (ssh_command shed (tgt_host t) (tgt_port t) (known_hosts_path home) session))"

definition resolve_rc_target :: "string option \<Rightarrow> string option \<Rightarrow> backend \<Rightarrow> shed_error + rc_target" where
  "resolve_rc_target home host b =
     bind_result (ok_or (no_configured_host host) (resolve_entry (be_ssh_targets b) (be_default_server b) host)) (\<lambda>(name, t).
       Inr \<lparr>rt_server_name = name, rt_ssh_host = tgt_host t, rt_ssh_port = tgt_port t,
            rt_known_hosts = known_hosts_path home\<rparr>)"

definition selects :: "string option \<Rightarrow> string \<Rightarrow> bool" where
  "selects want x = (case want of None \<Rightarrow> True | Some w \<Rightarrow> x = w)"

definition rc_targets ::
  "(string \<Rightarrow> json option) \<Rightarrow> surroundings \<Rightarrow> string option \<Rightarrow> string option \<Rightarrow> string option \<Rightarrow> backend
    \<Rightarrow> (shed \<times> rc_target) list \<times> backend" where
  "rc_targets parse envs home host shed b =
     (case backend_list_sheds parse envs b of
        (sheds, b') \<Rightarrow>
          (List.map_filter (\<lambda>s. map_option (Pair s) (result_ok (resolve_rc_target home (Some (sh_host s)) b')))
             (filter (\<lambda>s. sh_status s = StRunning \<and> selects host (sh_host s) \<and> selects shed (sh_name s)) sheds), b'))"

section \<open>Resolution lemmas\<close>

lemma ok_or_simps [simp]: "ok_or e (Some v) = Inr v" "ok_or e None = Inl e"
  by (simp_all add: ok_or_def)

lemma find_name: "List.find (\<lambda>e. fst e = k) items = map_option (Pair k) (map_of items k)"
  by (induction items) auto

lemma resolve_entry_first: "resolve_entry items d host = Some (n, v) \<Longrightarrow> map_of items n = Some v"
  by (auto simp: resolve_entry_def find_name opt_or_def Let_def split: option.splits list.splits bind_splits if_splits)

lemma resolve_entry_mem: "resolve_entry items d host = Some (n, v) \<Longrightarrow> (n, v) \<in> set items"
  by (drule resolve_entry_first) (rule map_of_SomeD)

lemma resolve_entry_named: "resolve_entry items d (Some h) = map_option (Pair h) (map_of items h)"
  by (simp add: resolve_entry_def find_name)

lemma resolve_entry_default: "map_of items d = Some v \<Longrightarrow> resolve_entry items (Some d) None = Some (d, v)"
  by (simp add: resolve_entry_def find_name opt_or_def)

lemma resolve_entry_fallback: "items \<noteq> [] \<Longrightarrow> resolve_entry items d None \<noteq> None"
  by (auto simp: resolve_entry_def opt_or_def split: option.splits list.splits)

section \<open>What a backend never changes\<close>

text \<open>What a client was built with; its operations change nothing but the token cache.\<close>

definition client_id where
  "client_id c = (cl_base_url c, cl_server_name c, cl_token c, cl_pin c, map_option ct_server (cl_provider c))"

lemma provider_token_server: "ct_server (snd (provider_token mint now p)) = ct_server p"
  by (auto simp: provider_token_def split: option.splits sum.splits)

lemma bearer_id: "client_id (snd (bearer env c)) = client_id c"
  using provider_token_server [of "ne_mint env" "ne_now env"]
  by (auto simp: bearer_def client_id_def case_prod_unfold split: option.splits)

lemma invalidate_id [simp]: "client_id (invalidate c) = client_id c"
  by (cases "cl_provider c") (simp_all add: invalidate_def client_id_def provider_invalidate_def)

lemma send_once_id: "client_id (fst (snd (send_once env mth path timeout c))) = client_id c"
  by (simp add: send_once_def case_prod_unfold bearer_id)

lemma request_id: "client_id (fst (snd (request env env' mth path timeout c))) = client_id c"
  by (simp add: request_def case_prod_unfold send_once_id)

lemma get_json_id: "client_id (snd (get_json parse dec env env' path c)) = client_id c"
  by (simp add: get_json_def case_prod_unfold request_id)

lemma list_sheds_id: "client_id (snd (list_sheds parse env env' c)) = client_id c"
  by (simp add: list_sheds_def case_prod_unfold get_json_id)

lemma system_df_id: "client_id (snd (system_df parse env env' c)) = client_id c"
  by (simp add: system_df_def get_json_id)

lemma lifecycle_id: "client_id (fst (snd (lifecycle env env' mth path c))) = client_id c"
  by (simp add: lifecycle_def case_prod_unfold request_id)

lemma create_shed_id: "client_id (fst (snd (create_shed parse env req reply c))) = client_id c"
  by (auto simp: create_shed_def Let_def case_prod_unfold bearer_id split: option.splits)

lemmas operation_ids = request_id list_sheds_id system_df_id lifecycle_id create_shed_id

definition backend_static where
  "backend_static b = (map (apsnd client_id) (be_clients b), be_ssh_targets b, be_default_server b)"

lemma update_client_static:
  assumes "map_of cs n = Some c" "client_id c' = client_id c"
  shows "map (apsnd client_id) (hm_insert n c' cs) = map (apsnd client_id) cs"
  using assms by (induction cs) auto

lemma fetch_all_static:
  assumes "\<And>e e' c. client_id (snd (op e e' c)) = client_id c"
  shows "backend_static (snd (fetch_all op envs b)) = backend_static b"
proof -
  have "map (apsnd client_id \<circ> (\<lambda>(name, r, c). (name, c)) \<circ> (\<lambda>(i, name, c). case envs i of (e, e') \<Rightarrow> (name, op e e' c)))
      (enumerate k cs) = map (apsnd client_id) cs" for k cs
    by (induction cs arbitrary: k) (auto simp: assms case_prod_unfold)
  then show ?thesis by (simp add: fetch_all_def backend_static_def comp_assoc)
qed

lemma with_client_static:
  assumes "\<And>c. client_id (fst (snd (op c))) = client_id c"
  shows "backend_static (fst (snd (with_client op host b))) = backend_static b"
  using assms
  by (auto simp: with_client_def backend_static_def case_prod_unfold update_client_static resolve_entry_first split: option.splits)

datatype backend_op =
    BoListSheds surroundings
  | BoRefresh surroundings
  | BoSystemDf surroundings
  | BoAction nenv nenv "string option" string string
  | BoCreateStart string "store_op list" "string option"
  | BoCreateTask nenv create_shed_request create_reply string "string option"
  | BoCreateCancel string

fun backend_exec :: "(string \<Rightarrow> json option) \<Rightarrow> backend_op \<Rightarrow> backend \<Rightarrow> backend" where
  "backend_exec parse (BoListSheds envs) b = snd (backend_list_sheds parse envs b)"
| "backend_exec parse (BoRefresh envs) b = snd (refresh parse envs b)"
| "backend_exec parse (BoSystemDf envs) b = snd (backend_system_df parse envs b)"
| "backend_exec parse (BoAction env env' host name action) b = fst (snd (shed_action env env' host name action b))"
| "backend_exec parse (BoCreateStart i between host) b = snd (backend_create_start i between host b)"
| "backend_exec parse (BoCreateTask env req reply i host) b = create_task parse env req reply i host b"
| "backend_exec parse (BoCreateCancel i) b = backend_create_cancel i b"

lemma shed_action_static: "backend_static (fst (snd (shed_action env env' host name action b))) = backend_static b"
  by (simp add: shed_action_def backend_start_def backend_stop_def backend_reset_def backend_delete_def
      with_client_static start_shed_def stop_shed_def reset_shed_def delete_shed_def lifecycle_id)

lemma create_task_static: "backend_static (create_task parse env req reply i host b) = backend_static b"
  by (auto simp: create_task_def backend_static_def case_prod_unfold update_client_static resolve_entry_first
      create_shed_id split: option.splits)

lemma backend_exec_static: "backend_static (backend_exec parse op b) = backend_static b"
proof (cases op)
  case (BoCreateStart i between host)
  then show ?thesis by (auto simp: backend_create_start_def backend_static_def split: sum.splits)
qed (simp_all add: backend_list_sheds_def refresh_def backend_system_df_def case_prod_unfold fetch_all_static list_sheds_id
    system_df_id shed_action_static create_task_static backend_create_cancel_def,
  simp_all add: backend_static_def)

interpretation backend: machine "backend_exec parse" "\<lambda>b. backend_static b = K" for parse K
  by unfold_locales (simp add: backend_exec_static)

lemma run_client:
  assumes "(n, c) \<in> set (be_clients (fold (backend_exec parse) ops b))"
  obtains c0 where "(n, c0) \<in> set (be_clients b)" "client_id c = client_id c0"
proof -
  have "map (apsnd client_id) (be_clients (fold (backend_exec parse) ops b)) = map (apsnd client_id) (be_clients b)"
    using backend.run_inv [of b "backend_static b" parse ops] by (simp add: backend_static_def)
  then have "(n, client_id c) \<in> set (map (apsnd client_id) (be_clients b))"
    using image_eqI [of "(n, client_id c)" "apsnd client_id" "(n, c)"] assms
    by (metis apsnd_conv list.set_map)
  then show ?thesis using that by (auto simp: apsnd_def map_prod_def)
qed

section \<open>Hermetic tests and pinned production clients\<close>

lemma plain_client_requests:
  assumes "cl_provider c = None" "cl_token c = []" "q \<in> set (snd (snd (request env env' mth path timeout c)))"
  shows "rq_url q = join_url (cl_base_url c) path \<and> rq_bearer q = None"
  using assms by (auto simp: request_def send_once_def bearer_def case_prod_unfold split: if_splits)

lemma mock_clients:
  assumes "(n, c) \<in> set (be_clients (from_config_with_minter builder config (Some m) has_minter))"
  shows "client_id c = (m, n, [], None, None)"
  using assms
  by (auto simp: from_config_with_minter_def map_filter_def client_for_server_def client_new_def build_http_client_def pinned_client_config_def
      client_id_def result_ok_def split: option.splits sum.splits if_splits)

lemma join_url_eq: "join_url m path = rev (dropWhile (\<lambda>x. x = CHR ''/'') (rev m)) @ path"
proof -
  have "drop_slashes s = dropWhile (\<lambda>x. x = CHR ''/'') s" for s by (induction s) auto
  then show ?thesis by (simp add: join_url_def)
qed

text \<open>
  C30. Test mode is hermetic: whatever the configuration file says and whatever operations have run, every
  client of a backend built in test mode addresses all its requests, the posts of creates included, to the
  mock (its URL without trailing slashes, and the path), without a bearer token, and without a mock there
  is no client at all.
\<close>

theorem test_mode_is_hermetic:
  assumes "b = fold (backend_exec parse) ops (from_env_parts_with_minter builder True mock contents has_minter)"
    and "(n, c) \<in> set (be_clients b)"
  shows "\<exists>m. mock = Some m
    \<and> (\<forall>env env' mth path timeout. \<forall>q \<in> set (snd (snd (request env env' mth path timeout c))).
         rq_url q = rev (dropWhile (\<lambda>x. x = CHR ''/'') (rev m)) @ path \<and> rq_bearer q = None)
    \<and> (\<forall>env req reply. let q = snd (snd (create_shed parse env req reply c)) in
         cq_url q = rev (dropWhile (\<lambda>x. x = CHR ''/'') (rev m)) @ ''/api/sheds'' \<and> cq_bearer q = None)"
proof -
  obtain c0 where c0: "(n, c0) \<in> set (be_clients (from_env_parts_with_minter builder True mock contents has_minter))"
    "client_id c = client_id c0"
    using run_client assms by metis
  then obtain m where m: "mock = Some m" "client_id c0 = (m, n, [], None, None)"
    using mock_clients by (cases mock) (auto simp: from_env_parts_with_minter_def)
  then have "cl_provider c = None" "cl_token c = []" "cl_base_url c = m"
    using c0(2) by (auto simp: client_id_def)
  then show ?thesis
    using m(1) plain_client_requests
    by (auto simp: create_shed_def bearer_def Let_def join_url_eq case_prod_unfold split: option.splits)
qed

definition demo_config :: string where
  "demo_config = ''servers:'' @ [CHR 0x0A] @ ''  mini:'' @ [CHR 0x0A] @ ''    host: h'' @ [CHR 0x0A]
     @ ''    api_url: https://h'' @ [CHR 0x0A] @ ''    control_token: k'' @ [CHR 0x0A] @ ''    tls_cert_fingerprint: sha256:ab''"

definition demo_entry :: shed_server_entry where
  "demo_entry = \<lparr>se_name = ''mini'', se_host = ''h'', se_http_port = 8080, se_ssh_port = 22, se_control_token = ''k'',
     se_api_url = ''https://h'', se_tls_cert_fingerprint = ''sha256:ab''\<rparr>"

lemma demo_config_load: "config_load (Some demo_config) = \<lparr>sc_servers = [demo_entry], sc_default_server = None\<rparr>"
  by code_simp

theorem test_mode_is_hermetic_witness:
  "\<exists>n c. (n, c) \<in> set (be_clients (backend_exec Map.empty (BoCreateCancel ''x'')
        (from_env_parts_with_minter \<lparr>hs_versions = None, hs_build = (\<lambda>_. None)\<rparr> True (Some ''http://mock/'') (Some demo_config) True)))
     \<and> (\<forall>env env'. \<forall>q \<in> set (snd (snd (request env env' MGet ''/api/info'' 8 c))).
          rq_url q = ''http://mock/api/info'' \<and> rq_bearer q = None)
     \<and> (\<forall>env req reply. cq_url (snd (snd (create_shed Map.empty env req reply c))) = ''http://mock/api/sheds'')"
proof -
  let ?b = "from_env_parts_with_minter \<lparr>hs_versions = None, hs_build = (\<lambda>_. None)\<rparr> True (Some ''http://mock/'') (Some demo_config) True"
  let ?c = "\<lparr>cl_base_url = ''http://mock/'', cl_server_name = ''mini'', cl_token = [], cl_provider = None, cl_pin = None\<rparr>"
  let ?b' = "fold (backend_exec Map.empty) [BoCreateCancel ''x''] ?b"
  have c: "(''mini'', ?c) \<in> set (be_clients ?b')"
    by (simp add: from_env_parts_with_minter_def demo_config_load from_config_with_minter_def map_filter_def
        client_for_server_def client_new_def build_http_client_def pinned_client_config_def demo_entry_def backend_create_cancel_def)
  show ?thesis
    using test_mode_is_hermetic [OF refl c] c unfolding Let_def
    by (intro exI [of _ "''mini''"] exI [of _ ?c]) (simp only: fold_simps, force)
qed

text \<open>
  C31. Production clients are the configured ones: after any operations, a client of a backend built without
  a mock belongs to a configured server and talks to that server's endpoint; when the server has a pinned
  certificate the URL is https and the certificate is checked against that pin, and with a minter the client
  has a token provider for its server, so that the configured token is not used.
\<close>

theorem production_clients_are_pinned:
  assumes "b = fold (backend_exec parse) ops (from_env_parts_with_minter builder test_mode None contents has_minter)"
    and "(n, c) \<in> set (be_clients b)"
  shows "\<not> test_mode \<and> (\<exists>s \<in> set (sc_servers (config_load contents)).
      n = se_name s \<and> cl_base_url c = re_base_url (resolved_endpoint s)
    \<and> (se_tls_cert_fingerprint s \<noteq> [] \<longrightarrow> starts_with ''https://'' (to_lowercase (cl_base_url c))
         \<and> cl_pin c = Some (pin_verifier (se_tls_cert_fingerprint s)))
    \<and> map_option ct_server (cl_provider c) = (if has_minter then Some n else None))"
proof -
  obtain c0 where c0: "(n, c0) \<in> set (be_clients (from_env_parts_with_minter builder test_mode None contents has_minter))"
    "client_id c = client_id c0"
    using run_client assms by metis
  then have t: "\<not> test_mode" by (auto simp: from_env_parts_with_minter_def)
  then obtain s where s: "s \<in> set (sc_servers (config_load contents))" "client_for_server builder None has_minter s = Some (n, c0)"
    using c0(1) by (auto simp: from_env_parts_with_minter_def from_config_with_minter_def map_filter_def)
  let ?pin = "if re_pin (resolved_endpoint s) \<noteq> [] then Some (re_pin (resolved_endpoint s)) else None"
  have new: "client_new builder (re_base_url (resolved_endpoint s)) (se_name s) (se_control_token s) ?pin has_minter = Inr c0"
    and n: "n = se_name s"
    using s(2) by (auto simp: client_for_server_def Let_def result_ok_def split: sum.splits)
  have pin: "re_pin (resolved_endpoint s) = se_tls_cert_fingerprint s" by (simp add: resolved_endpoint_def)
  have "cl_base_url c0 = re_base_url (resolved_endpoint s) \<and> map_option ct_server (cl_provider c0) = (if has_minter then Some n else None)
    \<and> (se_tls_cert_fingerprint s \<noteq> [] \<longrightarrow> starts_with ''https://'' (to_lowercase (cl_base_url c0))
         \<and> cl_pin c0 = Some (pin_verifier (se_tls_cert_fingerprint s)))"
    using new n unfolding pin
    by (auto simp: client_new_def build_http_client_def pinned_client_config_def Let_def provider_new_def opt_filter_def
        split: sum.splits option.splits if_splits)
  then show ?thesis using s(1) n t c0(2) by (auto simp: client_id_def intro!: bexI [of _ s])
qed

theorem production_clients_are_pinned_witness:
  "\<exists>n c. (n, c) \<in> set (be_clients (backend_exec Map.empty (BoCreateCancel ''x'')
        (from_env_parts_with_minter \<lparr>hs_versions = None, hs_build = (\<lambda>_. None)\<rparr> False None (Some demo_config) True)))
     \<and> n = ''mini'' \<and> cl_pin c = Some \<lparr>lv_pin = ''sha256:ab''\<rparr> \<and> map_option ct_server (cl_provider c) = Some ''mini''"
proof -
  let ?b = "from_env_parts_with_minter \<lparr>hs_versions = None, hs_build = (\<lambda>_. None)\<rparr> False None (Some demo_config) True"
  let ?b' = "fold (backend_exec Map.empty) [BoCreateCancel ''x''] ?b"
  have l: "to_lowercase ''https://h'' = ''https://h''" "to_lowercase ''sha256:ab'' = ''sha256:ab''"
    "is_http_url_with_host ''https://h''" by code_simp+
  have "be_clients ?b' \<noteq> []"
    by (simp add: from_env_parts_with_minter_def demo_config_load from_config_with_minter_def map_filter_def starts_with_def
        client_for_server_def client_new_def build_http_client_def pinned_client_config_def demo_entry_def backend_create_cancel_def resolved_endpoint_def l)
  then obtain n c where c: "(n, c) \<in> set (be_clients ?b')" by (metis list.set_intros(1) neq_Nil_conv surj_pair)
  then show ?thesis
    using production_clients_are_pinned [OF refl c]
    by (intro exI [of _ n] exI [of _ c]) (auto simp: demo_config_load demo_entry_def pin_verifier_def l)
qed

end
