(* ===== verification/Termctl.thy ===== *)
theory Termctl
  imports Prefs Instance Backend
begin

text \<open>
  The terminal operations shared by the IPC socket and the webview (\<^verbatim>\<open>tauri/src-tauri/src/termctl.rs\<close>) and the
  screenshot (\<^verbatim>\<open>tauri/src-tauri/src/screenshot.rs\<close>): what they would run and what they make of its outcome.
  Spawning a process, the file system and the environment are arguments.
\<close>

type_synonym ipc_error = "string \<times> string"

definition ipc_err :: "string \<Rightarrow> string \<Rightarrow> ipc_error" where
  "ipc_err code message = (code, message)"

section \<open>Presets and preferences\<close>

fun preset_label :: "terminal_preset \<Rightarrow> string" where
  "preset_label Ghostty = ''Ghostty''"
| "preset_label Roost = ''Roost''"
| "preset_label Custom = ''Custom''"

fun preset_detail :: "terminal_preset \<Rightarrow> string" where
  "preset_detail Ghostty = ''Opens the ssh command in Ghostty.''"
| "preset_detail Roost = ''Opens a new Roost tab in a project named after the shed.''"
| "preset_detail Custom = []"

text \<open>\<open>exists\<close> and \<open>is_file\<close> ask the file system.\<close>

record host_view =
  hv_macos :: bool
  hv_vars :: "string \<Rightarrow> string option"
  hv_exists :: "string \<Rightarrow> bool"
  hv_is_file :: "string \<Rightarrow> bool"

definition app_installed :: "host_view \<Rightarrow> string \<Rightarrow> string \<Rightarrow> bool" where
  "app_installed hv cli app =
     (if hv_macos hv
      then list_ex (hv_exists hv)
             [''/Applications/'' @ app @ ''.app'', unwrap_or (hv_vars hv ''HOME'') [] @ ''/Applications/'' @ app @ ''.app'']
      else case hv_vars hv ''PATH'' of
        Some paths \<Rightarrow> list_ex (\<lambda>dir. hv_is_file hv (path_join dir cli)) (split_on (CHR '':'') paths)
      | None \<Rightarrow> False)"

definition preset_available :: "host_view \<Rightarrow> terminal_preset \<Rightarrow> bool" where
  "preset_available hv p =
     (case p of
        Custom \<Rightarrow> True
      | Ghostty \<Rightarrow> app_installed hv ''ghostty'' ''Ghostty''
      | Roost \<Rightarrow> app_installed hv ''roost'' ''Roost'' \<and> hv_exists hv ''/usr/bin/python3'')"

definition term_presets :: "host_view \<Rightarrow> json" where
  "term_presets hv =
     JObj [(''presets'', JArr (map (\<lambda>p. JObj
        [(''id'', JStr (preset_id p)), (''label'', JStr (preset_label p)), (''detail'', JStr (preset_detail p)),
         (''available'', JBool (preset_available hv p))]) [Ghostty, Roost, Custom]))]"

definition parse_preset :: "string \<Rightarrow> ipc_error + terminal_preset" where
  "parse_preset s = ok_or (ipc_err ''bad_request'' (''unknown preset: '' @ s)) (decode_terminal_preset (JStr s))"

definition term_prefs_get :: "prefs_store \<Rightarrow> json" where
  "term_prefs_get st =
     JObj [(''terminal_preset'', JStr (preset_id (pf_terminal_preset (ps_inner st)))),
           (''terminal_template'', JStr (pf_terminal_template (ps_inner st)))]"

definition term_set_terminal ::
  "(json \<Rightarrow> string) \<Rightarrow> write_result \<Rightarrow> string \<Rightarrow> string option \<Rightarrow> prefs_store \<Rightarrow> (ipc_error + json) \<times> prefs_store" where
  "term_set_terminal ser w preset template st =
     (case parse_preset preset of
        Inl e \<Rightarrow> (Inl e, st)
      | Inr p \<Rightarrow> (Inr (JObj []), prefs_set_terminal ser w p template st))"

section \<open>Launching\<close>

definition resolve_pref :: "string option \<Rightarrow> string option \<Rightarrow> prefs_store \<Rightarrow> ipc_error + terminal_preset \<times> string option" where
  "resolve_pref preset template st =
     (case preset of
        Some s \<Rightarrow> bind_result (parse_preset s) (\<lambda>p. Inr (p, template))
      | None \<Rightarrow> Inr (pf_terminal_preset (ps_inner st), Some (pf_terminal_template (ps_inner st))))"

definition map_err :: "('e \<Rightarrow> 'f) \<Rightarrow> 'e + 'a \<Rightarrow> 'f + 'a" where
  "map_err f r = (case r of Inl e \<Rightarrow> Inl (f e) | Inr x \<Rightarrow> Inr x)"

record term_request =
  tr_host :: "string option"
  tr_shed :: string
  tr_session :: "string option"
  tr_preset :: "string option"
  tr_template :: "string option"

text \<open>The command and the invocation that both \<^verbatim>\<open>preview\<close> and \<^verbatim>\<open>open\<close> compute.\<close>

definition term_resolve ::
  "host_view \<Rightarrow> string option \<Rightarrow> backend \<Rightarrow> prefs_store \<Rightarrow> term_request
    \<Rightarrow> ipc_error + terminal_command \<times> terminal_preset \<times> launch_invocation" where
  "term_resolve hv scripts_dir b st rq =
     bind_result (map_err (\<lambda>e. ipc_err ''action_failed'' (shed_error_text e))
       (terminal_preview (hv_vars hv ''HOME'') (tr_host rq) (tr_shed rq) (tr_session rq) b)) (\<lambda>cmd.
     bind_result (resolve_pref (tr_preset rq) (tr_template rq) st) (\<lambda>(preset, template).
       Inr (cmd, preset, resolve_launch (hv_macos hv) preset cmd (tr_shed rq) template scripts_dir)))"

definition term_preview ::
  "host_view \<Rightarrow> string option \<Rightarrow> backend \<Rightarrow> prefs_store \<Rightarrow> term_request \<Rightarrow> ipc_error + json" where
  "term_preview hv scripts_dir b st rq =
     bind_result (term_resolve hv scripts_dir b st rq) (\<lambda>(cmd, preset, li).
       Inr (JObj [(''argv'', JArr (map JStr (tc_argv cmd))), (''command'', JStr (tc_command cmd)),
                  (''preset'', JStr (preset_id preset)),
                  (''invocation'', JObj [(''executable'', JStr (li_executable li)),
                                         (''arguments'', JArr (map JStr (li_arguments li)))])]))"

text \<open>\<open>spawn\<close> is the error of starting a process, if it fails; the result has the process started.\<close>

definition term_open ::
  "host_view \<Rightarrow> (launch_invocation \<Rightarrow> string option) \<Rightarrow> string option \<Rightarrow> backend \<Rightarrow> prefs_store \<Rightarrow> term_request
    \<Rightarrow> (ipc_error + json) \<times> launch_invocation option" where
  "term_open hv spawn scripts_dir b st rq =
     (case term_resolve hv scripts_dir b st rq of
        Inl e \<Rightarrow> (Inl e, None)
      | Inr (cmd, preset, li) \<Rightarrow>
          (case spawn li of
             Some e \<Rightarrow> (Inl (ipc_err ''action_failed'' (''spawn '' @ li_executable li @ '': '' @ e)), None)
           | None \<Rightarrow> (Inr (JObj [(''command'', JStr (tc_command cmd))]), Some li)))"

section \<open>Screenshots\<close>

definition be32 :: "string \<Rightarrow> nat" where
  "be32 bs = foldl (\<lambda>n c. n * 256 + of_char c) 0 bs"

definition png_sig :: string where
  "png_sig = [CHR 0x89, CHR 0x50, CHR 0x4E, CHR 0x47, CHR 0x0D, CHR 0x0A, CHR 0x1A, CHR 0x0A]"

definition png_dimensions :: "string \<Rightarrow> (nat \<times> nat) option" where
  "png_dimensions bytes =
     (if length bytes < 24 \<or> take 8 bytes \<noteq> png_sig \<or> take 4 (drop 12 bytes) \<noteq> ''IHDR'' then None
      else Some (be32 (take 4 (drop 16 bytes)), be32 (take 4 (drop 20 bytes))))"

text \<open>How a tool ends: not started, exited (with a code or by a signal), the wait failed, or killed after 10 s.\<close>

datatype tool_end = ToolNotRun string | ToolExited "int option" | ToolWaitFailed string | ToolTimedOut

definition run_tool :: "tool_end \<Rightarrow> string option" where
  "run_tool e =
     (case e of
        ToolNotRun msg \<Rightarrow> Some (''not runnable ('' @ msg @ '')'')
      | ToolExited code \<Rightarrow>
          if code = Some 0 then None
          else Some (''exited '' @ (case code of Some c \<Rightarrow> int_to_string c | None \<Rightarrow> ''signal'')
                     @ '' (Screen-Recording permission? no display?)'')
      | ToolWaitFailed msg \<Rightarrow> Some (''wait failed ('' @ msg @ '')'')
      | ToolTimedOut \<Rightarrow> Some ''timed out after 10s'')"

definition read_valid_png :: "string + string \<Rightarrow> string + string \<times> nat \<times> nat" where
  "read_valid_png file =
     (case file of
        Inl e \<Rightarrow> Inl (''read output ('' @ e @ '')'')
      | Inr bytes \<Rightarrow>
          if bytes = [] then Inl ''produced an empty file''
          else (case png_dimensions bytes of Some (w, h) \<Rightarrow> Inr (bytes, w, h) | None \<Rightarrow> Inl ''output was not a valid PNG''))"

definition shot_candidates :: "bool \<Rightarrow> (string \<times> string list) list" where
  "shot_candidates macos =
     (if macos then [(''screencapture'', [''-x'', ''-t'', ''png''])]
      else [(''grim'', []), (''scrot'', []), (''import'', [''-window'', ''root''])])"

text \<open>\<open>tool\<close> is what a tool with its arguments does: how it ends and what its output file then holds.\<close>

fun try_candidates ::
  "bool \<Rightarrow> (string \<Rightarrow> string list \<Rightarrow> tool_end \<times> (string + string)) \<Rightarrow> (string \<times> string list) list \<Rightarrow> string list
    \<Rightarrow> string + string \<times> nat \<times> nat" where
  "try_candidates wayland tool [] problems = Inl (''no screenshot captured ('' @ join ''; '' problems @ '')'')"
| "try_candidates wayland tool ((name, args) # rest) problems =
     (if name = ''grim'' \<and> \<not> wayland then try_candidates wayland tool rest problems
      else case tool name args of
        (ended, file) \<Rightarrow>
          (case (case run_tool ended of Some e \<Rightarrow> Inl e | None \<Rightarrow> read_valid_png file) of
             Inr shot \<Rightarrow> Inr shot
           | Inl e \<Rightarrow> try_candidates wayland tool rest (problems @ [name @ '': '' @ e])))"

definition capture ::
  "bool \<Rightarrow> bool \<Rightarrow> (string \<Rightarrow> string list \<Rightarrow> tool_end \<times> (string + string)) \<Rightarrow> string + string \<times> nat \<times> nat" where
  "capture macos wayland tool = try_candidates wayland tool (shot_candidates macos) []"

text \<open>The tools that a capture starts, in order: up to the first one that yields a PNG.\<close>

fun tools_run ::
  "bool \<Rightarrow> (string \<Rightarrow> string list \<Rightarrow> tool_end \<times> (string + string)) \<Rightarrow> (string \<times> string list) list
    \<Rightarrow> (string \<times> string list) list" where
  "tools_run wayland tool [] = []"
| "tools_run wayland tool ((name, args) # rest) =
     (if name = ''grim'' \<and> \<not> wayland then tools_run wayland tool rest
      else (name, args) # (case tool name args of
        (ended, file) \<Rightarrow>
          (case (case run_tool ended of Some e \<Rightarrow> Inl e | None \<Rightarrow> read_valid_png file) of
             Inr shot \<Rightarrow> []
           | Inl e \<Rightarrow> tools_run wayland tool rest)))"

section \<open>Lemmas\<close>

lemma tools_run_candidates: "set (tools_run wayland tool cs) \<subseteq> set cs"
  by (induction cs) (auto split: prod.splits sum.splits if_splits)

lemma map_err_simps [simp]: "map_err f (Inl e) = Inl (f e)" "map_err f (Inr x) = Inr x"
  by (simp_all add: map_err_def)

lemma read_valid_png_Inr: "read_valid_png file = Inr (png, w, h) \<Longrightarrow> file = Inr png \<and> png \<noteq> [] \<and> png_dimensions png = Some (w, h)"
  by (auto simp: read_valid_png_def split: sum.splits if_splits option.splits)

lemma be32_bound:
  assumes "length bs = 4" shows "be32 bs < 4294967296"
proof -
  from assms have "\<exists>x y z u. bs = [x, y, z, u]" by (auto simp: length_Suc_conv numeral_eq_Suc)
  then obtain x y z u where "bs = [x, y, z, u]" by blast
  moreover have "(of_char x :: nat) \<le> 255" "(of_char y :: nat) \<le> 255" "(of_char z :: nat) \<le> 255" "(of_char u :: nat) \<le> 255"
    using nat_of_char_less_256 [of x] nat_of_char_less_256 [of y] nat_of_char_less_256 [of z] nat_of_char_less_256 [of u]
    by linarith+
  ultimately show ?thesis by (simp add: be32_def)
qed

text \<open>A capture returns what a tool that succeeded wrote, a PNG with the dimensions of its header as 32-bit numbers.\<close>

lemma candidates_return_png:
  "try_candidates wayland tool cs ps = Inr (png, w, h) \<Longrightarrow>
   \<exists>c \<in> set cs. snd (tool (fst c) (snd c)) = Inr png \<and> run_tool (fst (tool (fst c) (snd c))) = None
     \<and> png_dimensions png = Some (w, h)"
proof (induction wayland tool cs ps rule: try_candidates.induct)
  case (2 wayland tool name args rest problems)
  show ?case
  proof (cases "name = ''grim'' \<and> \<not> wayland")
    case True
    with 2 show ?thesis by auto
  next
    case False
    obtain ended content where t: "tool name args = (ended, content)" by fastforce
    show ?thesis
    proof (cases "case run_tool ended of Some e \<Rightarrow> Inl e | None \<Rightarrow> read_valid_png content")
      case (Inl e)
      with 2(2) [OF False t [symmetric]] 2(3) False t show ?thesis by auto
    next
      case (Inr shot)
      with 2(3) False t have "run_tool ended = None" "read_valid_png content = Inr (png, w, h)"
        by (auto split: option.splits)
      then show ?thesis using t read_valid_png_Inr by fastforce
    qed
  qed
qed simp

lemma capture_dimensions:
  assumes "capture macos wayland tool = Inr (png, w, h)"
  shows "24 \<le> length png \<and> w < 2 ^ 32 \<and> h < 2 ^ 32"
proof -
  from candidates_return_png [OF assms [unfolded capture_def]] have "png_dimensions png = Some (w, h)" by blast
  then have "24 \<le> length png" "w = be32 (take 4 (drop 16 png))" "h = be32 (take 4 (drop 20 png))"
    by (auto simp: png_dimensions_def split: if_splits)
  then show ?thesis using be32_bound by simp
qed

text \<open>A preview and an open agree: what is started is what the preview shows, and a failed resolution starts nothing.\<close>

lemma open_starts_what_preview_shows:
  assumes "term_open hv spawn scripts_dir b st rq = (r, Some li)"
  shows "\<exists>shown. term_preview hv scripts_dir b st rq = Inr shown
     \<and> json_get shown ''invocation'' = Some (JObj [(''executable'', JStr (li_executable li)),
                                               (''arguments'', JArr (map JStr (li_arguments li)))])"
  using assms
  by (auto simp: term_open_def term_preview_def json_get_def split: sum.splits option.splits prod.splits)

end
