(* ===== verification/Ui_State.thy ===== *)
theory Ui_State
  imports Json
begin

text \<open>
  What the webviews report to the app (\<^verbatim>\<open>tauri/src-tauri/src/state.rs\<close>, \<^verbatim>\<open>ui_report\<close> in \<^verbatim>\<open>lib.rs\<close>) and the count of
  running sheds mirrored on the menu bar (\<^verbatim>\<open>update_running_count\<close> in \<^verbatim>\<open>tray.rs\<close>). A JSON value that the code
  holds as a \<^verbatim>\<open>serde_json::Value\<close> has an object as a map: its entries here have distinct keys.
\<close>

section \<open>Snapshots\<close>

definition as_u64 :: "json \<Rightarrow> nat option" where
  "as_u64 v = (case v of JInt i \<Rightarrow> if 0 \<le> i \<and> i < 2 ^ 64 then Some (nat i) else None | _ \<Rightarrow> None)"

type_synonym ui_state = "(string, json) hmap"

text \<open>\<^verbatim>\<open>Map::extend\<close>: every entry of the incoming object replaces or adds its key.\<close>

definition json_extend :: "(string \<times> json) list \<Rightarrow> (string \<times> json) list \<Rightarrow> (string \<times> json) list" where
  "json_extend existing incoming = fold (\<lambda>(k, v). AList.update k v) incoming existing"

definition ui_merge :: "string \<Rightarrow> json \<Rightarrow> ui_state \<Rightarrow> ui_state" where
  "ui_merge label incoming ui =
     (let slot = unwrap_or (hm_get ui label) (JObj [])
      in hm_insert label
           (case (slot, incoming) of
              (JObj existing, JObj new) \<Rightarrow> JObj (json_extend existing new)
            | _ \<Rightarrow> incoming) ui)"

definition ui_get :: "ui_state \<Rightarrow> string \<Rightarrow> string \<Rightarrow> json option" where
  "ui_get ui label key = Option.bind (hm_get ui label) (\<lambda>s. json_get s key)"

definition ui_has :: "ui_state \<Rightarrow> string \<Rightarrow> bool" where
  "ui_has ui label = (hm_get ui label \<noteq> None)"

definition ui_refresh_token :: "ui_state \<Rightarrow> string \<Rightarrow> nat" where
  "ui_refresh_token ui label = unwrap_or (Option.bind (ui_get ui label ''refresh_token'') as_u64) 0"

section \<open>Reports\<close>

text \<open>The menu-bar item: the count last mirrored and the title set on the status item.\<close>

record tray_count =
  tk_last :: int
  tk_title :: "string option"

definition update_running_count :: "bool \<Rightarrow> nat \<Rightarrow> tray_count \<Rightarrow> tray_count" where
  "update_running_count has_tray running k =
     (if tk_last k = int running then k
      else (let k = k\<lparr>tk_last := int running\<rparr> in
            if has_tray then k\<lparr>tk_title := Some (if running > 0 then '' '' @ nat_to_string running else [])\<rparr> else k))"

definition running_sheds :: "json \<Rightarrow> nat" where
  "running_sheds snapshot =
     (case json_get snapshot ''sheds'' of
        Some (JArr sheds) \<Rightarrow>
          length (filter (\<lambda>s. Option.bind (json_get s ''status'') as_str = Some ''running'') sheds)
      | _ \<Rightarrow> 0)"

definition ui_report :: "bool \<Rightarrow> bool \<Rightarrow> string \<Rightarrow> json \<Rightarrow> tray_count \<times> ui_state \<Rightarrow> tray_count \<times> ui_state" where
  "ui_report macos has_tray label snapshot = (\<lambda>(k, ui).
     (if macos \<and> label = ''main'' then update_running_count has_tray (running_sheds snapshot) k else k,
      ui_merge label snapshot ui))"

section \<open>What a read returns\<close>

text \<open>
  The specification of a read, from the reports of all windows, newest first: the value in the newest report
  of the window that has the key, unless a report that is not an object came after it.
\<close>

fun last_reported :: "(string \<times> json) list \<Rightarrow> string \<Rightarrow> string \<Rightarrow> json option" where
  "last_reported [] label key = None"
| "last_reported ((l, v) # older) label key =
     (if l \<noteq> label then last_reported older label key
      else case v of
        JObj kvs \<Rightarrow> opt_or (obj_get kvs key) (last_reported older label key)
      | _ \<Rightarrow> None)"

lemma map_of_json_extend: "map_of (json_extend old new) k = opt_or (map_of (rev new) k) (map_of old k)"
proof -
  have "map_of (fold (\<lambda>(k, v). AList.update k v) new old) = map_of old ++ map_of (rev new)"
    by (induction new arbitrary: old) (auto simp: update_conv' map_add_def fun_eq_iff split: option.splits)
  then show ?thesis
    by (auto simp: json_extend_def map_add_def opt_or_def split: option.splits)
qed

text \<open>A \<^verbatim>\<open>serde_json::Value\<close> at the top: the keys of an object are distinct.\<close>

definition value_keys_ok :: "json \<Rightarrow> bool" where
  "value_keys_ok v = (case v of JObj kvs \<Rightarrow> distinct (map fst kvs) | _ \<Rightarrow> True)"

lemma map_of_rev_distinct: "distinct (map fst kvs) \<Longrightarrow> map_of (rev kvs) = map_of kvs"
  by (rule map_of_eqI) (auto simp: rev_map [symmetric] intro: map_of_inject_set)

lemma ui_get_merge:
  assumes "value_keys_ok v"
  shows "ui_get (ui_merge l v ui) label key =
   (if l \<noteq> label then ui_get ui label key
    else case v of JObj kvs \<Rightarrow> opt_or (obj_get kvs key) (ui_get ui label key) | _ \<Rightarrow> None)"
  using assms
  by (auto simp: ui_get_def ui_merge_def json_get_def obj_get_map_of map_of_json_extend Let_def unwrap_or_def
      value_keys_ok_def map_of_rev_distinct opt_or_def split: option.splits json.splits)

text \<open>
  The truth operations of the IPC socket read what was rendered: over every sequence of reports of every
  window, a read of a window's key returns the value in that window's newest report with the key, however
  many partial reports of the same window and reports of other windows came in between.
\<close>

lemma reads_return_the_last_report:
  "list_all (value_keys_ok \<circ> snd) rs \<Longrightarrow>
   ui_get (snd (fold (\<lambda>(l, v). ui_report macos has_tray l v) rs (k, []))) label key = last_reported (rev rs) label key"
proof (induction rs rule: rev_induct)
  case Nil
  then show ?case by (simp add: ui_get_def)
next
  case (snoc r rs)
  then show ?case
    by (cases r; cases "fold (\<lambda>(l, v). ui_report macos has_tray l v) rs (k, [])")
       (simp add: ui_report_def ui_get_merge split: json.splits)
qed

section \<open>The menu-bar count\<close>

text \<open>While there is a tray, the title is the running count of the dashboard's last report.\<close>

definition tray_shows :: "nat \<Rightarrow> tray_count \<Rightarrow> bool" where
  "tray_shows n k \<longleftrightarrow> tk_last k = int n \<and> tk_title k = Some (if n > 0 then '' '' @ nat_to_string n else [])"

lemma report_updates_title:
  assumes "tk_last k = -1 \<or> (\<exists>n. tray_shows n k)"
  shows "tray_shows (running_sheds v) (fst (ui_report True True ''main'' v (k, ui)))"
  using assms by (auto simp: ui_report_def update_running_count_def tray_shows_def Let_def)

end
