(* ===== verification/Rc_Core.thy ===== *)
theory Rc_Core
  imports Terminal Json
begin

text \<open>
  Remote-control sessions, the pure part (\<^verbatim>\<open>core/shed-core/src/rc.rs\<close>): session kinds and states, the
  wire DTOs, the pane classifier, the normalisation of a kickoff prompt, the \<^verbatim>\<open>shed-ext-rc\<close> command
  lines and the non-interactive ssh command. The regex engine is a parameter that gets the pattern
  texts of the source; serde\_json's text parser is the parameter \<^verbatim>\<open>parse\<close>.
\<close>

section \<open>Kinds, states, errors\<close>

datatype rc_kind = ClaudeRc | ClaudeBroker | RcShell

definition accepts_typed_input :: "rc_kind \<Rightarrow> bool" where
  "accepts_typed_input k \<longleftrightarrow> k \<noteq> ClaudeBroker"

fun rc_kind_str :: "rc_kind \<Rightarrow> string" where
  "rc_kind_str ClaudeRc = ''claude-rc''"
| "rc_kind_str ClaudeBroker = ''claude-broker''"
| "rc_kind_str RcShell = ''shell''"

definition decode_rc_kind :: "json \<Rightarrow> rc_kind option" where
  "decode_rc_kind = as_unit_variant (\<lambda>s. if s = ''claude-rc'' then Some ClaudeRc
     else if s = ''claude-broker'' then Some ClaudeBroker else if s = ''shell'' then Some RcShell else None)"

datatype rc_state = RcStarting | RcReady | RcReconnecting | RcNeedsTrust | RcNeedsAuth | RcDead

fun rc_state_wire :: "rc_state \<Rightarrow> string" where
  "rc_state_wire RcStarting = ''starting''"
| "rc_state_wire RcReady = ''ready''"
| "rc_state_wire RcReconnecting = ''reconnecting''"
| "rc_state_wire RcNeedsTrust = ''needs-trust''"
| "rc_state_wire RcNeedsAuth = ''needs-auth''"
| "rc_state_wire RcDead = ''dead''"

definition rc_states :: "rc_state list" where
  "rc_states = [RcStarting, RcReady, RcReconnecting, RcNeedsTrust, RcNeedsAuth, RcDead]"

definition decode_rc_state :: "json \<Rightarrow> rc_state option" where
  "decode_rc_state = as_unit_variant (\<lambda>s. List.find (\<lambda>st. rc_state_wire st = s) rc_states)"

record rc_classification =
  rcl_state :: rc_state
  rcl_url :: "string option"

datatype rc_error = SlugTaken string | RcNotFound string | BadRequest string | MissingBinary | RcFailed string

section \<open>Sessions\<close>

record rc_session_dto =
  dto_slug :: string
  dto_tmux_session :: string
  dto_kind :: rc_kind
  dto_state :: rc_state
  dto_managed :: bool
  dto_display_name :: "string option"
  dto_workdir :: "string option"
  dto_url :: "string option"
  dto_id :: "string option"
  dto_created_by :: "string option"
  dto_created_at :: "string option"
  dto_target_label :: "string option"

definition decode_rc_session_dto :: "json \<Rightarrow> rc_session_dto option" where
  "decode_rc_session_dto v =
     do { fs \<leftarrow> struct_fields [(''slug'', False), (''tmux_session'', False), (''kind'', False), (''state'', False),
            (''managed'', False), (''display_name'', False), (''workdir'', False), (''url'', False), (''id'', False),
            (''created_by'', False), (''created_at'', False), (''target_label'', False)] v;
          sl \<leftarrow> rd_req as_str fs ''slug'';
          tm \<leftarrow> rd_req as_str fs ''tmux_session'';
          k \<leftarrow> rd_req decode_rc_kind fs ''kind'';
          st \<leftarrow> rd_req decode_rc_state fs ''state'';
          m \<leftarrow> rd_req as_bool fs ''managed'';
          d \<leftarrow> rd_opt as_str fs ''display_name'';
          w \<leftarrow> rd_opt as_str fs ''workdir'';
          u \<leftarrow> rd_opt as_str fs ''url'';
          i \<leftarrow> rd_opt as_str fs ''id'';
          cb \<leftarrow> rd_opt as_str fs ''created_by'';
          ca \<leftarrow> rd_opt as_str fs ''created_at'';
          tl \<leftarrow> rd_opt as_str fs ''target_label'';
          Some \<lparr>dto_slug = sl, dto_tmux_session = tm, dto_kind = k, dto_state = st, dto_managed = m, dto_display_name = d,
            dto_workdir = w, dto_url = u, dto_id = i, dto_created_by = cb, dto_created_at = ca, dto_target_label = tl\<rparr> }"

definition decode_rc_session_list :: "json \<Rightarrow> rc_session_dto list option" where
  "decode_rc_session_list v =
     do { fs \<leftarrow> struct_fields [(''rc_sessions'', False)] v; rd_req (as_list decode_rc_session_dto) fs ''rc_sessions'' }"

record rc_session =
  rs_host :: string
  rs_shed :: string
  rs_slug :: string
  rs_tmux_session :: string
  rs_display_name :: string
  rs_workdir :: string
  rs_kind :: rc_kind
  rs_state :: rc_state
  rs_url :: "string option"
  rs_rc_id :: "string option"
  rs_created_by :: "string option"
  rs_created_at :: "string option"
  rs_target_label :: "string option"
  rs_managed :: bool

definition default_workdir :: string where "default_workdir = ''/workspace''"
definition tool_name :: string where "tool_name = ''shed-desktop''"
definition tmux_prefix :: string where "tmux_prefix = ''rc-''"

definition composite_id :: "string \<Rightarrow> string \<Rightarrow> string \<Rightarrow> string" where
  "composite_id host shed slug = host @ ''/'' @ shed @ ''/'' @ slug"

definition rc_id_of :: "rc_session \<Rightarrow> string" where
  "rc_id_of s = composite_id (rs_host s) (rs_shed s) (rs_slug s)"

definition from_dto :: "rc_session_dto \<Rightarrow> string \<Rightarrow> string \<Rightarrow> rc_session" where
  "from_dto dto server_name shed =
     \<lparr>rs_host = server_name, rs_shed = shed, rs_slug = dto_slug dto, rs_tmux_session = dto_tmux_session dto,
      rs_display_name = unwrap_or (dto_display_name dto) (shed @ ''/'' @ dto_slug dto),
      rs_workdir = unwrap_or (dto_workdir dto) default_workdir, rs_kind = dto_kind dto, rs_state = dto_state dto,
      rs_url = dto_url dto, rs_rc_id = dto_id dto, rs_created_by = dto_created_by dto, rs_created_at = dto_created_at dto,
      rs_target_label = dto_target_label dto, rs_managed = dto_managed dto\<rparr>"

definition encode_rc_session :: "rc_session \<Rightarrow> json" where
  "encode_rc_session s = JObj
     ([(''host'', JStr (rs_host s)), (''shed'', JStr (rs_shed s)), (''slug'', JStr (rs_slug s)),
       (''tmux_session'', JStr (rs_tmux_session s)), (''display_name'', JStr (rs_display_name s)),
       (''workdir'', JStr (rs_workdir s)), (''kind'', JStr (rc_kind_str (rs_kind s))),
       (''state'', JStr (rc_state_wire (rs_state s)))]
      @ opt_field ''url'' JStr (rs_url s) @ opt_field ''rc_id'' JStr (rs_rc_id s)
      @ opt_field ''created_by'' JStr (rs_created_by s) @ opt_field ''created_at'' JStr (rs_created_at s)
      @ opt_field ''target_label'' JStr (rs_target_label s) @ [(''managed'', JBool (rs_managed s))])"

definition rc_session_fields :: "field_spec list" where
  "rc_session_fields = [(''host'', False), (''shed'', False), (''slug'', False), (''tmux_session'', False),
     (''display_name'', False), (''workdir'', False), (''kind'', False), (''state'', False), (''url'', True),
     (''rc_id'', True), (''created_by'', True), (''created_at'', True), (''target_label'', True), (''managed'', True)]"

definition decode_rc_session :: "json \<Rightarrow> rc_session option" where
  "decode_rc_session v =
     do { fs \<leftarrow> struct_fields rc_session_fields v;
          h \<leftarrow> rd_req as_str fs ''host'';
          sh \<leftarrow> rd_req as_str fs ''shed'';
          sl \<leftarrow> rd_req as_str fs ''slug'';
          tm \<leftarrow> rd_req as_str fs ''tmux_session'';
          d \<leftarrow> rd_req as_str fs ''display_name'';
          w \<leftarrow> rd_req as_str fs ''workdir'';
          k \<leftarrow> rd_req decode_rc_kind fs ''kind'';
          st \<leftarrow> rd_req decode_rc_state fs ''state'';
          u \<leftarrow> rd_opt as_str fs ''url'';
          i \<leftarrow> rd_opt as_str fs ''rc_id'';
          cb \<leftarrow> rd_opt as_str fs ''created_by'';
          ca \<leftarrow> rd_opt as_str fs ''created_at'';
          tl \<leftarrow> rd_opt as_str fs ''target_label'';
          m \<leftarrow> rd_default False as_bool fs ''managed'';
          Some \<lparr>rs_host = h, rs_shed = sh, rs_slug = sl, rs_tmux_session = tm, rs_display_name = d, rs_workdir = w,
            rs_kind = k, rs_state = st, rs_url = u, rs_rc_id = i, rs_created_by = cb, rs_created_at = ca,
            rs_target_label = tl, rs_managed = m\<rparr> }"

definition tmux_name :: "string \<Rightarrow> string" where
  "tmux_name slug = tmux_prefix @ slug"

definition synthetic_url :: "rc_kind \<Rightarrow> string \<Rightarrow> string option" where
  "synthetic_url k slug =
     (case k of
        ClaudeBroker \<Rightarrow> Some (''https://claude.ai/code?environment=env_'' @ slug)
      | ClaudeRc \<Rightarrow> Some (''https://claude.ai/code/session_'' @ slug)
      | RcShell \<Rightarrow> None)"

section \<open>Prompts and command lines\<close>

definition is_safe_rc_value :: "string \<Rightarrow> bool" where
  "is_safe_rc_value s \<longleftrightarrow> \<not> has_control s"

definition normalize_rc_prompt :: "string option \<Rightarrow> rc_kind \<Rightarrow> rc_error + string option" where
  "normalize_rc_prompt raw kind =
     (case raw of
        None \<Rightarrow> Inr None
      | Some s \<Rightarrow>
          (let trimmed = trim s in
           if trimmed = [] then Inr None
           else if \<not> accepts_typed_input kind
           then Inl (BadRequest (''kind '' @ rc_kind_str kind @ '' does not accept an initial prompt''))
           else if \<not> is_safe_rc_value trimmed then Inl (BadRequest ''initial prompt must not contain control characters'')
           else if length trimmed > 2000 then Inl (BadRequest ''initial prompt exceeds 2000 bytes'')
           else Inr (Some trimmed)))"

definition create_argv ::
  "string \<Rightarrow> rc_kind \<Rightarrow> string \<Rightarrow> string \<Rightarrow> string option \<Rightarrow> string \<Rightarrow> string \<Rightarrow> bool \<Rightarrow> string list" where
  "create_argv bin kind name slug workdir created_by target has_prompt =
     [bin, ''create'', ''--kind'', rc_kind_str kind, ''--name'', name, ''--slug'', slug, ''--created-by'', created_by,
      ''--target'', target, ''--wait'']
     @ (case opt_filter (\<lambda>s. s \<noteq> []) workdir of Some w \<Rightarrow> [''--workdir'', w] | None \<Rightarrow> [])
     @ (if has_prompt then [''--prompt-stdin''] else [])"

definition create_invocation ::
  "string \<Rightarrow> rc_kind \<Rightarrow> string \<Rightarrow> string \<Rightarrow> string option \<Rightarrow> string \<Rightarrow> string \<Rightarrow> string option \<Rightarrow> string list \<times> string option" where
  "create_invocation bin kind name slug workdir created_by target prompt =
     (let effective = (if accepts_typed_input kind then prompt else None)
      in (create_argv bin kind name slug workdir created_by target (effective \<noteq> None), effective))"

definition list_argv :: "string \<Rightarrow> string list" where
  "list_argv bin = [bin, ''list'']"

definition kill_argv :: "string \<Rightarrow> string \<Rightarrow> string list" where
  "kill_argv bin slug = [bin, ''kill'', ''--slug'', slug]"

definition error_from_exit :: "int \<Rightarrow> string \<Rightarrow> string \<Rightarrow> rc_error" where
  "error_from_exit exit_code stderr stdout =
     (let detail = trim (if stderr = [] then stdout else stderr) in
      if exit_code = 3 then SlugTaken detail
      else if exit_code = 4 then RcNotFound detail
      else if exit_code = 2 then BadRequest detail
      else if exit_code = 127 then MissingBinary
      else if contains ''command not found'' (to_lowercase stderr) then MissingBinary
      else if detail = [] then RcFailed (''shed-ext-rc exited '' @ int_to_string exit_code)
      else RcFailed detail)"

definition decode_session :: "(string \<Rightarrow> json option) \<Rightarrow> string \<Rightarrow> rc_error + rc_session_dto" where
  "decode_session parse stdout =
     (case Option.bind (parse stdout) decode_rc_session_dto of
        Some d \<Rightarrow> Inr d | None \<Rightarrow> Inl (RcFailed ''shed-ext-rc returned an invalid session DTO''))"

definition decode_list :: "(string \<Rightarrow> json option) \<Rightarrow> string \<Rightarrow> rc_error + rc_session_dto list" where
  "decode_list parse stdout =
     (case Option.bind (parse stdout) decode_rc_session_list of
        Some ds \<Rightarrow> Inr ds | None \<Rightarrow> Inl (RcFailed ''shed-ext-rc returned an invalid session list''))"

definition ssh_argv :: "string \<Rightarrow> string \<Rightarrow> nat \<Rightarrow> string \<Rightarrow> string list \<Rightarrow> nat \<Rightarrow> string list" where
  "ssh_argv user host port known_hosts remote_argv connect_timeout =
     [''ssh'', ''-o'', ''BatchMode=yes''] @ ssh_host_key_opts known_hosts
     @ [''-o'', ''ConnectTimeout='' @ nat_to_string connect_timeout, ''-p'', nat_to_string port, user @ ''@'' @ host, ''--'',
        join '' '' (map shell_quote remote_argv)]"

section \<open>The pane classifier\<close>

record regex_engine =
  re_is_match :: "string \<Rightarrow> string \<Rightarrow> bool"
  re_find :: "string \<Rightarrow> string \<Rightarrow> string option"

definition re_trust_folder :: string where
  "re_trust_folder = ''(?i)Yes,'' @ [CHR 0x5C] @ ''s*I trust this folder''"

definition re_reconnecting :: string where
  "re_reconnecting = [CHR 0x5C] @ ''bReconnecting'' @ [CHR 0x5C] @ ''b''"

definition re_url_broker :: string where
  "re_url_broker = ''https?://claude'' @ [CHR 0x5C] @ ''.ai/code'' @ [CHR 0x5C] @ ''?environment=env_[A-Za-z0-9_-]+''"

definition re_url_session :: string where
  "re_url_session = ''https?://claude'' @ [CHR 0x5C] @ ''.ai/code/session_[A-Za-z0-9_-]+''"

definition extract_url :: "regex_engine \<Rightarrow> rc_kind \<Rightarrow> string \<Rightarrow> string option" where
  "extract_url re kind pane =
     (case kind of
        ClaudeBroker \<Rightarrow> re_find re re_url_broker pane
      | ClaudeRc \<Rightarrow> re_find re re_url_session pane
      | RcShell \<Rightarrow> None)"

definition classify_by_url :: "string option \<Rightarrow> rc_classification" where
  "classify_by_url url =
     (case url of
        Some u \<Rightarrow> \<lparr>rcl_state = RcReady, rcl_url = Some u\<rparr>
      | None \<Rightarrow> \<lparr>rcl_state = RcStarting, rcl_url = None\<rparr>)"

definition needs_trust_pane :: "regex_engine \<Rightarrow> string \<Rightarrow> bool" where
  "needs_trust_pane re pane \<longleftrightarrow>
     contains ''workspace not trusted'' (to_lowercase pane) \<or> contains ''quick safety check'' (to_lowercase pane)
     \<or> re_is_match re re_trust_folder pane"

definition needs_auth_pane :: "string \<Rightarrow> bool" where
  "needs_auth_pane pane \<longleftrightarrow>
     contains ''requires a claude.ai subscription'' (to_lowercase pane) \<or> contains ''not logged in'' (to_lowercase pane)
     \<or> contains ''claude auth login'' (to_lowercase pane)"

definition classify_pane :: "regex_engine \<Rightarrow> rc_kind \<Rightarrow> string \<Rightarrow> rc_classification" where
  "classify_pane re kind pane =
     (if kind \<noteq> RcShell \<and> needs_trust_pane re pane
      then \<lparr>rcl_state = RcNeedsTrust, rcl_url = extract_url re kind pane\<rparr>
      else if kind \<noteq> RcShell \<and> needs_auth_pane pane
      then \<lparr>rcl_state = RcNeedsAuth, rcl_url = extract_url re kind pane\<rparr>
      else case kind of
        ClaudeBroker \<Rightarrow>
          (let url = extract_url re ClaudeBroker pane in
           if re_is_match re re_reconnecting pane then \<lparr>rcl_state = RcReconnecting, rcl_url = url\<rparr>
           else classify_by_url url)
      | ClaudeRc \<Rightarrow> classify_by_url (extract_url re ClaudeRc pane)
      | RcShell \<Rightarrow> \<lparr>rcl_state = (if trim pane = [] then RcStarting else RcReady), rcl_url = None\<rparr>)"

section \<open>Lemmas\<close>

lemma decode_rc_kind_str: "decode_rc_kind (JStr (rc_kind_str k)) = Some k"
  by (cases k) (simp_all add: decode_rc_kind_def)

lemma decode_rc_state_wire: "decode_rc_state (JStr (rc_state_wire st)) = Some st"
  by (cases st) (simp_all add: decode_rc_state_def rc_states_def)

lemma decode_encode_rc_session: "decode_rc_session (encode_rc_session s) = Some s"
  by (cases s) (simp add: decode_rc_session_def encode_rc_session_def rc_session_fields_def rd_vals
      decode_rc_kind_str decode_rc_state_wire)

lemma normalize_prompt_ok:
  assumes "normalize_rc_prompt raw kind = Inr (Some p)"
  shows "p \<noteq> [] \<and> trim p = p \<and> is_safe_rc_value p \<and> length p \<le> 2000 \<and> accepts_typed_input kind"
  using assms by (auto simp: normalize_rc_prompt_def Let_def split: option.splits if_splits)

lemma composite_id_inj:
  assumes "CHR ''/'' \<notin> set h" "CHR ''/'' \<notin> set h'" "CHR ''/'' \<notin> set s" "CHR ''/'' \<notin> set s'"
  shows "composite_id h s k = composite_id h' s' k' \<longleftrightarrow> h = h' \<and> s = s' \<and> k = k'"
proof -
  have split: "(a @ ''/'' @ x = b @ ''/'' @ y) \<longleftrightarrow> a = b \<and> x = y"
    if "CHR ''/'' \<notin> set a" "CHR ''/'' \<notin> set b" for a b x y :: string
    using that by (auto simp: append_eq_append_conv2 Cons_eq_append_conv append_eq_Cons_conv)
  show ?thesis unfolding composite_id_def using split assms by metis
qed

text \<open>The remote shell reads the last argument back as the remote argument vector; ssh is not asked for a terminal.\<close>

lemma rc_remote_command_reads_back:
  "sh_words (last (ssh_argv user host port known_hosts remote timeout)) = Some remote"
  "''-t'' \<notin> set (butlast (ssh_argv user host port known_hosts remote timeout))"
proof -
  have n: "nat_to_string k \<noteq> ''-t''" for k
    by (rule nat_to_string_hd [of k]) auto
  have "user @ ''@'' @ host \<noteq> ''-t''" by (auto simp: append_eq_Cons_conv)
  then show "''-t'' \<notin> set (butlast (ssh_argv user host port known_hosts remote timeout))"
    using n n [symmetric] by (simp add: ssh_argv_def ssh_host_key_opts_def butlast_append)
  show "sh_words (last (ssh_argv user host port known_hosts remote timeout)) = Some remote"
    by (simp add: ssh_argv_def sh_words_join)
qed

end
