(* ===== verification/Rc_Service.thy ===== *)
theory Rc_Service
  imports Rc_Core Backend
begin

text \<open>
  The stateful remote-control service (\<^verbatim>\<open>core/shed-app/src/rc.rs\<close>): the session store over the
  \<^verbatim>\<open>RcRunner\<close> seam. The real launch, kill and list hold \<^verbatim>\<open>op_guard\<close> from before the command runs until the
  store is updated, and the test-mode operations hold the store's lock, so each operation is one function; what
  the runner answers is an argument, and the call made to it is returned. \<^verbatim>\<open>bin\<close> is the
  \<^verbatim>\<open>SHED_EXT_RC_BIN\<close> variable, \<^verbatim>\<open>bytes\<close> the bytes of the UUID the slug is drawn from, \<^verbatim>\<open>now\<close> the clock's formatted time.
\<close>

section \<open>Running a command\<close>

record run_output =
  ro_stdout :: string
  ro_stderr :: string
  ro_exit_code :: int

text \<open>
  How the spawned child ended: it exited (a signal gives no code), waiting for it failed, or it overran the
  watchdog and was killed. The texts are what the pipes delivered until they closed.
\<close>

datatype child_end = ChildExited "int option" | ChildWaitError string | ChildOverran

definition tokio_run :: "string option \<Rightarrow> child_end \<Rightarrow> string \<Rightarrow> string \<Rightarrow> string + run_output" where
  "tokio_run spawn_error ended stdout stderr =
     (case spawn_error of
        Some e \<Rightarrow> Inl e
      | None \<Rightarrow>
          (case ended of
             ChildExited code \<Rightarrow> Inr \<lparr>ro_stdout = stdout, ro_stderr = stderr, ro_exit_code = unwrap_or code (- 1)\<rparr>
           | ChildWaitError e \<Rightarrow> Inl e
           | ChildOverran \<Rightarrow> Inr \<lparr>ro_stdout = stdout, ro_stderr = ''operation timed out'', ro_exit_code = 124\<rparr>))"

record rc_call =
  ca_argv :: "string list"
  ca_stdin :: "string option"
  ca_timeout :: nat

definition connect_timeout_secs :: nat where "connect_timeout_secs = 10"
definition create_timeout :: nat where "create_timeout = 30"
definition list_timeout :: nat where "list_timeout = 15"
definition kill_timeout :: nat where "kill_timeout = 10"

definition ssh_for :: "string \<Rightarrow> rc_target \<Rightarrow> string list \<Rightarrow> string list" where
  "ssh_for shed target remote_argv =
     ssh_argv shed (rt_ssh_host target) (rt_ssh_port target) (rt_known_hosts target) remote_argv connect_timeout_secs"

definition slug_alphabet :: string where
  "slug_alphabet = ''abcdefghjkmnpqrstuvwxyz23456789''"

definition generate_slug :: "string \<Rightarrow> string" where
  "generate_slug bytes = map (\<lambda>b. slug_alphabet ! (of_char b mod length slug_alphabet)) (take 6 bytes)"

definition binary_name :: "string option \<Rightarrow> string" where
  "binary_name bin = unwrap_or bin ''shed-ext-rc''"

section \<open>The service\<close>

record rc_service =
  sv_store :: "(string, rc_session) hmap"
  sv_test_mode :: bool
  sv_tool_version :: string

definition rc_new :: "bool \<Rightarrow> string \<Rightarrow> rc_service" where
  "rc_new test_mode tool_version = \<lparr>sv_store = [], sv_test_mode = test_mode, sv_tool_version = tool_version\<rparr>"

definition store_session :: "rc_session \<Rightarrow> rc_service \<Rightarrow> rc_service" where
  "store_session s svc = svc\<lparr>sv_store := hm_insert (rc_id_of s) s (sv_store svc)\<rparr>"

record launch_params =
  lp_target :: rc_target
  lp_shed :: string
  lp_kind :: rc_kind
  lp_display_name :: "string option"
  lp_workdir :: "string option"
  lp_prompt :: "string option"

text \<open>What a launch draws from its surroundings.\<close>

record launch_env =
  le_bytes :: string
  le_uuid :: string
  le_now :: string
  le_bin :: "string option"
  le_output :: "string + run_output"

definition launch_name :: "launch_env \<Rightarrow> launch_params \<Rightarrow> string" where
  "launch_name env p = unwrap_or (lp_display_name p) (lp_shed p @ ''/'' @ generate_slug (le_bytes env))"

definition created_by :: "rc_service \<Rightarrow> string" where
  "created_by svc = tool_name @ ''/'' @ sv_tool_version svc"

definition target_label :: "launch_params \<Rightarrow> string" where
  "target_label p = ''shed:'' @ lp_shed p @ ''@'' @ rt_server_name (lp_target p)"

definition synthesized :: "launch_env \<Rightarrow> launch_params \<Rightarrow> rc_service \<Rightarrow> rc_session" where
  "synthesized env p svc =
     (let slug = generate_slug (le_bytes env) in
      \<lparr>rs_host = rt_server_name (lp_target p), rs_shed = lp_shed p, rs_slug = slug, rs_tmux_session = tmux_name slug,
       rs_display_name = launch_name env p, rs_workdir = unwrap_or (lp_workdir p) default_workdir, rs_kind = lp_kind p,
       rs_state = RcReady, rs_url = synthetic_url (lp_kind p) slug, rs_rc_id = Some (le_uuid env),
       rs_created_by = Some (created_by svc), rs_created_at = Some (le_now env), rs_target_label = Some (target_label p),
       rs_managed = True\<rparr>)"

text \<open>The runner's answer as the operations read it: an error, a non-zero exit, or the output.\<close>

definition checked_output :: "string + run_output \<Rightarrow> rc_error + run_output" where
  "checked_output out =
     (case out of
        Inl e \<Rightarrow> Inl (RcFailed (''ssh failed: '' @ e))
      | Inr ro \<Rightarrow>
          if ro_exit_code ro \<noteq> 0 then Inl (error_from_exit (ro_exit_code ro) (ro_stderr ro) (ro_stdout ro)) else Inr ro)"

definition launch ::
  "(string \<Rightarrow> json option) \<Rightarrow> launch_env \<Rightarrow> launch_params \<Rightarrow> rc_service \<Rightarrow> (rc_error + rc_session) \<times> rc_service \<times> rc_call option" where
  "launch parse env p svc =
     (if \<not> is_safe_rc_value (launch_name env p) \<or> (case lp_workdir p of Some w \<Rightarrow> \<not> is_safe_rc_value w | None \<Rightarrow> False)
      then (Inl (BadRequest ''display name and workdir must not contain newlines or control characters''), svc, None)
      else case normalize_rc_prompt (lp_prompt p) (lp_kind p) of
        Inl e \<Rightarrow> (Inl e, svc, None)
      | Inr prompt \<Rightarrow>
          if sv_test_mode svc then (Inr (synthesized env p svc), store_session (synthesized env p svc) svc, None)
          else
            (case create_invocation (binary_name (le_bin env)) (lp_kind p) (launch_name env p) (generate_slug (le_bytes env))
                    (lp_workdir p) (created_by svc) (target_label p) prompt of
               (argv, stdin) \<Rightarrow>
                 (let call = \<lparr>ca_argv = ssh_for (lp_shed p) (lp_target p) argv, ca_stdin = stdin, ca_timeout = create_timeout\<rparr>;
                      r = bind_result (checked_output (le_output env)) (\<lambda>ro. bind_result (decode_session parse (ro_stdout ro)) (\<lambda>dto.
                            Inr (from_dto dto (rt_server_name (lp_target p)) (lp_shed p))))
                  in (r, case r of Inr s \<Rightarrow> store_session s svc | Inl _ \<Rightarrow> svc, Some call))))"

definition rc_kill ::
  "string option \<Rightarrow> string + run_output \<Rightarrow> rc_target \<Rightarrow> string \<Rightarrow> string \<Rightarrow> rc_service
    \<Rightarrow> (rc_error + unit) \<times> rc_service \<times> rc_call option" where
  "rc_kill bin out target shed slug svc =
     (let svc' = svc\<lparr>sv_store := hm_remove (composite_id (rt_server_name target) shed slug) (sv_store svc)\<rparr> in
      if sv_test_mode svc then (Inr (), svc', None)
      else
        (let call = \<lparr>ca_argv = ssh_for shed target (kill_argv (binary_name bin) slug), ca_stdin = None, ca_timeout = kill_timeout\<rparr> in
         case checked_output out of
           Inl e \<Rightarrow> (Inl e, svc, Some call)
         | Inr _ \<Rightarrow> (Inr (), svc', Some call)))"

text \<open>One probe of \<^verbatim>\<open>list\<close>: any failure yields no sessions.\<close>

definition probe :: "(string \<Rightarrow> json option) \<Rightarrow> string + run_output \<Rightarrow> shed \<Rightarrow> rc_session list" where
  "probe parse out s =
     (case out of
        Inr ro \<Rightarrow>
          if ro_exit_code ro = 0
          then map (\<lambda>dto. from_dto dto (sh_host s) (sh_name s)) (unwrap_or (result_ok (decode_list parse (ro_stdout ro))) [])
          else []
      | Inl _ \<Rightarrow> [])"

definition list_call :: "string option \<Rightarrow> shed \<times> rc_target \<Rightarrow> rc_call" where
  "list_call bin = (\<lambda>(s, target). \<lparr>ca_argv = ssh_for (sh_name s) target (list_argv (binary_name bin)), ca_stdin = None,
     ca_timeout = list_timeout\<rparr>)"

definition probed :: "(shed \<times> rc_target) list \<Rightarrow> (string \<times> string) list" where
  "probed targets = map (\<lambda>(s, _). (sh_host s, sh_name s)) targets"

definition fresh_sessions :: "(string \<Rightarrow> json option) \<Rightarrow> (nat \<Rightarrow> string + run_output) \<Rightarrow> (shed \<times> rc_target) list \<Rightarrow> rc_session list" where
  "fresh_sessions parse outs targets = concat (map (\<lambda>(i, s, _). probe parse (outs i) s) (enumerate 0 targets))"

definition reconcile :: "bool \<Rightarrow> (string \<times> string) list \<Rightarrow> rc_session list \<Rightarrow> (string, rc_session) hmap \<Rightarrow> (string, rc_session) hmap" where
  "reconcile full pairs fresh store =
     fold (\<lambda>s m. hm_insert (rc_id_of s) s m) fresh
       (if full then [] else filter (\<lambda>(_, s). (rs_host s, rs_shed s) \<notin> set pairs) store)"

definition rc_list ::
  "(string \<Rightarrow> json option) \<Rightarrow> string option \<Rightarrow> (nat \<Rightarrow> string + run_output) \<Rightarrow> (shed \<times> rc_target) list
    \<Rightarrow> string option \<Rightarrow> string option \<Rightarrow> rc_service \<Rightarrow> rc_session list \<times> rc_service \<times> rc_call list" where
  "rc_list parse bin outs targets host shed svc =
     (let svc' = (if sv_test_mode svc then svc
                  else svc\<lparr>sv_store := reconcile (host = None \<and> shed = None) (probed targets)
                                        (fresh_sessions parse outs targets) (sv_store svc)\<rparr>)
      in (sort_key rc_id_of (filter (\<lambda>s. selects host (rs_host s) \<and> selects shed (rs_shed s)) (map snd (sv_store svc'))), svc',
          if sv_test_mode svc then [] else map (list_call bin) targets))"

definition inject_test :: "rc_session \<Rightarrow> rc_service \<Rightarrow> (rc_error + unit) \<times> rc_service" where
  "inject_test s svc =
     (if \<not> sv_test_mode svc then (Inl (RcFailed ''rc.inject_test requires test mode''), svc)
      else (Inr (), store_session s svc))"

datatype rc_op =
    RoLaunch launch_env launch_params
  | RoKill "string option" "string + run_output" rc_target string string
  | RoList "string option" "nat \<Rightarrow> string + run_output" "(shed \<times> rc_target) list" "string option" "string option"
  | RoInject rc_session

fun rc_exec :: "(string \<Rightarrow> json option) \<Rightarrow> rc_op \<Rightarrow> rc_service \<Rightarrow> rc_service" where
  "rc_exec parse (RoLaunch env p) svc = fst (snd (launch parse env p svc))"
| "rc_exec parse (RoKill bin out target shed slug) svc = fst (snd (rc_kill bin out target shed slug svc))"
| "rc_exec parse (RoList bin outs targets host shed) svc = fst (snd (rc_list parse bin outs targets host shed svc))"
| "rc_exec parse (RoInject s) svc = snd (inject_test s svc)"

section \<open>The store invariant\<close>

definition keyed :: "(string, rc_session) hmap \<Rightarrow> bool" where
  "keyed m \<longleftrightarrow> hm_ok m \<and> (\<forall>(k, s) \<in> set m. k = rc_id_of s)"

definition store_ok :: "rc_service \<Rightarrow> bool" where
  "store_ok svc \<longleftrightarrow> keyed (sv_store svc)"

lemma keyed_get: "keyed m \<longleftrightarrow> hm_ok m \<and> (\<forall>k s. hm_get m k = Some s \<longrightarrow> k = rc_id_of s)"
  by (auto simp: keyed_def hm_get_mem)

lemma keyed_insert [simp]: "keyed m \<Longrightarrow> keyed (hm_insert (rc_id_of s) s m)"
  by (auto simp: keyed_get)

lemma keyed_remove [simp]: "keyed m \<Longrightarrow> keyed (hm_remove k m)"
  by (auto simp: keyed_get)

lemma keyed_filter [simp]: "keyed m \<Longrightarrow> keyed (filter P m)"
  by (auto simp: keyed_def)

lemma keyed_Nil [simp]: "keyed []"
  by (simp add: keyed_def)

lemma keyed_fold [simp]: "keyed m \<Longrightarrow> keyed (fold (\<lambda>s m. hm_insert (rc_id_of s) s m) ss m)"
  by (induction ss arbitrary: m) simp_all

lemma keyed_reconcile: "keyed m \<Longrightarrow> keyed (reconcile full pairs fresh m)"
  by (simp add: reconcile_def)

lemma rc_exec_ok: "store_ok svc \<Longrightarrow> store_ok (rc_exec parse op svc)"
  by (cases op)
    (auto simp: store_ok_def launch_def rc_kill_def rc_list_def inject_test_def store_session_def keyed_reconcile Let_def
      split: sum.splits prod.splits)

lemma rc_exec_mode: "sv_test_mode (rc_exec parse op svc) = sv_test_mode svc"
  by (cases op)
    (auto simp: launch_def rc_kill_def rc_list_def inject_test_def store_session_def Let_def split: sum.splits prod.splits)

interpretation rc: machine "rc_exec parse" "\<lambda>svc. store_ok svc \<and> sv_test_mode svc = t" for parse t
  by unfold_locales (simp add: rc_exec_ok rc_exec_mode)

lemma rc_run: "store_ok (fold (rc_exec parse) ops (rc_new t v)) \<and> sv_test_mode (fold (rc_exec parse) ops (rc_new t v)) = t"
  by (rule rc.run_inv) (simp add: rc_new_def store_ok_def)

section \<open>Launching\<close>

lemma slug_alphabet_size: "length slug_alphabet = 31"
  by (simp add: slug_alphabet_def)

lemma generate_slug_shape:
  assumes "6 \<le> length bytes"
  shows "length (generate_slug bytes) = 6 \<and> set (generate_slug bytes) \<subseteq> set slug_alphabet"
  using assms by (auto simp: generate_slug_def slug_alphabet_size intro!: nth_mem)

lemma create_invocation_flag:
  assumes "create_invocation bin kind name slug workdir cb target prompt = (argv, stdin)"
  shows "argv = create_argv bin kind name slug workdir cb target (stdin \<noteq> None)" "stdin = None \<or> stdin = prompt"
  using assms by (auto simp: create_invocation_def Let_def)

lemma normalize_prompt_trims: "normalize_rc_prompt raw kind = Inr (Some p) \<Longrightarrow> \<exists>t. raw = Some t \<and> p = trim t"
  by (auto simp: normalize_rc_prompt_def Let_def split: option.splits if_splits)

lemma ssh_for_words: "sh_words (last (ssh_for shed target remote)) = Some remote"
  unfolding ssh_for_def by (rule rc_remote_command_reads_back)

lemma launch_call:
  assumes "launch parse env p svc = (r, svc', Some call)"
  obtains prompt argv where "\<not> sv_test_mode svc" "is_safe_rc_value (launch_name env p)"
    "\<forall>w. lp_workdir p = Some w \<longrightarrow> is_safe_rc_value w"
    "normalize_rc_prompt (lp_prompt p) (lp_kind p) = Inr prompt"
    "create_invocation (binary_name (le_bin env)) (lp_kind p) (launch_name env p) (generate_slug (le_bytes env))
       (lp_workdir p) (created_by svc) (target_label p) prompt = (argv, ca_stdin call)"
    "ca_argv call = ssh_for (lp_shed p) (lp_target p) argv"
  using assms by (auto simp: launch_def Let_def split: if_splits sum.splits option.splits prod.splits)

lemma launch_result:
  assumes "launch parse env p svc = (r, svc', call)"
  shows "(\<forall>s. r = Inr s \<longrightarrow> svc' = store_session s svc \<and> rs_host s = rt_server_name (lp_target p) \<and> rs_shed s = lp_shed p)
    \<and> (\<forall>e. r = Inl e \<longrightarrow> svc' = svc) \<and> (call = None \<and> \<not> sv_test_mode svc \<longrightarrow> (\<exists>e. r = Inl e))"
  using assms
  by (auto simp: launch_def Let_def synthesized_def from_dto_def bind_result_def split: if_splits sum.splits option.splits prod.splits)

text \<open>
  C32. What a launch runs is what it validated: a command is run only outside test mode, and then the remote
  shell reads it back as exactly the create command, whose name and work directory have no control characters;
  the prompt is never on the command line but on standard input, announced by \<^verbatim>\<open>--prompt-stdin\<close>, and is the trimmed
  user text, non-empty, free of control characters, at most 2000 bytes and never sent to a broker. A session is
  stored exactly when the launch succeeds, under the host and shed it was launched on.
\<close>

theorem launch_runs_validated_input:
  assumes "launch parse env p svc = (r, svc', Some call)"
  shows "\<not> sv_test_mode svc \<and> is_safe_rc_value (launch_name env p) \<and> (\<forall>w. lp_workdir p = Some w \<longrightarrow> is_safe_rc_value w)
    \<and> sh_words (last (ca_argv call)) = Some (create_argv (binary_name (le_bin env)) (lp_kind p) (launch_name env p)
         (generate_slug (le_bytes env)) (lp_workdir p) (created_by svc) (target_label p) (ca_stdin call \<noteq> None))
    \<and> (\<forall>t. ca_stdin call = Some t \<longrightarrow> (\<exists>raw. lp_prompt p = Some raw \<and> t = trim raw) \<and> t \<noteq> [] \<and> is_safe_rc_value t
         \<and> length t \<le> 2000 \<and> lp_kind p \<noteq> ClaudeBroker)
    \<and> (\<forall>s. r = Inr s \<longrightarrow> hm_get (sv_store svc') (composite_id (rt_server_name (lp_target p)) (lp_shed p) (rs_slug s)) = Some s)
    \<and> (\<forall>e. r = Inl e \<longrightarrow> svc' = svc)"
proof -
  obtain prompt argv where c: "\<not> sv_test_mode svc" "is_safe_rc_value (launch_name env p)"
    "\<forall>w. lp_workdir p = Some w \<longrightarrow> is_safe_rc_value w" "normalize_rc_prompt (lp_prompt p) (lp_kind p) = Inr prompt"
    "create_invocation (binary_name (le_bin env)) (lp_kind p) (launch_name env p) (generate_slug (le_bytes env))
       (lp_workdir p) (created_by svc) (target_label p) prompt = (argv, ca_stdin call)"
    "ca_argv call = ssh_for (lp_shed p) (lp_target p) argv"
    using launch_call [OF assms] by blast
  have stdin: "(\<exists>raw. lp_prompt p = Some raw \<and> t = trim raw) \<and> t \<noteq> [] \<and> is_safe_rc_value t \<and> length t \<le> 2000 \<and> lp_kind p \<noteq> ClaudeBroker"
    if "ca_stdin call = Some t" for t
    using that create_invocation_flag(2) [OF c(5)] c(4) normalize_prompt_ok normalize_prompt_trims
    by (fastforce simp: accepts_typed_input_def)
  have words: "sh_words (last (ca_argv call)) = Some argv" using c(6) ssh_for_words by simp
  show ?thesis
    using c(1-3) stdin words create_invocation_flag(1) [OF c(5)] launch_result [OF assms]
    by (auto simp: store_session_def rc_id_of_def)
qed

section \<open>Listing\<close>

text \<open>The session a refresh leaves under an id: the last one reported.\<close>

definition last_fresh :: "rc_session list \<Rightarrow> string \<Rightarrow> rc_session option" where
  "last_fresh fresh k = map_of (rev (map (\<lambda>s. (rc_id_of s, s)) fresh)) k"

lemma fold_insert_get:
  "hm_get (fold (\<lambda>s m. hm_insert (rc_id_of s) s m) fresh m) k
   = (case last_fresh fresh k of Some s \<Rightarrow> Some s | None \<Rightarrow> hm_get m k)"
  by (induction fresh arbitrary: m) (auto simp: last_fresh_def map_add_def split: option.splits)

lemma last_fresh_mem: "last_fresh fresh k = Some s \<Longrightarrow> s \<in> set fresh \<and> rc_id_of s = k"
  by (auto simp: last_fresh_def dest!: map_of_SomeD)

lemma keyed_vals: "keyed m \<Longrightarrow> s \<in> snd ` set m \<longleftrightarrow> hm_get m (rc_id_of s) = Some s"
  by (force simp: keyed_def hm_get_mem)

lemma reconcile_vals:
  assumes "keyed m"
  shows "s \<in> snd ` set (reconcile full pairs fresh m) \<longleftrightarrow>
     last_fresh fresh (rc_id_of s) = Some s
   \<or> last_fresh fresh (rc_id_of s) = None \<and> \<not> full \<and> s \<in> snd ` set m \<and> (rs_host s, rs_shed s) \<notin> set pairs"
proof -
  have "hm_get (filter (\<lambda>(_, s). (rs_host s, rs_shed s) \<notin> set pairs) m) (rc_id_of s) = Some s
      \<longleftrightarrow> s \<in> snd ` set m \<and> (rs_host s, rs_shed s) \<notin> set pairs"
    using assms by (subst keyed_vals [symmetric]) (force simp: keyed_def)+
  then show ?thesis
    using assms unfolding keyed_vals [OF keyed_reconcile [OF assms]]
    by (auto simp: reconcile_def fold_insert_get split: option.splits)
qed

lemma probe_pair: "s \<in> set (probe parse out sh) \<Longrightarrow> rs_host s = sh_host sh \<and> rs_shed s = sh_name sh"
  by (auto simp: probe_def from_dto_def split: sum.splits if_splits)

lemma fresh_probed: "s \<in> set (fresh_sessions parse outs targets) \<Longrightarrow> (rs_host s, rs_shed s) \<in> set (probed targets)"
proof -
  assume "s \<in> set (fresh_sessions parse outs targets)"
  then obtain i sh t where "(i, sh, t) \<in> set (enumerate 0 targets)" "s \<in> set (probe parse (outs i) sh)"
    by (auto simp: fresh_sessions_def)
  moreover from this have "(sh, t) \<in> set targets"
    by (simp add: in_set_enumerate_eq) (metis nth_mem)
  ultimately show ?thesis using probe_pair by (force simp: probed_def)
qed

definition slash_free :: "string \<times> string \<Rightarrow> bool" where
  "slash_free = (\<lambda>(h, s). CHR ''/'' \<notin> set h \<and> CHR ''/'' \<notin> set s)"

lemma unprobed_not_fresh:
  assumes "(rs_host s, rs_shed s) \<notin> set (probed targets)" "slash_free (rs_host s, rs_shed s)"
    "list_all slash_free (probed targets)"
  shows "last_fresh (fresh_sessions parse outs targets) (rc_id_of s) = None"
proof (rule ccontr)
  assume "last_fresh (fresh_sessions parse outs targets) (rc_id_of s) \<noteq> None"
  then obtain f where f: "f \<in> set (fresh_sessions parse outs targets)" "rc_id_of f = rc_id_of s"
    using last_fresh_mem by blast
  then have p: "(rs_host f, rs_shed f) \<in> set (probed targets)" using fresh_probed by blast
  then have "slash_free (rs_host f, rs_shed f)" using assms(3) by (auto simp: list_all_iff)
  then have "rs_host f = rs_host s \<and> rs_shed f = rs_shed s"
    using f(2) assms(2) composite_id_inj by (auto simp: rc_id_of_def slash_free_def)
  then show False using p assms(1) by simp
qed

lemma sorted_distinct_list:
  assumes "keyed m"
  shows "sorted (map rc_id_of (sort_key rc_id_of (filter P (map snd m))))"
    "distinct (map rc_id_of (sort_key rc_id_of (filter P (map snd m))))"
proof -
  show "sorted (map rc_id_of (sort_key rc_id_of (filter P (map snd m))))" by (rule sorted_sort_key)
  have "map rc_id_of (map snd m) = map fst m" using assms by (auto simp: keyed_def)
  then have "distinct (map rc_id_of (map snd m))" using assms unfolding keyed_def by metis
  then have "distinct (map rc_id_of (filter P (map snd m)))" by (rule distinct_map_filter)
  then show "distinct (map rc_id_of (sort_key rc_id_of (filter P (map snd m))))"
    by (simp add: distinct_map)
qed

text \<open>
  C33. Listing reconciles the store with what the sheds report. In every reachable state outside test mode
  the result is sorted by id without duplicates and consists, under the filter, of exactly the sessions just
  reported (the last one per id) and, when the listing was filtered, the known sessions of the sheds that were
  not probed; a full refresh keeps nothing else. When host and shed names have no slash, a filtered listing
  loses no session of a shed it did not probe, whatever the probed sheds answer.
\<close>

theorem rc_list_reconciles:
  assumes "svc = fold (rc_exec parse) ops (rc_new False v)"
    and "rc_list parse bin outs targets host shed svc = (result, svc', calls)"
  shows "sorted (map rc_id_of result) \<and> distinct (map rc_id_of result)
    \<and> (\<forall>s. s \<in> set result \<longleftrightarrow> selects host (rs_host s) \<and> selects shed (rs_shed s)
         \<and> (last_fresh (fresh_sessions parse outs targets) (rc_id_of s) = Some s
            \<or> last_fresh (fresh_sessions parse outs targets) (rc_id_of s) = None \<and> (host \<noteq> None \<or> shed \<noteq> None)
              \<and> s \<in> snd ` set (sv_store svc) \<and> (rs_host s, rs_shed s) \<notin> set (probed targets)))
    \<and> (list_all slash_free (probed targets) \<and> (host \<noteq> None \<or> shed \<noteq> None) \<longrightarrow>
        (\<forall>s \<in> snd ` set (sv_store svc). slash_free (rs_host s, rs_shed s) \<and> (rs_host s, rs_shed s) \<notin> set (probed targets)
           \<longrightarrow> s \<in> snd ` set (sv_store svc')))"
proof -
  let ?m = "reconcile (host = None \<and> shed = None) (probed targets) (fresh_sessions parse outs targets) (sv_store svc)"
  have k: "keyed (sv_store svc)" and t: "\<not> sv_test_mode svc"
    using rc_run [of parse ops False v] assms(1) by (simp_all add: store_ok_def)
  have svc': "sv_store svc' = ?m"
    and result: "result = sort_key rc_id_of (filter (\<lambda>s. selects host (rs_host s) \<and> selects shed (rs_shed s)) (map snd ?m))"
    using assms(2) t by (auto simp: rc_list_def Let_def)
  have vals: "s \<in> snd ` set ?m \<longleftrightarrow>
     last_fresh (fresh_sessions parse outs targets) (rc_id_of s) = Some s
     \<or> last_fresh (fresh_sessions parse outs targets) (rc_id_of s) = None \<and> (host \<noteq> None \<or> shed \<noteq> None)
       \<and> s \<in> snd ` set (sv_store svc) \<and> (rs_host s, rs_shed s) \<notin> set (probed targets)" for s
    using reconcile_vals [OF k] by simp
  then have kept: "list_all slash_free (probed targets) \<and> (host \<noteq> None \<or> shed \<noteq> None) \<longrightarrow>
      (\<forall>s \<in> snd ` set (sv_store svc). slash_free (rs_host s, rs_shed s) \<and> (rs_host s, rs_shed s) \<notin> set (probed targets)
         \<longrightarrow> s \<in> snd ` set (sv_store svc'))"
    using unprobed_not_fresh [of _ targets parse outs] unfolding svc' by simp
  have "s \<in> set result \<longleftrightarrow> selects host (rs_host s) \<and> selects shed (rs_shed s) \<and> s \<in> snd ` set ?m" for s
    unfolding result by auto
  then have exact: "\<forall>s. s \<in> set result \<longleftrightarrow> selects host (rs_host s) \<and> selects shed (rs_shed s)
         \<and> (last_fresh (fresh_sessions parse outs targets) (rc_id_of s) = Some s
            \<or> last_fresh (fresh_sessions parse outs targets) (rc_id_of s) = None \<and> (host \<noteq> None \<or> shed \<noteq> None)
              \<and> s \<in> snd ` set (sv_store svc) \<and> (rs_host s, rs_shed s) \<notin> set (probed targets))"
    unfolding vals by blast
  have "sorted (map rc_id_of result)" "distinct (map rc_id_of result)"
    unfolding result by (rule sorted_distinct_list [OF keyed_reconcile [OF k]])+
  then show ?thesis by (intro conjI exact kept)
qed

definition demo_list :: json where
  "demo_list = JObj [(''rc_sessions'', JArr [JObj [(''slug'', JStr ''s1''), (''tmux_session'', JStr ''rc-s1''),
     (''kind'', JStr ''shell''), (''state'', JStr ''ready''), (''managed'', JBool True)]])]"

definition demo_shed :: "string \<Rightarrow> shed" where
  "demo_shed name = \<lparr>sh_host = ''srv'', sh_name = name, sh_status = StRunning, sh_backend = None, sh_repo = None, sh_image = None,
     sh_image_digest = None, sh_local_dir = None, sh_ip_address = None, sh_cpus = None, sh_memory_mb = None, sh_created_at = None,
     sh_started_at = None, sh_active_namespaces = []\<rparr>"

definition demo_target :: rc_target where
  "demo_target = \<lparr>rt_server_name = ''srv'', rt_ssh_host = ''h'', rt_ssh_port = 22, rt_known_hosts = ''/k''\<rparr>"

definition demo_output :: "nat \<Rightarrow> string + run_output" where
  "demo_output i = (if i = 0 then Inr \<lparr>ro_stdout = [], ro_stderr = [], ro_exit_code = 0\<rparr> else Inl ''unreachable'')"

definition demo_service :: rc_service where
  "demo_service = fold (rc_exec (\<lambda>_. Some demo_list))
     [RoList None (\<lambda>_. demo_output 0) [(demo_shed ''web'', demo_target), (demo_shed ''api'', demo_target)] None None] (rc_new False ''1'')"

text \<open>Both sheds report a session; the shed listed next fails to answer: its session goes, the other's stays.\<close>

theorem rc_list_reconciles_witness:
  "map rc_id_of (map snd (sv_store demo_service)) = [''srv/web/s1'', ''srv/api/s1'']
   \<and> (case rc_list (\<lambda>_. Some demo_list) None (\<lambda>_. demo_output 1) [(demo_shed ''web'', demo_target)] None (Some ''web'') demo_service of
        (result, svc', calls) \<Rightarrow> distinct (map rc_id_of result) \<and> result = [] \<and> map fst (sv_store svc') = [''srv/api/s1''])"
proof -
  have e: "map rc_id_of (map snd (sv_store demo_service)) = [''srv/web/s1'', ''srv/api/s1'']" by code_simp
  let ?l = "rc_list (\<lambda>_. Some demo_list) None (\<lambda>_. demo_output 1) [(demo_shed ''web'', demo_target)] None (Some ''web'') demo_service"
  have l: "case ?l of (result, svc', calls) \<Rightarrow> result = [] \<and> map fst (sv_store svc') = [''srv/api/s1'']" by code_simp
  obtain result svc' calls where r: "?l = (result, svc', calls)" by (cases ?l) auto
  have "distinct (map rc_id_of result)" using rc_list_reconciles [OF demo_service_def r] by blast
  then show ?thesis using e l r by simp
qed

theorem launch_runs_validated_input_witness:
  "\<exists>env p svc r svc' call. launch (\<lambda>_. None) env p svc = (r, svc', Some call) \<and> ca_stdin call = Some ''hi'' \<and> svc' = svc
     \<and> length ''hi'' \<le> 2000 \<and> lp_kind p \<noteq> ClaudeBroker"
proof -
  let ?env = "\<lparr>le_bytes = ''abcdef'', le_uuid = ''u'', le_now = ''now'', le_bin = None, le_output = Inl ''no ssh''\<rparr>"
  let ?p = "\<lparr>lp_target = demo_target, lp_shed = ''web'', lp_kind = ClaudeRc, lp_display_name = Some ''demo'', lp_workdir = None,
    lp_prompt = Some '' hi ''\<rparr>"
  let ?call = "\<lambda>x. case launch (\<lambda>_. None) ?env ?p (rc_new False ''1'') of (r, svc', c) \<Rightarrow> map_option ca_stdin c = x"
  have "?call (Some (Some ''hi''))" by code_simp
  then obtain r svc' call where l: "launch (\<lambda>_. None) ?env ?p (rc_new False ''1'') = (r, svc', Some call)" "ca_stdin call = Some ''hi''"
    by (auto split: prod.splits)
  have "\<exists>e. r = Inl e" using l(1) by (auto simp: launch_def checked_output_def Let_def split: if_splits sum.splits prod.splits)
  then show ?thesis using launch_runs_validated_input [OF l(1)] l by blast
qed

end
