(* ===== verification/Ipc.thy ===== *)
theory Ipc
  imports Termctl Ui_State Rc_Service
begin

text \<open>
  The operations of the IPC socket (\<^verbatim>\<open>Handler\<close> in \<^verbatim>\<open>tauri/src-tauri/src/ipc.rs\<close>): how each operation reads its
  parameters, which component it drives and what it answers. The state has the components the handler
  shares with the webview: the coordinator, the backend, the preferences, the remote-control service and
  the reported snapshots. What the outside answers during one operation (network, clock, processes, window
  system) is a record of arguments. An operation is one step of the state; how the steps of
  \<^verbatim>\<open>ui.set_ssh_approval\<close> interleave with others is in theory \<^verbatim>\<open>Prefs\<close>.
\<close>

section \<open>JSON of the answers\<close>

fun create_state_wire :: "create_state \<Rightarrow> string" where
  "create_state_wire CsProgress = ''progress''"
| "create_state_wire CsComplete = ''complete''"
| "create_state_wire CsError = ''error''"

definition encode_create_progress :: "create_progress \<Rightarrow> json" where
  "encode_create_progress p =
     JObj [(''id'', JStr (cp_id p)), (''state'', JStr (create_state_wire (cp_state p))),
           (''messages'', JArr (map JStr (cp_messages p))), (''shed'', nullable encode_shed (cp_shed p)),
           (''error'', nullable JStr (cp_error p))]"

definition encode_disk_size :: "disk_size \<Rightarrow> json" where
  "encode_disk_size z = JObj [(''logical_bytes'', JInt (ds_logical z)), (''physical_bytes'', JInt (ds_physical z))]"

definition encode_disk_entry :: "disk_entry \<Rightarrow> json" where
  "encode_disk_entry e =
     JObj [(''name'', JStr (de_name e)), (''docker_ref'', nullable JStr (de_docker_ref e)), (''size'', encode_disk_size (de_size e))]"

definition encode_disk_totals :: "disk_totals \<Rightarrow> json" where
  "encode_disk_totals t =
     JObj [(''images'', encode_disk_size (dt_images t)), (''sheds'', encode_disk_size (dt_sheds t)),
           (''snapshots'', encode_disk_size (dt_snapshots t)), (''orphans'', encode_disk_size (dt_orphans t)),
           (''all'', encode_disk_size (dt_all t))]"

definition encode_system_disk_usage :: "system_disk_usage \<Rightarrow> json" where
  "encode_system_disk_usage u =
     JObj [(''server_name'', nullable JStr (du_server_name u)), (''backend'', nullable JStr (du_backend u)),
           (''images'', JArr (map encode_disk_entry (du_images u))), (''sheds'', JArr (map encode_disk_entry (du_sheds u))),
           (''orphans'', JArr (map encode_disk_entry (du_orphans u))), (''totals'', encode_disk_totals (du_totals u))]"

definition encode_host_disk_usage :: "host_disk_usage \<Rightarrow> json" where
  "encode_host_disk_usage r =
     JObj [(''host'', JStr (hd_host r)), (''usage'', nullable encode_system_disk_usage (hd_usage r)),
           (''error'', nullable JStr (hd_error r))]"

definition encode_notification :: "posted_notification \<Rightarrow> json" where
  "encode_notification n = JObj [(''id'', JStr (pn_id n)), (''title'', JStr (pn_title n)), (''body'', JStr (pn_body n))]"

definition encode_rc_classification :: "rc_classification \<Rightarrow> json" where
  "encode_rc_classification c = JObj ((''state'', JStr (rc_state_wire (rcl_state c))) # opt_field ''url'' JStr (rcl_url c))"

fun rc_error_text :: "rc_error \<Rightarrow> string" where
  "rc_error_text (SlugTaken m) = ''rc session already exists: '' @ m"
| "rc_error_text (RcNotFound m) = ''rc session not found: '' @ m"
| "rc_error_text (BadRequest m) = ''invalid rc request: '' @ m"
| "rc_error_text MissingBinary =
     ''shed-ext-rc is not installed on this shed '' @ [CHR 0xE2, CHR 0x80, CHR 0x94] @ '' update the shed image''"
| "rc_error_text (RcFailed m) = ''rc operation failed: '' @ m"

definition decode_decision :: "json \<Rightarrow> approval_decision option" where
  "decode_decision = as_unit_variant (variant_named decision_wire [Approve, Deny])"

definition decode_approval_scope :: "json \<Rightarrow> approval_scope option" where
  "decode_approval_scope = as_unit_variant (variant_named approval_scope_wire [PerRequest, PerSession, PerShed])"

text \<open>\<^verbatim>\<open>{:?}\<close> of a string: quoted, with the escapes of ASCII; other characters are kept.\<close>

definition hex_digit :: "nat \<Rightarrow> char" where
  "hex_digit n = (if n < 10 then digit_char n else char_of (0x57 + n))"

definition debug_char :: "char \<Rightarrow> string" where
  "debug_char c =
     (if c = CHR 0x22 then [CHR 0x5C, CHR 0x22]
      else if c = CHR 0x5C then [CHR 0x5C, CHR 0x5C]
      else if c = CHR 0x0A then [CHR 0x5C, CHR ''n'']
      else if c = CHR 0x0D then [CHR 0x5C, CHR ''r'']
      else if c = CHR 0x09 then [CHR 0x5C, CHR ''t'']
      else if c = CHR 0x00 then [CHR 0x5C, CHR ''0'']
      else let n = of_char c :: nat in
        if n < 0x10 then [CHR 0x5C] @ ''u{'' @ [hex_digit n] @ ''}''
        else if n < 0x20 \<or> n = 0x7F then [CHR 0x5C] @ ''u{'' @ [hex_digit (n div 16), hex_digit (n mod 16)] @ ''}''
        else [c])"

definition debug_str :: "string \<Rightarrow> string" where
  "debug_str s = [CHR 0x22] @ concat (map debug_char s) @ [CHR 0x22]"

section \<open>State and surroundings\<close>

text \<open>
  What the handler makes others do, in order. \<open>AxSpawn\<close> starts a terminal, \<open>AxTool\<close> a screenshot tool (the path of
  its output file, which is its last argument, left out) and \<open>AxRcCall\<close> a process of the remote-control service.
\<close>

datatype app_fx =
    AxPresent
  | AxEmit string json
  | AxTrayShow
  | AxTrayToggle
  | AxTrayHide
  | AxSpawn launch_invocation
  | AxTool string "string list"
  | AxHttp "http_request list"
  | AxRcCall rc_call
  | AxCreate string "string option" create_shed_request
  | AxCommand command

record app =
  ax_env :: app_env
  ax_ui :: ui_state
  ax_backend :: backend
  ax_prefs :: prefs_store
  ax_scripts_dir :: "string option"
  ax_coord :: coord
  ax_rc :: rc_service
  ax_refresh_seq :: nat
  ax_login_cell :: bool
  ax_fx :: "app_fx list"

record tray_view =
  tv_present :: bool
  tv_visible :: bool
  tv_height :: "string option"

text \<open>
  \<open>wo_uis i\<close> and \<open>wo_delay i\<close>: the snapshots at the \<open>i\<close>-th poll of a waiting refresh, and by how many ms it is late.
  \<open>wo_tool\<close>: what a screenshot tool does; \<open>wo_shot\<close>: the panic of the capture's task. \<open>wo_login\<close>: what the login-item registry says, and the
  error of changing it. \<open>wo_serde_error\<close>: the text of a decoding error.
\<close>

record world =
  wo_pid :: nat
  wo_cenv :: cenv
  wo_reply :: nat
  wo_parse :: "string \<Rightarrow> json option"
  wo_ser :: "json \<Rightarrow> string"
  wo_serde_error :: "json \<Rightarrow> string"
  wo_write :: write_result
  wo_envs :: surroundings
  wo_net :: "nenv \<times> nenv"
  wo_create_id :: string
  wo_between :: "store_op list"
  wo_host :: host_view
  wo_spawn :: "launch_invocation \<Rightarrow> string option"
  wo_regex :: regex_engine
  wo_launch :: launch_env
  wo_output :: "string + run_output"
  wo_outputs :: "nat \<Rightarrow> string + run_output"
  wo_uis :: "nat \<Rightarrow> ui_state"
  wo_delay :: "nat \<Rightarrow> nat"
  wo_shot :: "string option"
  wo_tool :: "string \<Rightarrow> string list \<Rightarrow> tool_end \<times> (string + string)"
  wo_base64 :: "string \<Rightarrow> string"
  wo_login :: "bool \<times> (bool \<Rightarrow> string option)"
  wo_tray :: tray_view

type_synonym handler = "world \<Rightarrow> json \<Rightarrow> app \<Rightarrow> (ipc_error + json) \<times> app"

definition ax :: "app_fx \<Rightarrow> app \<Rightarrow> app" where
  "ax e a = a\<lparr>ax_fx := ax_fx a @ [e]\<rparr>"

text \<open>
  A command to the coordinator and its answer. The actor answers every command but a gated decision at once;
  \<^verbatim>\<open>decide_approval\<close> waits for the gate and ignores the answer.
\<close>

definition answer_to :: "reply \<Rightarrow> effect list \<Rightarrow> answer option" where
  "answer_to r fxs = map_option (\<lambda>e. case e of FxReply _ x \<Rightarrow> x | _ \<Rightarrow> AnsUnit)
     (List.find (\<lambda>e. case e of FxReply r' _ \<Rightarrow> r' = r | _ \<Rightarrow> False) fxs)"

definition ask :: "world \<Rightarrow> command \<Rightarrow> app \<Rightarrow> answer option \<times> app" where
  "ask w c a =
     (let s = run_command (wo_cenv w) c (ax_coord a)
      in (answer_to (wo_reply w) (drop (length (out (ax_coord a))) (out s)), ax (AxCommand c) (a\<lparr>ax_coord := s\<rparr>)))"

section \<open>Parameters\<close>

definition par_str :: "json \<Rightarrow> string \<Rightarrow> string option" where
  "par_str params key = Option.bind (json_get params key) as_str"

definition req_str :: "json \<Rightarrow> string \<Rightarrow> ipc_error + string" where
  "req_str params key = ok_or (ipc_err ''bad_request'' (''missing '' @ [CHR 0x27] @ key @ [CHR 0x27])) (par_str params key)"

definition rc_kind_param :: "json \<Rightarrow> ipc_error + rc_kind" where
  "rc_kind_param params =
     ok_or (ipc_err ''bad_request'' (''missing or invalid '' @ [CHR 0x27] @ ''kind'' @ [CHR 0x27]))
       (Option.bind (json_get params ''kind'') decode_rc_kind)"

definition rc_err :: "rc_error \<Rightarrow> ipc_error" where
  "rc_err e =
     (case e of
        BadRequest _ \<Rightarrow> ipc_err ''invalid-param'' (rc_error_text e)
      | _ \<Rightarrow> ipc_err ''action_failed'' (rc_error_text e))"

text \<open>An operation that starts by reading parameters: the error, or the rest of it.\<close>

definition with_par :: "ipc_error + 'p \<Rightarrow> ('p \<Rightarrow> app \<Rightarrow> (ipc_error + json) \<times> app) \<Rightarrow> app \<Rightarrow> (ipc_error + json) \<times> app" where
  "with_par r f a = (case r of Inl e \<Rightarrow> (Inl e, a) | Inr p \<Rightarrow> f p a)"

definition serde_par :: "world \<Rightarrow> (json \<Rightarrow> 'p option) \<Rightarrow> json \<Rightarrow> ipc_error + 'p" where
  "serde_par w rd params = ok_or (ipc_err ''bad_request'' (wo_serde_error w params)) (rd params)"

abbreviation (input) done_ok :: "app \<Rightarrow> (ipc_error + json) \<times> app" where
  "done_ok a \<equiv> (Inr (JObj []), a)"

section \<open>Window operations\<close>

definition h_identify :: handler where
  "h_identify w params a =
     (Inr (JObj [(''socket_path'', JStr (ae_socket_path (ax_env a))), (''pid'', JInt (int (wo_pid w))),
        (''core'', JStr ''rust''), (''platform'', JStr ''tauri''), (''test_mode'', JBool (ae_test_mode (ax_env a))),
        (''mock_base_url'', nullable JStr (ae_mock_base_url (ax_env a)))]), a)"

definition main_get :: "app \<Rightarrow> string \<Rightarrow> json option" where
  "main_get a key = ui_get (ax_ui a) ''main'' key"

definition h_ui_key :: "string \<Rightarrow> string \<Rightarrow> handler" where
  "h_ui_key field key w params a = (Inr (JObj [(field, nullable id (main_get a key))]), a)"

definition panes :: "string list" where
  "panes = [''sheds'', ''approvals'', ''agents'', ''activity'', ''system'']"

definition h_navigate :: handler where
  "h_navigate w params a =
     (let pane = unwrap_or (par_str params ''pane'') [] in
      if pane \<notin> set panes then (Inl (ipc_err ''bad_request'' (''unknown pane: '' @ debug_str pane)), a)
      else if main_get a ''pane'' = None
      then (Inl (ipc_err ''frontend_not_ready'' ''frontend has not reported yet; retry''), a)
      else done_ok (ax (AxEmit ''navigate'' (JObj [(''pane'', JStr pane)])) a))"

definition h_present :: "(string \<times> json) list \<Rightarrow> handler" where
  "h_present events w params a = done_ok (fold (\<lambda>(name, v). ax (AxEmit name v)) events (ax AxPresent a))"

definition h_screenshot :: handler where
  "h_screenshot w params a =
     (let macos = hv_macos (wo_host w);
          wayland = (hv_vars (wo_host w) ''WAYLAND_DISPLAY'' \<noteq> None)
      in (case wo_shot w of
            Some panic \<Rightarrow> Inl (ipc_err ''screenshot_failed'' (''capture task panicked: '' @ panic))
          | None \<Rightarrow>
              (case capture macos wayland (wo_tool w) of
                 Inl e \<Rightarrow> Inl (ipc_err ''screenshot_failed'' e)
               | Inr (png, width, height) \<Rightarrow>
                   Inr (JObj [(''png'', JStr (wo_base64 w png)), (''width'', JInt (int width)),
                              (''height'', JInt (int height))])),
          fold (\<lambda>(tool, args). ax (AxTool tool args)) (tools_run wayland (wo_tool w) (shot_candidates macos)) a))"

definition h_tray :: "app_fx \<Rightarrow> handler" where
  "h_tray e w params a = done_ok (ax e a)"

definition menu_item_ids :: "string list" where
  "menu_item_ids = [''open'', ''approvals'', ''preferences'', ''quit'']"

definition h_tray_dump :: handler where
  "h_tray_dump w params a =
     (Inr (JObj [(''present'', JBool (tv_present (wo_tray w))), (''items'', JArr (map JStr menu_item_ids)),
        (''popover'', nullable id (ui_get (ax_ui a) ''popover'' ''tray'')), (''popover_visible'', JBool (tv_visible (wo_tray w))),
        (''popover_height'', nullable JReal (tv_height (wo_tray w)))]), a)"

text \<open>The login item: an in-memory cell under test on macOS, the system's registry otherwise.\<close>

definition login_item_faked :: "world \<Rightarrow> app_env \<Rightarrow> bool" where
  "login_item_faked w env \<longleftrightarrow> ae_test_mode env \<and> hv_macos (wo_host w)"

definition login_item_enabled :: "world \<Rightarrow> app \<Rightarrow> bool" where
  "login_item_enabled w a = (if login_item_faked w (ax_env a) then ax_login_cell a else fst (wo_login w))"

definition login_item_set :: "world \<Rightarrow> bool \<Rightarrow> app \<Rightarrow> (string + unit) \<times> app" where
  "login_item_set w enabled a =
     (if login_item_faked w (ax_env a) then (Inr (), a\<lparr>ax_login_cell := enabled\<rparr>)
      else (case snd (wo_login w) enabled of Some e \<Rightarrow> Inl e | None \<Rightarrow> Inr (), a))"

definition h_login_status :: handler where
  "h_login_status w params a = (Inr (JObj [(''enabled'', JBool (login_item_enabled w a))]), a)"

definition h_login_set :: handler where
  "h_login_set w params a =
     with_par (ok_or (ipc_err ''bad_request'' (''missing '' @ [CHR 0x27] @ ''enabled'' @ [CHR 0x27] @ '' (bool)''))
                (Option.bind (json_get params ''enabled'') as_bool))
       (\<lambda>enabled a. case login_item_set w enabled a of
          (Inl e, a) \<Rightarrow> (Inl (ipc_err ''action_failed'' e), a)
        | (Inr _, a) \<Rightarrow> done_ok a) a"

section \<open>Refresh\<close>

definition refresh_wait :: nat where "refresh_wait = 10000"
definition refresh_poll :: nat where "refresh_poll = 15"

text \<open>
  The waiting loop: the number of the poll at which it returns. \<open>now\<close> is the time since the deadline was set,
  \<open>delay i\<close> how much later than planned the \<open>i\<close>-th poll runs (a sleep never returns early).
\<close>

function refresh_loop :: "(nat \<Rightarrow> ui_state) \<Rightarrow> (nat \<Rightarrow> nat) \<Rightarrow> nat \<Rightarrow> nat \<Rightarrow> nat \<Rightarrow> nat" where
  "refresh_loop uis delay token now i =
     (if token \<le> ui_refresh_token (uis i) ''main'' \<or> refresh_wait \<le> now then i
      else refresh_loop uis delay token (now + refresh_poll + delay (i + 1)) (i + 1))"
  by pat_completeness auto
termination
  by (relation "measure (\<lambda>(uis, delay, token, now, i). refresh_wait - now)") (auto simp: refresh_poll_def)

declare refresh_loop.simps [simp del]

text \<open>\<open>fetch_add\<close> wraps at \<open>2 ^ 64\<close>; the addition of 1 to its result would overflow only after that many refreshes.\<close>

definition h_sheds_refresh :: handler where
  "h_sheds_refresh w params a =
     (let token = ax_refresh_seq a + 1;
          has_frontend = ui_has (ax_ui a) ''main'';
          a = ax (AxEmit ''refresh'' (JObj [(''token'', JInt (int token))]))
                (a\<lparr>ax_refresh_seq := (ax_refresh_seq a + 1) mod 2 ^ 64\<rparr>)
      in if \<not> has_frontend then done_ok a
         else done_ok (a\<lparr>ax_ui := wo_uis w (refresh_loop (wo_uis w) (wo_delay w) token (wo_delay w 0) 0)\<rparr>))"

section \<open>Sheds, creates and terminals\<close>

definition h_sheds_list :: handler where
  "h_sheds_list w params a =
     (case backend_list_sheds (wo_parse w) (wo_envs w) (ax_backend a) of
        (sheds, b) \<Rightarrow> (Inr (JObj [(''sheds'', JArr (map encode_shed sheds))]), a\<lparr>ax_backend := b\<rparr>))"

definition h_dashboard_dump :: handler where
  "h_dashboard_dump w params a = (Inr (JObj [(''rows'', unwrap_or (main_get a ''sheds'') (JArr []))]), a)"

definition h_shed_action :: "string \<Rightarrow> handler" where
  "h_shed_action action w params a =
     with_par (req_str params ''name'') (\<lambda>name a.
       case shed_action (fst (wo_net w)) (snd (wo_net w)) (par_str params ''host'') name action (ax_backend a) of
         (r, b, qs) \<Rightarrow>
           (case r of Inr _ \<Rightarrow> Inr (JObj []) | Inl e \<Rightarrow> Inl (ipc_err ''action_failed'' (shed_error_text e)),
            ax (AxHttp qs) (a\<lparr>ax_backend := b\<rparr>))) a"

definition par_i64 :: "json \<Rightarrow> string \<Rightarrow> int option" where
  "par_i64 params key = Option.bind (json_get params key) as_i64"

definition create_request :: "string \<Rightarrow> json \<Rightarrow> create_shed_request" where
  "create_request name params =
     \<lparr>cr_name = name, cr_repo = par_str params ''repo'', cr_local_dir = par_str params ''local_dir'',
      cr_image = par_str params ''image'', cr_backend = par_str params ''backend'', cr_cpus = par_i64 params ''cpus'',
      cr_memory_mb = par_i64 params ''memory_mb'',
      cr_no_provision = Option.bind (json_get params ''no_provision'') as_bool\<rparr>"

text \<open>The spawned task gets the request; it is the body that the effect records.\<close>

definition h_create_start :: handler where
  "h_create_start w params a =
     with_par (req_str params ''name'') (\<lambda>name a.
       case backend_create_start (wo_create_id w) (wo_between w) (par_str params ''host'') (ax_backend a) of
         (Inl e, b) \<Rightarrow> (Inl (ipc_err ''action_failed'' (shed_error_text e)), a\<lparr>ax_backend := b\<rparr>)
       | (Inr i, b) \<Rightarrow>
           (Inr (JObj [(''create_id'', JStr i)]),
            ax (AxCreate i (par_str params ''host'') (create_request name params)) (a\<lparr>ax_backend := b\<rparr>))) a"

definition h_create_status :: handler where
  "h_create_status w params a =
     with_par (req_str params ''create_id'') (\<lambda>i a.
       (Inr (case backend_create_status i (ax_backend a) of
               Some p \<Rightarrow> encode_create_progress p | None \<Rightarrow> JObj [(''state'', JStr ''unknown'')]), a)) a"

definition h_create_cancel :: handler where
  "h_create_cancel w params a =
     with_par (req_str params ''create_id'') (\<lambda>i a. done_ok (a\<lparr>ax_backend := backend_create_cancel i (ax_backend a)\<rparr>)) a"

definition h_system_df :: handler where
  "h_system_df w params a =
     (case backend_system_df (wo_parse w) (wo_envs w) (ax_backend a) of
        (rows, b) \<Rightarrow> (Inr (JObj [(''usage'', JArr (map encode_host_disk_usage rows))]), a\<lparr>ax_backend := b\<rparr>))"

definition term_request_of :: "json \<Rightarrow> string \<Rightarrow> term_request" where
  "term_request_of params shed =
     \<lparr>tr_host = par_str params ''host'', tr_shed = shed, tr_session = par_str params ''session'',
      tr_preset = par_str params ''preset'', tr_template = par_str params ''template''\<rparr>"

definition h_terminal_preview :: handler where
  "h_terminal_preview w params a =
     with_par (req_str params ''shed'') (\<lambda>shed a.
       (term_preview (wo_host w) (ax_scripts_dir a) (ax_backend a) (ax_prefs a) (term_request_of params shed), a)) a"

definition h_terminal_open :: handler where
  "h_terminal_open w params a =
     (if ae_test_mode (ax_env a)
      then (Inl (ipc_err ''not_enabled'' ''terminal.open is disabled in test mode (use terminal.preview)''), a)
      else with_par (req_str params ''shed'') (\<lambda>shed a.
        case term_open (wo_host w) (wo_spawn w) (ax_scripts_dir a) (ax_backend a) (ax_prefs a) (term_request_of params shed) of
          (r, started) \<Rightarrow> (r, case started of Some li \<Rightarrow> ax (AxSpawn li) a | None \<Rightarrow> a)) a)"

definition h_terminal_presets :: handler where
  "h_terminal_presets w params a = (Inr (term_presets (wo_host w)), a)"

definition h_prefs_get :: handler where
  "h_prefs_get w params a = (Inr (term_prefs_get (ax_prefs a)), a)"

definition h_prefs_set_terminal :: handler where
  "h_prefs_set_terminal w params a =
     with_par (req_str params ''preset'') (\<lambda>preset a.
       case term_set_terminal (wo_ser w) (wo_write w) preset (par_str params ''template'') (ax_prefs a) of
         (r, st) \<Rightarrow> (r, a\<lparr>ax_prefs := st\<rparr>)) a"

section \<open>Remote control\<close>

definition h_rc_classify :: handler where
  "h_rc_classify w params a =
     with_par (rc_kind_param params) (\<lambda>kind. with_par (req_str params ''pane'') (\<lambda>pane a.
       (Inr (encode_rc_classification (classify_pane (wo_regex w) kind pane)), a))) a"

abbreviation (input) home_of :: "world \<Rightarrow> string option" where
  "home_of w \<equiv> hv_vars (wo_host w) ''HOME''"

definition h_rc_list :: handler where
  "h_rc_list w params a =
     (case rc_targets (wo_parse w) (wo_envs w) (home_of w) (par_str params ''host'') (par_str params ''shed'') (ax_backend a) of
        (targets, b) \<Rightarrow>
          (case rc_list (wo_parse w) (le_bin (wo_launch w)) (wo_outputs w) targets (par_str params ''host'')
                  (par_str params ''shed'') (ax_rc a) of
             (sessions, svc, calls) \<Rightarrow>
               (Inr (JObj [(''sessions'', JArr (map encode_rc_session sessions))]),
                fold (ax \<circ> AxRcCall) calls (a\<lparr>ax_backend := b, ax_rc := svc\<rparr>))))"

definition rc_target_par :: "world \<Rightarrow> json \<Rightarrow> app \<Rightarrow> ipc_error + rc_target" where
  "rc_target_par w params a =
     map_err (\<lambda>e. ipc_err ''bad_request'' (shed_error_text e)) (resolve_rc_target (home_of w) (par_str params ''host'') (ax_backend a))"

definition opt_call :: "rc_call option \<Rightarrow> app \<Rightarrow> app" where
  "opt_call c a = (case c of Some x \<Rightarrow> ax (AxRcCall x) a | None \<Rightarrow> a)"

definition h_rc_launch :: handler where
  "h_rc_launch w params a =
     with_par (req_str params ''shed'') (\<lambda>shed. with_par (rc_kind_param params) (\<lambda>kind. with_par (rc_target_par w params a) (\<lambda>target a.
       case launch (wo_parse w) (wo_launch w)
              \<lparr>lp_target = target, lp_shed = shed, lp_kind = kind, lp_display_name = par_str params ''display_name'',
               lp_workdir = par_str params ''workdir'', lp_prompt = par_str params ''initial_prompt''\<rparr> (ax_rc a) of
         (r, svc, call) \<Rightarrow>
           (case r of Inr s \<Rightarrow> Inr (encode_rc_session s) | Inl e \<Rightarrow> Inl (rc_err e), opt_call call (a\<lparr>ax_rc := svc\<rparr>))))) a"

definition h_rc_kill :: handler where
  "h_rc_kill w params a =
     with_par (req_str params ''shed'') (\<lambda>shed. with_par (req_str params ''slug'') (\<lambda>slug. with_par (rc_target_par w params a) (\<lambda>target a.
       case rc_kill (le_bin (wo_launch w)) (wo_output w) target shed slug (ax_rc a) of
         (r, svc, call) \<Rightarrow>
           (case r of Inr _ \<Rightarrow> Inr (JObj []) | Inl e \<Rightarrow> Inl (rc_err e), opt_call call (a\<lparr>ax_rc := svc\<rparr>))))) a"

definition build_inject_session :: "world \<Rightarrow> json \<Rightarrow> app \<Rightarrow> ipc_error + rc_session" where
  "build_inject_session w params a =
     bind_result (req_str params ''shed'') (\<lambda>shed.
     bind_result (req_str params ''slug'') (\<lambda>slug.
     bind_result (case par_str params ''host'' of
         Some h \<Rightarrow> Inr h
       | None \<Rightarrow> map_err (\<lambda>e. ipc_err ''bad_request'' (shed_error_text e))
                   (bind_result (resolve_rc_target (home_of w) None (ax_backend a)) (\<lambda>t. Inr (rt_server_name t)))) (\<lambda>host.
       let managed = unwrap_or (Option.bind (json_get params ''managed'') as_bool) False in
       Inr \<lparr>rs_host = host, rs_shed = shed, rs_slug = slug, rs_tmux_session = tmux_name slug,
            rs_display_name = unwrap_or (par_str params ''display_name'') (if managed then slug else shed @ ''/'' @ slug),
            rs_workdir = unwrap_or (par_str params ''workdir'') default_workdir,
            rs_kind = unwrap_or (Option.bind (json_get params ''kind'') decode_rc_kind) ClaudeRc,
            rs_state = unwrap_or (Option.bind (json_get params ''state'') decode_rc_state) RcReady,
            rs_url = par_str params ''url'', rs_rc_id = par_str params ''rc_id'', rs_created_by = par_str params ''created_by'',
            rs_created_at = par_str params ''created_at'', rs_target_label = par_str params ''target_label'',
            rs_managed = managed\<rparr>)))"

definition h_rc_inject_test :: handler where
  "h_rc_inject_test w params a =
     (if \<not> ae_test_mode (ax_env a) then (Inl (ipc_err ''not_enabled'' ''rc.inject_test requires test mode''), a)
      else with_par (build_inject_session w params a) (\<lambda>s a.
        case inject_test s (ax_rc a) of
          (Inl e, svc) \<Rightarrow> (Inl (rc_err e), a\<lparr>ax_rc := svc\<rparr>)
        | (Inr _, svc) \<Rightarrow> done_ok (a\<lparr>ax_rc := svc\<rparr>)) a)"

definition h_agents_dump :: handler where
  "h_agents_dump w params a =
     (let on_agents = (Option.bind (main_get a ''pane'') as_str = Some ''agents'')
      in (Inr (JObj [(''sessions'', if on_agents then unwrap_or (main_get a ''agents'') (JArr []) else JArr [])]), a))"

section \<open>Approvals\<close>

definition h_approvals_list :: handler where
  "h_approvals_list w params a =
     (case ask w (CApprovalsList (wo_reply w)) a of
        (ans, a) \<Rightarrow> (Inr (JObj [(''approvals'', JArr (case ans of Some (AnsItems xs) \<Rightarrow> map encode_pending_item xs | _ \<Rightarrow> []))]), a))"

definition decode_decide_params :: "json \<Rightarrow> (string \<times> approval_choice) option" where
  "decode_decide_params v =
     do { fs \<leftarrow> struct_fields [(''id'', False), (''decision'', False), (''scope'', False), (''ttl'', False), (''persist'', True)] v;
          i \<leftarrow> rd_req as_str fs ''id'';
          d \<leftarrow> rd_req decode_decision fs ''decision'';
          sc \<leftarrow> rd_opt decode_approval_scope fs ''scope'';
          t \<leftarrow> rd_opt as_str fs ''ttl'';
          p \<leftarrow> rd_default False as_bool fs ''persist'';
          Some (i, \<lparr>ch_decision = d, ch_scope = sc, ch_ttl = t, ch_persist = p\<rparr>) }"

definition h_approval_decide :: handler where
  "h_approval_decide w params a =
     with_par (serde_par w decode_decide_params params) (\<lambda>(i, choice) a.
       done_ok (snd (ask w (CDecide i choice (wo_reply w)) a))) a"

definition h_activity_list :: handler where
  "h_activity_list w params a =
     (case ask w (CActivityList (unwrap_or (Option.bind (json_get params ''limit'') as_u64) 200) (wo_reply w)) a of
        (ans, a) \<Rightarrow> (Inr (JObj [(''entries'', JArr (case ans of Some (AnsEntries xs) \<Rightarrow> map encode_audit_entry xs | _ \<Rightarrow> []))]), a))"

definition h_activity_log_path :: handler where
  "h_activity_log_path w params a =
     (case ask w (CAuditLogPath (wo_reply w)) a of
        (ans, a) \<Rightarrow> (Inr (JObj [(''path'', JStr (case ans of Some (AnsText t) \<Rightarrow> t | _ \<Rightarrow> []))]), a))"

definition h_policy_set :: handler where
  "h_policy_set w params a =
     (if \<not> ae_test_mode (ax_env a) then (Inl (ipc_err ''not_enabled'' ''policy.set requires test mode''), a)
      else with_par (serde_par w (\<lambda>v. do { fs \<leftarrow> struct_fields [(''rules'', False)] v;
                                             rd_req (as_list decode_policy_rule) fs ''rules'' }) params) (\<lambda>rules a.
        done_ok (snd (ask w (CSetPolicyRules rules (wo_reply w)) a))) a)"

definition h_policy_list :: handler where
  "h_policy_list w params a =
     (case ask w (CPolicyList (wo_reply w)) a of
        (ans, a) \<Rightarrow> (Inr (JObj [(''rules'', JArr (case ans of Some (AnsRules xs) \<Rightarrow> map encode_policy_rule xs | _ \<Rightarrow> []))]), a))"

definition h_notifications_list :: handler where
  "h_notifications_list w params a =
     (case ask w (CNotificationsList (wo_reply w)) a of
        (ans, a) \<Rightarrow> (Inr (JObj [(''notifications'',
                        JArr (case ans of Some (AnsNotifications xs) \<Rightarrow> map encode_notification xs | _ \<Rightarrow> []))]), a))"

text \<open>The second channel of the command is the one whose answer nobody waits for.\<close>

definition h_notification_invoke :: handler where
  "h_notification_invoke w params a =
     with_par (req_str params ''id'') (\<lambda>i.
     with_par (ok_or (ipc_err ''bad_request'' (''action: '' @ wo_serde_error w params))
                (decode_decision (unwrap_or (json_get params ''action'') JNull))) (\<lambda>action a.
       case ask w (CNotificationInvoke i action (wo_reply w + 1) (wo_reply w)) a of
         (ans, a) \<Rightarrow>
           if ans = Some (AnsBool True) then done_ok a
           else (Inl (ipc_err ''not_found'' (''no posted notification '' @ i)), a))) a"

definition h_set_ssh_approval :: handler where
  "h_set_ssh_approval w params a =
     with_par (serde_par w (\<lambda>v. do { fs \<leftarrow> struct_fields [(''method'', False), (''policy'', False), (''ttl'', False)] v;
                                       m \<leftarrow> rd_opt decode_approval_method fs ''method'';
                                       p \<leftarrow> rd_opt decode_ssh_policy fs ''policy'';
                                       t \<leftarrow> rd_opt as_str fs ''ttl'';
                                       Some (m, p, t) }) params) (\<lambda>(m, p, t) a.
       let a = snd (ask w (CSetSshApproval m p t (wo_reply w)) a) in
       case ask w (CSshPrefs (wo_reply w)) a of
         (ans, a) \<Rightarrow>
           done_ok (a\<lparr>ax_prefs := prefs_set_ssh (wo_ser w) (wo_write w)
                        (ssh_prefs_wire (case ans of Some (AnsPrefs x) \<Rightarrow> x | _ \<Rightarrow> default_ssh_prefs)) (ax_prefs a)\<rparr>)) a"

definition h_ssh_prefs :: handler where
  "h_ssh_prefs w params a =
     (case ask w (CSshPrefs (wo_reply w)) a of
        (ans, a) \<Rightarrow> (Inr (encode_ssh_prefs (case ans of Some (AnsPrefs x) \<Rightarrow> x | _ \<Rightarrow> default_ssh_prefs)), a))"

section \<open>Dispatch\<close>

definition op_table :: "(string \<times> handler) list" where
  "op_table =
     [(''identify'', h_identify), (''ui.navigate'', h_navigate), (''ui.current_pane'', h_ui_key ''pane'' ''pane''),
      (''ui.computed_style'', h_ui_key ''style'' ''style''), (''ui.modal'', h_ui_key ''modal'' ''modal''),
      (''ui.show_window'', h_present []), (''app.activate'', h_present []),
      (''ui.show_preferences'', h_present [(''show-preferences'', JObj [])]),
      (''ui.show_create'', h_present [(''show-create'', JObj [])]),
      (''app.screenshot'', h_screenshot), (''sheds.list'', h_sheds_list), (''sheds.refresh'', h_sheds_refresh),
      (''dashboard.dump'', h_dashboard_dump), (''shed.start'', h_shed_action ''start''),
      (''shed.stop'', h_shed_action ''stop''), (''shed.reset'', h_shed_action ''reset''),
      (''shed.delete'', h_shed_action ''delete''), (''create.start'', h_create_start),
      (''create.status'', h_create_status), (''create.cancel'', h_create_cancel), (''system.df'', h_system_df),
      (''terminal.preview'', h_terminal_preview), (''terminal.open'', h_terminal_open),
      (''terminal.presets'', h_terminal_presets), (''rc.classify'', h_rc_classify), (''rc.list'', h_rc_list),
      (''rc.launch'', h_rc_launch), (''rc.kill'', h_rc_kill), (''rc.inject_test'', h_rc_inject_test),
      (''agents.dump'', h_agents_dump), (''prefs.get'', h_prefs_get), (''prefs.set_terminal'', h_prefs_set_terminal),
      (''approvals.list'', h_approvals_list), (''approval.decide'', h_approval_decide),
      (''activity.list'', h_activity_list), (''activity.log_path'', h_activity_log_path),
      (''policy.set'', h_policy_set), (''policy.list'', h_policy_list),
      (''notifications.list'', h_notifications_list), (''notification.invoke'', h_notification_invoke),
      (''notification.open'', h_present [(''navigate'', JObj [(''pane'', JStr ''approvals'')])]),
      (''ui.set_ssh_approval'', h_set_ssh_approval), (''ui.ssh_prefs'', h_ssh_prefs),
      (''loginitem.status'', h_login_status), (''loginitem.set'', h_login_set), (''tray.show'', h_tray AxTrayShow),
      (''tray.toggle'', h_tray AxTrayToggle), (''tray.hide'', h_tray AxTrayHide), (''tray.dump'', h_tray_dump)]"

definition dispatch :: "string \<Rightarrow> handler" where
  "dispatch op w params a =
     (case map_of op_table op of
        Some h \<Rightarrow> h w params a
      | None \<Rightarrow> (Inl (ipc_err ''unknown_op'' (''unknown op: '' @ op)), a))"

end
