(* ===== verification/Ipc_Safety.thy ===== *)
theory Ipc_Safety
  imports Ipc
begin

text \<open>
  What a client of the IPC socket can make the app do. One relation says what every operation keeps and which
  commands reach the coordinator; it is proved per handler and lifted to whole sessions.
\<close>

section \<open>What an operation keeps\<close>

text \<open>The commands a client can send; replacing the policy rules needs test mode.\<close>

fun client_command :: "bool \<Rightarrow> command \<Rightarrow> bool" where
  "client_command test_mode (CHost ev) = False"
| "client_command test_mode (CExpire r) = False"
| "client_command test_mode (CGateResolved i req g choice outcome r) = False"
| "client_command test_mode (CSetPolicyRules rules r) = test_mode"
| "client_command test_mode c = True"

inductive commanded :: "(command \<Rightarrow> bool) \<Rightarrow> coord \<Rightarrow> coord \<Rightarrow> bool" for P where
  commanded_refl: "commanded P s s"
| commanded_step: "commanded P s t \<Longrightarrow> P c \<Longrightarrow> commanded P s (run_command env c t)"

lemma commanded_trans: "commanded P t u \<Longrightarrow> commanded P s t \<Longrightarrow> commanded P s u"
  by (induction rule: commanded.induct) (auto intro: commanded.intros)

text \<open>The screenshot tools, with the arguments they get before the path of the output file.\<close>

definition capture_tools :: "(string \<times> string list) list" where
  "capture_tools = [(''screencapture'', [''-x'', ''-t'', ''png'']), (''grim'', []), (''scrot'', []),
     (''import'', [''-window'', ''root''])]"

text \<open>
  Under test no terminal is started and no process of the remote-control service. A screenshot tool is, in
  either mode, where screenshots are allowed at all.
\<close>

fun hermetic :: "bool \<Rightarrow> bool \<Rightarrow> bool \<Rightarrow> app_fx \<Rightarrow> bool" where
  "hermetic sh app_test rc_test (AxSpawn li) = (\<not> app_test)"
| "hermetic sh app_test rc_test (AxRcCall c) = (\<not> rc_test)"
| "hermetic sh app_test rc_test (AxTool tool args) = (sh \<and> (tool, args) \<in> set capture_tools)"
| "hermetic sh app_test rc_test e = True"

abbreviation app_test :: "app \<Rightarrow> bool" where "app_test a \<equiv> ae_test_mode (ax_env a)"
abbreviation rc_test :: "app \<Rightarrow> bool" where "rc_test a \<equiv> sv_test_mode (ax_rc a)"

text \<open>Whether screenshot tools are started is a parameter: only one operation starts them.\<close>

definition keeps_with :: "bool \<Rightarrow> app \<Rightarrow> app \<Rightarrow> bool" where
  "keeps_with sh a a' \<longleftrightarrow>
     ax_env a' = ax_env a \<and> rc_test a' = rc_test a
     \<and> commanded (client_command (app_test a)) (ax_coord a) (ax_coord a')
     \<and> (\<exists>fxs. ax_fx a' = ax_fx a @ fxs \<and> list_all (hermetic sh (app_test a) (rc_test a)) fxs)"

abbreviation keeps :: "app \<Rightarrow> app \<Rightarrow> bool" where
  "keeps \<equiv> keeps_with True"

named_theorems handler_keeps "what each handler of the IPC socket keeps"

lemma keeps_refl [simp]: "keeps_with sh a a"
  by (simp add: keeps_with_def commanded_refl)

lemma keeps_trans: "keeps_with sh a b \<Longrightarrow> keeps_with sh b c \<Longrightarrow> keeps_with sh a c"
  by (auto simp: keeps_with_def intro: commanded_trans)

lemma keeps_ax: "hermetic sh (app_test b) (rc_test b) e \<Longrightarrow> keeps_with sh a b \<Longrightarrow> keeps_with sh a (ax e b)"
  by (rule keeps_trans [of sh a b]) (auto simp: keeps_with_def ax_def commanded_refl)

lemma keeps_update:
  "keeps_with sh a (b\<lparr>ax_ui := u\<rparr>) \<longleftrightarrow> keeps_with sh a b"
  "keeps_with sh a (b\<lparr>ax_backend := x\<rparr>) \<longleftrightarrow> keeps_with sh a b"
  "keeps_with sh a (b\<lparr>ax_prefs := p\<rparr>) \<longleftrightarrow> keeps_with sh a b"
  "keeps_with sh a (b\<lparr>ax_refresh_seq := n\<rparr>) \<longleftrightarrow> keeps_with sh a b"
  "keeps_with sh a (b\<lparr>ax_login_cell := l\<rparr>) \<longleftrightarrow> keeps_with sh a b"
  "sv_test_mode svc = rc_test b \<Longrightarrow> keeps_with sh a (b\<lparr>ax_rc := svc\<rparr>) \<longleftrightarrow> keeps_with sh a b"
  by (auto simp: keeps_with_def)

lemma keeps_ask:
  assumes "client_command (app_test b) c" "keeps_with sh a b"
  shows "keeps_with sh a (snd (ask w c b))"
  using assms(2)
proof (rule keeps_trans)
  show "keeps_with sh b (snd (ask w c b))"
    using assms(1) by (auto simp: keeps_with_def ask_def ax_def Let_def intro: commanded.intros)
qed

lemma keeps_with_par: "(\<And>p. r = Inr p \<Longrightarrow> keeps_with sh a (snd (f p a))) \<Longrightarrow> keeps_with sh a (snd (with_par r f a))"
  by (simp add: with_par_def split: sum.splits)

lemma app_test_ask [simp]: "ax_env (snd (ask w c b)) = ax_env b"
  by (simp add: ask_def ax_def Let_def)

lemma ax_fields [simp]: "ax_env (ax e b) = ax_env b" "ax_rc (ax e b) = ax_rc b"
  by (simp_all add: ax_def)

lemma keeps_calls: "keeps_with sh a b \<Longrightarrow> (calls \<noteq> [] \<Longrightarrow> \<not> rc_test b) \<Longrightarrow> keeps_with sh a (fold (ax \<circ> AxRcCall) calls b)"
  by (induction calls arbitrary: b) (simp_all add: keeps_ax)

lemma rc_test_ops:
  "sv_test_mode (fst (snd (launch parse env p svc))) = sv_test_mode svc"
  "sv_test_mode svc \<Longrightarrow> snd (snd (launch parse env p svc)) = None"
  "sv_test_mode (fst (snd (rc_kill bin res target shed slug svc))) = sv_test_mode svc"
  "sv_test_mode svc \<Longrightarrow> snd (snd (rc_kill bin res target shed slug svc)) = None"
  "sv_test_mode (fst (snd (rc_list parse bin outs targets host sel svc))) = sv_test_mode svc"
  "sv_test_mode svc \<Longrightarrow> snd (snd (rc_list parse bin outs targets host sel svc)) = []"
  "sv_test_mode (snd (inject_test s svc)) = sv_test_mode svc"
  by (auto simp: launch_def rc_kill_def rc_list_def inject_test_def store_session_def Let_def split: sum.splits prod.splits)

section \<open>Every handler\<close>

lemma keeps_same_state [handler_keeps]:
  "keeps_with sh a (snd (h_identify w params a))" "keeps_with sh a (snd (h_ui_key f k w params a))"
  "keeps_with sh a (snd (h_tray_dump w params a))"
  "keeps_with sh a (snd (h_login_status w params a))" "keeps_with sh a (snd (h_dashboard_dump w params a))"
  "keeps_with sh a (snd (h_terminal_presets w params a))" "keeps_with sh a (snd (h_prefs_get w params a))"
  "keeps_with sh a (snd (h_agents_dump w params a))"
  by (simp_all add: h_identify_def h_ui_key_def h_tray_dump_def h_login_status_def h_dashboard_dump_def
      h_terminal_presets_def h_prefs_get_def h_agents_dump_def Let_def)

lemma keeps_tools:
  "set tools \<subseteq> set capture_tools \<Longrightarrow> sh \<Longrightarrow> keeps_with sh a b \<Longrightarrow> keeps_with sh a (fold (\<lambda>(tool, args). ax (AxTool tool args)) tools b)"
  by (induction tools arbitrary: b) (auto simp: keeps_ax)

lemma keeps_screenshot [handler_keeps]: "sh \<Longrightarrow> keeps_with sh a (snd (h_screenshot w params a))"
proof -
  have "set (shot_candidates macos) \<subseteq> set capture_tools" for macos by (auto simp: shot_candidates_def capture_tools_def)
  then have "set (tools_run wayland tool (shot_candidates macos)) \<subseteq> set capture_tools" for wayland tool macos
    using tools_run_candidates by blast
  then show "sh \<Longrightarrow> keeps_with sh a (snd (h_screenshot w params a))"
    by (simp add: h_screenshot_def Let_def keeps_tools)
qed

lemma keeps_emits: "keeps_with sh a b \<Longrightarrow> keeps_with sh a (fold (\<lambda>(name, v). ax (AxEmit name v)) events b)"
  by (induction events arbitrary: b) (simp_all add: keeps_ax split_beta)

lemma keeps_windows [handler_keeps]:
  "keeps_with sh a (snd (h_navigate w params a))" "keeps_with sh a (snd (h_present events w params a))"
  "keeps_with sh a (snd (h_tray AxTrayShow w params a))" "keeps_with sh a (snd (h_tray AxTrayToggle w params a))"
  "keeps_with sh a (snd (h_tray AxTrayHide w params a))"
  by (auto simp: h_navigate_def h_present_def h_tray_def Let_def intro!: keeps_ax keeps_emits)

lemma keeps_login [handler_keeps]: "keeps_with sh a (snd (h_login_set w params a))"
  unfolding h_login_set_def
proof (rule keeps_with_par)
  fix enabled
  have "keeps_with sh a (snd (login_item_set w enabled a))"
    by (simp add: login_item_set_def keeps_update)
  then show "keeps_with sh a (snd (case login_item_set w enabled a of
      (Inl e, a) \<Rightarrow> (Inl (ipc_err ''action_failed'' e), a) | (Inr _, a) \<Rightarrow> done_ok a))"
    by (cases "login_item_set w enabled a"; cases "fst (login_item_set w enabled a)") simp_all
qed

lemma keeps_refresh [handler_keeps]: "keeps_with sh a (snd (h_sheds_refresh w params a))"
  by (auto simp: h_sheds_refresh_def Let_def keeps_update intro!: keeps_ax)

lemma keeps_sheds [handler_keeps]:
  "keeps_with sh a (snd (h_sheds_list w params a))" "keeps_with sh a (snd (h_system_df w params a))"
  "keeps_with sh a (snd (h_shed_action act w params a))" "keeps_with sh a (snd (h_create_start w params a))"
  "keeps_with sh a (snd (h_create_status w params a))" "keeps_with sh a (snd (h_create_cancel w params a))"
  unfolding h_sheds_list_def h_system_df_def h_shed_action_def h_create_start_def h_create_status_def h_create_cancel_def
  by (auto simp: keeps_update intro!: keeps_with_par keeps_ax split: prod.splits sum.splits)

lemma keeps_terminal [handler_keeps]:
  "keeps_with sh a (snd (h_terminal_preview w params a))" "keeps_with sh a (snd (h_terminal_open w params a))"
  "keeps_with sh a (snd (h_prefs_set_terminal w params a))"
  unfolding h_terminal_preview_def h_terminal_open_def h_prefs_set_terminal_def
  by (auto simp: keeps_update intro!: keeps_with_par keeps_ax split: prod.splits option.splits)

lemma keeps_opt_call: "keeps_with sh a b \<Longrightarrow> (rc_test b \<Longrightarrow> c = None) \<Longrightarrow> keeps_with sh a (opt_call c b)"
  by (auto simp: opt_call_def intro!: keeps_ax split: option.splits)

lemma keeps_rc_list [handler_keeps]: "keeps_with sh a (snd (h_rc_list w params a))"
  by (auto simp: h_rc_list_def split_beta keeps_update rc_test_ops intro!: keeps_calls)

lemma keeps_rc_classify [handler_keeps]: "keeps_with sh a (snd (h_rc_classify w params a))"
  unfolding h_rc_classify_def by (intro keeps_with_par) simp

lemma keeps_rc_launch [handler_keeps]: "keeps_with sh a (snd (h_rc_launch w params a))"
  unfolding h_rc_launch_def
  by (intro keeps_with_par) (auto simp: split_beta keeps_update rc_test_ops intro!: keeps_opt_call)

lemma keeps_rc_kill [handler_keeps]: "keeps_with sh a (snd (h_rc_kill w params a))"
  unfolding h_rc_kill_def
  by (intro keeps_with_par) (auto simp: split_beta keeps_update rc_test_ops intro!: keeps_opt_call)

lemma keeps_rc_inject [handler_keeps]: "keeps_with sh a (snd (h_rc_inject_test w params a))"
proof (cases "app_test a")
  case True
  then show ?thesis
    unfolding h_rc_inject_test_def
    by (simp, intro keeps_with_par) (simp add: inject_test_def keeps_update store_session_def)
next
  case False
  then show ?thesis by (simp add: h_rc_inject_test_def)
qed

lemma keeps_approvals [handler_keeps]:
  "keeps_with sh a (snd (h_approvals_list w params a))" "keeps_with sh a (snd (h_activity_list w params a))"
  "keeps_with sh a (snd (h_activity_log_path w params a))" "keeps_with sh a (snd (h_policy_list w params a))"
  "keeps_with sh a (snd (h_notifications_list w params a))" "keeps_with sh a (snd (h_ssh_prefs w params a))"
  using keeps_ask [of a _ sh a w]
  by (simp_all add: h_approvals_list_def h_activity_list_def h_activity_log_path_def h_policy_list_def h_notifications_list_def
      h_ssh_prefs_def split: prod.splits) (metis client_command.simps snd_conv)+

lemma keeps_decide [handler_keeps]: "keeps_with sh a (snd (h_approval_decide w params a))"
  unfolding h_approval_decide_def by (intro keeps_with_par) (auto intro!: keeps_ask)

lemma keeps_policy_set [handler_keeps]: "keeps_with sh a (snd (h_policy_set w params a))"
  unfolding h_policy_set_def by (auto intro!: keeps_with_par keeps_ask)

lemma keeps_invoke [handler_keeps]: "keeps_with sh a (snd (h_notification_invoke w params a))"
  unfolding h_notification_invoke_def
  by (intro keeps_with_par) (use keeps_ask [of a _ sh a w] in \<open>auto split: prod.splits\<close>, (metis client_command.simps(11) snd_conv)+)

lemma keeps_set_ssh [handler_keeps]: "keeps_with sh a (snd (h_set_ssh_approval w params a))"
  unfolding h_set_ssh_approval_def
  by (intro keeps_with_par) (auto simp: keeps_update Let_def split_beta intro!: keeps_ask)

lemma keeps_table:
  "list_all (\<lambda>(op, h). sh \<or> op \<noteq> ''app.screenshot'' \<longrightarrow> (\<forall>w params a. keeps_with sh a (snd (h w params a)))) op_table"
  unfolding op_table_def by (simp add: handler_keeps)

lemma keeps_dispatch: "sh \<or> op \<noteq> ''app.screenshot'' \<Longrightarrow> keeps_with sh a (snd (dispatch op w params a))"
  using keeps_table [of sh] by (auto simp: dispatch_def list_all_iff dest!: map_of_SomeD split: option.splits)


section \<open>The policy in force\<close>

text \<open>The rules are the ones that the settings, the provider modes and the persisted shed rules give.\<close>

definition policy_current :: "coord \<Rightarrow> bool" where
  "policy_current s \<longleftrightarrow> engine s = engine (rebuild_policy s)"

lemma policy_current_cong:
  "engine s' = engine s \<Longrightarrow> ssh s' = ssh s \<Longrightarrow> provider_modes s' = provider_modes s \<Longrightarrow> extra_rules s' = extra_rules s
   \<Longrightarrow> policy_current s' = policy_current s"
  by (simp add: policy_current_def rebuild_policy_def provider_mode_def Let_def)

lemma policy_current_rebuild [simp]: "policy_current (rebuild_policy s)" "policy_current (add_shed_rule sv sh d s)"
  by (simp_all add: policy_current_def rebuild_policy_def provider_mode_def add_shed_rule_def Let_def)

lemma policy_current_simps [simp]:
  "policy_current (fx e s) = policy_current s"
  "policy_current (record_and_respond env req d b p sc t s) = policy_current s"
  "policy_current (respond_and_audit env req d b p sc t s) = policy_current s"
  "policy_current (audit_entry_append e' s) = policy_current s"
  "policy_current (s\<lparr>gating := g\<rparr>) = policy_current s"
  "policy_current (s\<lparr>pending := m\<rparr>) = policy_current s"
  "policy_current (s\<lparr>session_grants := gs\<rparr>) = policy_current s"
  "policy_current (s\<lparr>last_error := er\<rparr>) = policy_current s"
  "policy_current (s\<lparr>gate_namespaces := gn\<rparr>) = policy_current s"
  by (rule policy_current_cong; simp add: record_and_respond_def respond_and_audit_def audit_entry_append_def)+

lemma policy_current_bookkeeping:
  "policy_current s \<Longrightarrow> decision_bookkeeping env req choice s = (s', l, sc, t) \<Longrightarrow> policy_current s'"
  by (auto simp: decision_bookkeeping_def Let_def split: if_splits option.splits approval_scope.splits)

lemma policy_current_finish: "policy_current s \<Longrightarrow> policy_current (finish_decide env i req g choice outcome s)"
  by (auto simp: finish_decide_def commit_decision_def Let_def split: option.splits prod.splits
      dest!: policy_current_bookkeeping [rotated])

lemma policy_current_begin: "policy_current s \<Longrightarrow> policy_current (begin_decide env i choice rep s)"
  by (auto simp: begin_decide_def policy_current_finish split: option.splits)

lemma policy_current_reevaluate: "policy_current s \<Longrightarrow> policy_current (reevaluate_one env gs i s)"
  by (auto simp: reevaluate_one_def Let_def split: option.splits)

lemma policy_current_set_ssh: "policy_current (set_ssh_approval env m p t s)"
  unfolding set_ssh_approval_def reevaluate_pending_def Let_def
  by (simp, rule fold_keeps [where P = policy_current]) (simp_all add: reset_ssh_grants_def policy_current_reevaluate)

lemma policy_current_command: "client_command False c \<Longrightarrow> policy_current s \<Longrightarrow> policy_current (run_command env c s)"
  by (cases c) (simp_all add: policy_current_begin policy_current_set_ssh Let_def)

lemma policy_current_commanded: "commanded (client_command False) s t \<Longrightarrow> policy_current s \<Longrightarrow> policy_current t"
  by (induction rule: commanded.induct) (simp_all add: policy_current_command)

section \<open>Sessions\<close>

text \<open>A session: requests of any clients, each with the surroundings it met.\<close>

type_synonym ipc_request = "world \<times> string \<times> json"

definition ipc_exec :: "ipc_request \<Rightarrow> app \<Rightarrow> app" where
  "ipc_exec = (\<lambda>(w, op, params) a. snd (dispatch op w params a))"

interpretation ipc: machine ipc_exec "keeps a" for a
  by unfold_locales (auto simp: ipc_exec_def intro: keeps_trans keeps_dispatch)

lemma session_without_screenshot:
  "''app.screenshot'' \<notin> (\<lambda>(w, op, params). op) ` set reqs \<Longrightarrow> keeps_with False a (fold ipc_exec reqs a)"
proof (induction reqs rule: rev_induct)
  case (snoc r reqs)
  obtain w op params where r: "r = (w, op, params)" by (cases r)
  then have "keeps_with False (fold ipc_exec reqs a) (snd (dispatch op w params (fold ipc_exec reqs a)))"
    using snoc.prems by (intro keeps_dispatch) auto
  then show ?case using snoc r keeps_trans by (auto simp: ipc_exec_def)
qed simp

text \<open>
  C15. What a client of the IPC socket cannot do. In production, over every session of requests, whatever their
  operation and parameters: only user-level commands reach the coordinator (no host-agent event, no expiry,
  no gate result, no rule set), so the policy in force stays the one the SSH settings, provider modes and
  persisted rules give; and \<^verbatim>\<open>policy.set\<close> and \<^verbatim>\<open>rc.inject_test\<close> are refused with nothing changed. Under test
  no operation starts a terminal or a process of the remote-control service; the one kind of process that an
  operation still starts is a screenshot tool, one of the four with its fixed arguments, and only
  \<^verbatim>\<open>app.screenshot\<close> starts those.
\<close>

theorem ipc_clients_are_unprivileged:
  fixes a :: app
  assumes "final = fold ipc_exec reqs a"
  shows "(\<not> app_test a \<longrightarrow>
            commanded (client_command False) (ax_coord a) (ax_coord final)
            \<and> (policy_current (ax_coord a) \<longrightarrow> policy_current (ax_coord final))
            \<and> dispatch ''policy.set'' w params final = (Inl (''not_enabled'', ''policy.set requires test mode''), final)
            \<and> dispatch ''rc.inject_test'' w params final = (Inl (''not_enabled'', ''rc.inject_test requires test mode''), final))
         \<and> (app_test a \<and> rc_test a \<longrightarrow>
              (\<forall>e \<in> set (drop (length (ax_fx a)) (ax_fx final)). (\<forall>li. e \<noteq> AxSpawn li) \<and> (\<forall>c. e \<noteq> AxRcCall c))
              \<and> (\<forall>tool args. AxTool tool args \<in> set (drop (length (ax_fx a)) (ax_fx final)) \<longrightarrow>
                   ''app.screenshot'' \<in> (\<lambda>(w, op, params). op) ` set reqs
                   \<and> (tool, args) \<in> {(''screencapture'', [''-x'', ''-t'', ''png'']), (''grim'', []), (''scrot'', []),
                                      (''import'', [''-window'', ''root''])}))"
proof -
  have k: "keeps a final" unfolding assms by (rule ipc.run_inv) simp
  then have env: "ax_env final = ax_env a" by (simp add: keeps_with_def)
  show ?thesis
  proof (intro conjI impI allI)
    assume p: "\<not> app_test a"
    with k show c: "commanded (client_command False) (ax_coord a) (ax_coord final)" by (simp add: keeps_with_def)
    show "dispatch ''policy.set'' w params final = (Inl (''not_enabled'', ''policy.set requires test mode''), final)"
      "dispatch ''rc.inject_test'' w params final = (Inl (''not_enabled'', ''rc.inject_test requires test mode''), final)"
      using p env by (simp_all add: dispatch_def op_table_def h_policy_set_def h_rc_inject_test_def ipc_err_def)
    show "policy_current (ax_coord final)" if "policy_current (ax_coord a)"
      using policy_current_commanded [OF c that] .
  next
    assume t: "app_test a \<and> rc_test a"
    with k obtain fxs where f: "ax_fx final = ax_fx a @ fxs" "list_all (hermetic True True True) fxs" by (auto simp: keeps_with_def)
    then show "\<forall>e \<in> set (drop (length (ax_fx a)) (ax_fx final)). (\<forall>li. e \<noteq> AxSpawn li) \<and> (\<forall>c. e \<noteq> AxRcCall c)"
      by (auto simp: list_all_iff)
    fix tool args
    assume tool: "AxTool tool args \<in> set (drop (length (ax_fx a)) (ax_fx final))"
    then show "(tool, args) \<in> {(''screencapture'', [''-x'', ''-t'', ''png'']), (''grim'', []), (''scrot'', []),
        (''import'', [''-window'', ''root''])}"
      using f by (force simp: list_all_iff capture_tools_def)
    show "''app.screenshot'' \<in> (\<lambda>(w, op, params). op) ` set reqs"
    proof (rule ccontr)
      assume "''app.screenshot'' \<notin> (\<lambda>(w, op, params). op) ` set reqs"
      then have "keeps_with False a final"
        unfolding assms by (intro session_without_screenshot) auto
      then show False using t tool by (force simp: keeps_with_def list_all_iff)
    qed
  qed
qed


definition demo_world :: world where
  "demo_world =
     \<lparr>wo_pid = 42, wo_cenv = demo_env 11, wo_reply = 1, wo_parse = (\<lambda>_. None), wo_ser = (\<lambda>_. ''{}''),
      wo_serde_error = (\<lambda>_. ''invalid''), wo_write = Written,
      wo_envs = (\<lambda>_. (demo_nenv (Inl (Transport ''x'')) (NetError []), demo_nenv (Inl (Transport ''x'')) (NetError []))),
      wo_net = (demo_nenv (Inl (Transport ''x'')) (NetError []), demo_nenv (Inl (Transport ''x'')) (NetError [])),
      wo_create_id = ''c1'', wo_between = [],
      wo_host = \<lparr>hv_macos = False, hv_vars = (\<lambda>_. None), hv_exists = (\<lambda>_. False), hv_is_file = (\<lambda>_. False)\<rparr>,
      wo_spawn = (\<lambda>_. None), wo_regex = \<lparr>re_is_match = (\<lambda>_ _. False), re_find = (\<lambda>_ _. None)\<rparr>,
      wo_launch = \<lparr>le_bytes = ''abcdef'', le_uuid = ''u'', le_now = ''now'', le_bin = None, le_output = Inl ''x''\<rparr>,
      wo_output = Inl ''x'', wo_outputs = (\<lambda>_. Inl ''x''), wo_uis = (\<lambda>_. []), wo_delay = (\<lambda>_. 0), wo_shot = None,
      wo_tool = (\<lambda>_ _. (ToolNotRun ''x'', Inl ''x'')),
      wo_base64 = (\<lambda>s. s), wo_login = (False, \<lambda>_. None), wo_tray = \<lparr>tv_present = False, tv_visible = False, tv_height = None\<rparr>\<rparr>"

definition demo_app :: "bool \<Rightarrow> app" where
  "demo_app test_mode =
     \<lparr>ax_env = \<lparr>ae_test_mode = test_mode, ae_mock_base_url = None, ae_config_path = [], ae_socket_path = ''/run/s.sock'',
                ae_host_agent_socket = ''/run/h.sock''\<rparr>,
      ax_ui = [], ax_backend = \<lparr>be_clients = [], be_ssh_targets = [], be_default_server = None, be_creates = []\<rparr>,
      ax_prefs = \<lparr>ps_inner = default_prefs, ps_file = None\<rparr>, ax_scripts_dir = None, ax_coord = demo_init,
      ax_rc = rc_new test_mode ''1'', ax_refresh_seq = 0, ax_login_cell = False, ax_fx = []\<rparr>"

lemma demo_app_fields [simp]:
  "app_test (demo_app t) = t" "rc_test (demo_app t) = t" "ax_coord (demo_app t) = demo_init" "ax_fx (demo_app t) = []"
  by (simp_all add: demo_app_def rc_new_def)

theorem ipc_clients_are_unprivileged_witness:
  "policy_current (ax_coord (fold ipc_exec
      [(demo_world, ''ui.set_ssh_approval'', JObj [(''policy'', JStr ''always-ask'')]), (demo_world, ''policy.set'', JObj [])]
      (demo_app False)))
   \<and> (\<forall>li. AxSpawn li \<notin> set (ax_fx (fold ipc_exec [(demo_world, ''terminal.open'', JObj [(''shed'', JStr ''web'')])] (demo_app True))))
   \<and> (\<forall>tool args. AxTool tool args \<notin> set (ax_fx (fold ipc_exec [(demo_world, ''terminal.open'', JObj [(''shed'', JStr ''web'')])] (demo_app True))))"
proof -
  have "policy_current demo_init" by (simp add: demo_init_def coord_init_def)
  then show ?thesis
    using ipc_clients_are_unprivileged [OF refl, where a = "demo_app False" and reqs =
        "[(demo_world, ''ui.set_ssh_approval'', JObj [(''policy'', JStr ''always-ask'')]), (demo_world, ''policy.set'', JObj [])]"]
      ipc_clients_are_unprivileged [OF refl, where a = "demo_app True" and reqs =
        "[(demo_world, ''terminal.open'', JObj [(''shed'', JStr ''web'')])]"]
    by auto
qed

text \<open>The exception is real: under test, on Linux without Wayland, \<^verbatim>\<open>app.screenshot\<close> runs \<^verbatim>\<open>scrot\<close> and then \<^verbatim>\<open>import\<close>.\<close>

lemma screenshot_starts_tools_under_test:
  "ax_fx (ipc_exec (demo_world, ''app.screenshot'', JObj []) (demo_app True))
     = [AxTool ''scrot'' [], AxTool ''import'' [''-window'', ''root'']]"
  by (simp add: ipc_exec_def dispatch_def op_table_def h_screenshot_def demo_world_def shot_candidates_def run_tool_def ax_def
      demo_app_def)

section \<open>A limit of the guard\<close>

text \<open>
  The guard on \<^verbatim>\<open>policy.set\<close> does not cover the SSH settings: in production a client can set the SSH policy to
  \<^verbatim>\<open>always-allow\<close>, and the policy then approves every SSH request without a prompt or a gate.
\<close>

lemma extra_rules_reevaluate [simp]: "extra_rules (fold (reevaluate_one env gs) ks s) = extra_rules s"
proof (induction ks arbitrary: s)
  case (Cons k ks)
  have "extra_rules (reevaluate_one env gs k s) = extra_rules s"
    by (auto simp: reevaluate_one_def Let_def split: option.splits)
  with Cons show ?case by simp
qed simp

lemma extra_rules_set_ssh [simp]: "extra_rules (set_ssh_approval env m p t s) = extra_rules s"
  by (simp add: set_ssh_approval_def reevaluate_pending_def Let_def split: option.splits)

lemma decide_always_allow:
  assumes "policy_current s" "sp_policy (ssh s) = AlwaysAllow" "extra_rules s = []" "ar_namespace req = ns_ssh"
  shows "decide (engine s) req [] = \<lparr>pd_action = PActApprove, pd_gate = NoGate, pd_applied_scope = ScopeNamespace\<rparr>"
  using assms(2-)
  by (simp add: assms(1) [unfolded policy_current_def] rebuild_policy_def Let_def decide_def match_defs namespace_rule_def
      prompts_def)

lemma ssh_settings_are_not_guarded:
  assumes "extra_rules (ax_coord a) = []" "ar_namespace req = ns_ssh"
  shows "fst (dispatch ''ui.set_ssh_approval'' w (JObj [(''policy'', JStr ''always-allow'')]) a) = Inr (JObj [])
     \<and> decide (engine (ax_coord (snd (dispatch ''ui.set_ssh_approval'' w (JObj [(''policy'', JStr ''always-allow'')]) a)))) req []
         = \<lparr>pd_action = PActApprove, pd_gate = NoGate, pd_applied_scope = ScopeNamespace\<rparr>"
proof -
  let ?s = "set_ssh_approval (wo_cenv w) None (Some AlwaysAllow) None (ax_coord a)"
  have d: "dispatch ''ui.set_ssh_approval'' w (JObj [(''policy'', JStr ''always-allow'')]) a
     = h_set_ssh_approval w (JObj [(''policy'', JStr ''always-allow'')]) a"
    by (simp add: dispatch_def op_table_def)
  have "decide (engine ?s) req [] = \<lparr>pd_action = PActApprove, pd_gate = NoGate, pd_applied_scope = ScopeNamespace\<rparr>"
    by (rule decide_always_allow) (simp_all add: policy_current_set_ssh ssh_set_ssh_approval assms)
  then show ?thesis
    unfolding d by (simp add: h_set_ssh_approval_def serde_par_def with_par_def rd_vals opt_val_def decode_ssh_policy_def variant_named_def
        ask_def ax_def Let_def)
qed

section \<open>Waiting for the frontend\<close>

text \<open>When the \<open>i\<close>-th poll runs, counted from the moment the deadline was set.\<close>

definition poll_time :: "(nat \<Rightarrow> nat) \<Rightarrow> nat \<Rightarrow> nat" where
  "poll_time delay i = refresh_poll * i + (\<Sum>j\<le>i. delay j)"

lemma poll_time_Suc: "poll_time delay i + refresh_poll + delay (i + 1) = poll_time delay (i + 1)"
  by (simp add: poll_time_def)

lemma refresh_loop_ends:
  "now = poll_time delay i \<Longrightarrow>
   token \<le> ui_refresh_token (uis (refresh_loop uis delay token now i)) ''main''
   \<or> refresh_wait \<le> poll_time delay (refresh_loop uis delay token now i)"
proof (induction uis delay token now i rule: refresh_loop.induct)
  case (1 uis delay token now i)
  show ?case
  proof (cases "token \<le> ui_refresh_token (uis i) ''main'' \<or> refresh_wait \<le> now")
    case True
    with 1(2) show ?thesis by (simp add: refresh_loop.simps)
  next
    case False
    then have "refresh_loop uis delay token now i = refresh_loop uis delay token (now + refresh_poll + delay (i + 1)) (i + 1)"
      by (subst refresh_loop.simps) simp
    with 1(1) [OF False] 1(2) show ?thesis by (simp only: poll_time_Suc simp_thms)
  qed
qed

lemma refresh_loop_waits:
  "now = poll_time delay i \<Longrightarrow> i \<le> j \<Longrightarrow> j < refresh_loop uis delay token now i \<Longrightarrow>
   ui_refresh_token (uis j) ''main'' < token \<and> poll_time delay j < refresh_wait"
proof (induction uis delay token now i rule: refresh_loop.induct)
  case (1 uis delay token now i)
  show ?case
  proof (cases "token \<le> ui_refresh_token (uis i) ''main'' \<or> refresh_wait \<le> now")
    case True
    with 1(3,4) show ?thesis by (subst (asm) refresh_loop.simps) simp
  next
    case False
    with 1(4) have "j < refresh_loop uis delay token (now + refresh_poll + delay (i + 1)) (i + 1)"
      by (subst (asm) refresh_loop.simps) simp
    with False 1(1) [OF False] 1(2,3) show ?thesis
      by (cases "j = i") (auto simp: poll_time_Suc [simplified])
  qed
qed

lemma refresh_loop_bound: "refresh_loop uis delay token (delay 0) 0 \<le> 667"
proof (rule ccontr)
  have now: "delay 0 = poll_time delay 0" by (simp add: poll_time_def)
  assume "\<not> refresh_loop uis delay token (delay 0) 0 \<le> 667"
  then have "poll_time delay 667 < refresh_wait"
    using refresh_loop_waits [OF now, of 667 uis token] by simp
  moreover have "10005 \<le> poll_time delay 667" by (simp add: poll_time_def refresh_poll_def)
  ultimately show False by (simp add: refresh_wait_def)
qed

text \<open>
  C34. A refresh always answers. It takes the next token and tells the frontend to fetch again with it. Before the
  frontend has reported (a cold start) that is all: it returns at once, without a poll, having changed nothing
  else. With a frontend it looks at the reported snapshots 0, 1, 2, ... and returns with the first one that
  echoes the token or is looked at when the ten seconds are over, which is among the first 668 however late the
  polls run (the \<open>n\<close>-th is looked at \<open>15 n\<close> ms after the deadline was set, and the delays). A dump of the
  dashboard right after it has the rows of the snapshot it returned with, on a cold start those there were.
\<close>

theorem refresh_always_answers:
  fixes w :: world and a :: app and params :: json
  defines "token \<equiv> ax_refresh_seq a + 1"
    and "after \<equiv> snd (dispatch ''sheds.refresh'' w params a)"
    and "over \<equiv> \<lambda>n. 10000 \<le> 15 * n + (\<Sum>j\<le>n. wo_delay w j)"
  defines "told \<equiv> a\<lparr>ax_refresh_seq := token mod 2 ^ 64,
                    ax_fx := ax_fx a @ [AxEmit ''refresh'' (JObj [(''token'', JInt (int token))])]\<rparr>"
  shows "fst (dispatch ''sheds.refresh'' w params a) = Inr (JObj [])
     \<and> (if hm_get (ax_ui a) ''main'' = None then after = told
        else \<exists>n \<le> 667. after = told\<lparr>ax_ui := wo_uis w n\<rparr>
               \<and> (token \<le> ui_refresh_token (wo_uis w n) ''main'' \<or> over n)
               \<and> (\<forall>j < n. ui_refresh_token (wo_uis w j) ''main'' < token \<and> \<not> over j))
     \<and> fst (dispatch ''dashboard.dump'' w' params' after)
         = Inr (JObj [(''rows'', unwrap_or (ui_get (ax_ui after) ''main'' ''sheds'') (JArr []))])"
proof -
  let ?n = "refresh_loop (wo_uis w) (wo_delay w) token (wo_delay w 0) 0"
  have now: "wo_delay w 0 = poll_time (wo_delay w) 0" by (simp add: poll_time_def)
  have o: "over n \<longleftrightarrow> refresh_wait \<le> poll_time (wo_delay w) n" for n
    by (simp add: over_def refresh_wait_def poll_time_def refresh_poll_def)
  have "token \<le> ui_refresh_token (wo_uis w ?n) ''main'' \<or> over ?n"
    unfolding o by (rule refresh_loop_ends [OF now])
  moreover have "\<forall>j < ?n. ui_refresh_token (wo_uis w j) ''main'' < token \<and> \<not> over j"
    using refresh_loop_waits [OF now] unfolding o not_le by blast
  moreover have "after = (if hm_get (ax_ui a) ''main'' = None then told else told\<lparr>ax_ui := wo_uis w ?n\<rparr>)"
    by (simp add: after_def told_def token_def dispatch_def op_table_def h_sheds_refresh_def ui_has_def Let_def ax_def)
  ultimately show ?thesis
    using refresh_loop_bound [of "wo_uis w" "wo_delay w" token]
    by (auto simp: dispatch_def op_table_def h_sheds_refresh_def h_dashboard_dump_def main_get_def Let_def)
qed

theorem refresh_always_answers_witness:
  "let cold = demo_app True; warm = cold\<lparr>ax_ui := [(''main'', JObj [])]\<rparr> in
   snd (dispatch ''sheds.refresh'' demo_world (JObj []) cold)
     = cold\<lparr>ax_refresh_seq := 1, ax_fx := [AxEmit ''refresh'' (JObj [(''token'', JInt 1)])]\<rparr>
   \<and> (\<exists>n \<le> 667. 667 \<le> n \<and> ax_ui (snd (dispatch ''sheds.refresh'' demo_world (JObj []) warm)) = wo_uis demo_world n)"
proof -
  have u: "ax_ui (demo_app True) = []" "ax_refresh_seq (demo_app True) = 0" by (simp_all add: demo_app_def)
  have d: "wo_delay demo_world = (\<lambda>_. 0)" "ui_refresh_token (wo_uis demo_world n) ''main'' = 0" for n
    by (simp_all add: demo_world_def ui_refresh_token_def ui_get_def unwrap_or_def)
  let ?warm = "(demo_app True)\<lparr>ax_ui := [(''main'', JObj [])]\<rparr>"
  obtain n where "n \<le> 667" "10000 \<le> 15 * n"
      "ax_ui (snd (dispatch ''sheds.refresh'' demo_world (JObj []) ?warm)) = wo_uis demo_world n"
    using refresh_always_answers [of demo_world "JObj []" ?warm demo_world "JObj []"] by (auto simp: u d)
  then have "n \<le> 667 \<and> 667 \<le> n \<and> ax_ui (snd (dispatch ''sheds.refresh'' demo_world (JObj []) ?warm)) = wo_uis demo_world n"
    by linarith
  then show ?thesis
    using refresh_always_answers [of demo_world "JObj []" "demo_app True" demo_world "JObj []"] u by (auto simp: Let_def)
qed

end
