(* ===== verification/Commands.thy ===== *)
theory Commands
  imports Ipc_Safety
begin

text \<open>
  The commands that the web views invoke (\<^verbatim>\<open>tauri/src-tauri/src/lib.rs\<close>): the second surface on the state the IPC
  handler works on. The arguments arrive typed, since Tauri decodes them; a unit result is \<^const>\<open>JNull\<close>, an error is
  its text.
\<close>

type_synonym command_fn = "app \<Rightarrow> (string + json) \<times> app"

definition cmd_err :: "(ipc_error + json) \<Rightarrow> string + json" where
  "cmd_err r = (case r of Inl (code, msg) \<Rightarrow> Inl msg | Inr _ \<Rightarrow> Inr JNull)"

section \<open>Sheds and creates\<close>

definition cmd_list_sheds :: "world \<Rightarrow> command_fn" where
  "cmd_list_sheds w a =
     (case backend_list_sheds (wo_parse w) (wo_envs w) (ax_backend a) of
        (sheds, b) \<Rightarrow> (Inr (JArr (map encode_shed sheds)), a\<lparr>ax_backend := b\<rparr>))"

definition cmd_list_hosts :: command_fn where
  "cmd_list_hosts a = (Inr (JArr (map JStr (host_names (ax_backend a)))), a)"

record create_form =
  cf_name :: string
  cf_host :: "string option"
  cf_image :: "string option"
  cf_vm_backend :: "string option"
  cf_cpus :: "int option"
  cf_memory_mb :: "int option"
  cf_repo :: "string option"

definition form_request :: "create_form \<Rightarrow> create_shed_request" where
  "form_request f =
     \<lparr>cr_name = cf_name f, cr_repo = cf_repo f, cr_local_dir = None, cr_image = cf_image f, cr_backend = cf_vm_backend f,
      cr_cpus = cf_cpus f, cr_memory_mb = cf_memory_mb f, cr_no_provision = None\<rparr>"

definition cmd_create_start :: "world \<Rightarrow> create_form \<Rightarrow> command_fn" where
  "cmd_create_start w form a =
     (case backend_create_start (wo_create_id w) (wo_between w) (cf_host form) (ax_backend a) of
        (Inl e, b) \<Rightarrow> (Inl (shed_error_text e), a\<lparr>ax_backend := b\<rparr>)
      | (Inr i, b) \<Rightarrow> (Inr (JStr i), ax (AxCreate i (cf_host form) (form_request form)) (a\<lparr>ax_backend := b\<rparr>)))"

definition cmd_create_status :: "string \<Rightarrow> command_fn" where
  "cmd_create_status i a =
     (Inr (case backend_create_status i (ax_backend a) of
             Some p \<Rightarrow> encode_create_progress p | None \<Rightarrow> JObj [(''state'', JStr ''unknown'')]), a)"

definition cmd_create_cancel :: "string \<Rightarrow> command_fn" where
  "cmd_create_cancel i a = (Inr JNull, a\<lparr>ax_backend := backend_create_cancel i (ax_backend a)\<rparr>)"

definition cmd_shed_action :: "world \<Rightarrow> string \<Rightarrow> string \<Rightarrow> string option \<Rightarrow> command_fn" where
  "cmd_shed_action w action name host a =
     (case shed_action (fst (wo_net w)) (snd (wo_net w)) host name action (ax_backend a) of
        (r, b, qs) \<Rightarrow>
          (case r of Inr _ \<Rightarrow> Inr JNull | Inl e \<Rightarrow> Inl (shed_error_text e), ax (AxHttp qs) (a\<lparr>ax_backend := b\<rparr>)))"

definition cmd_system_df :: "world \<Rightarrow> command_fn" where
  "cmd_system_df w a =
     (case backend_system_df (wo_parse w) (wo_envs w) (ax_backend a) of
        (rows, b) \<Rightarrow> (Inr (JArr (map encode_host_disk_usage rows)), a\<lparr>ax_backend := b\<rparr>))"

section \<open>Terminals and preferences\<close>

definition cmd_terminal_presets :: "world \<Rightarrow> command_fn" where
  "cmd_terminal_presets w a = (Inr (term_presets (wo_host w)), a)"

definition cmd_get_prefs :: command_fn where
  "cmd_get_prefs a = (Inr (term_prefs_get (ax_prefs a)), a)"

definition cmd_set_terminal_pref :: "world \<Rightarrow> string \<Rightarrow> string option \<Rightarrow> command_fn" where
  "cmd_set_terminal_pref w preset tmpl a =
     (case term_set_terminal (wo_ser w) (wo_write w) preset tmpl (ax_prefs a) of
        (r, st) \<Rightarrow> (cmd_err r, a\<lparr>ax_prefs := st\<rparr>))"

definition cmd_open_terminal :: "world \<Rightarrow> string \<Rightarrow> string option \<Rightarrow> string option \<Rightarrow> command_fn" where
  "cmd_open_terminal w shed host session a =
     (if ae_test_mode (ax_env a)
      then (Inl ''terminal.open is disabled in test mode (use terminal.preview)'', a)
      else (case term_open (wo_host w) (wo_spawn w) (ax_scripts_dir a) (ax_backend a) (ax_prefs a)
                   \<lparr>tr_host = host, tr_shed = shed, tr_session = session, tr_preset = None, tr_template = None\<rparr> of
              (r, started) \<Rightarrow> (cmd_err r, case started of Some li \<Rightarrow> ax (AxSpawn li) a | None \<Rightarrow> a)))"

section \<open>Remote control\<close>

definition cmd_rc_list :: "world \<Rightarrow> string option \<Rightarrow> string option \<Rightarrow> command_fn" where
  "cmd_rc_list w host shed a =
     (case rc_targets (wo_parse w) (wo_envs w) (home_of w) host shed (ax_backend a) of
        (targets, b) \<Rightarrow>
          (case rc_list (wo_parse w) (le_bin (wo_launch w)) (wo_outputs w) targets host shed (ax_rc a) of
             (sessions, svc, calls) \<Rightarrow>
               (Inr (JObj [(''sessions'', JArr (map encode_rc_session sessions))]),
                fold (ax \<circ> AxRcCall) calls (a\<lparr>ax_backend := b, ax_rc := svc\<rparr>))))"

record launch_form =
  lf_shed :: string
  lf_kind :: rc_kind
  lf_host :: "string option"
  lf_display_name :: "string option"
  lf_workdir :: "string option"
  lf_prompt :: "string option"

definition cmd_rc_launch :: "world \<Rightarrow> launch_form \<Rightarrow> command_fn" where
  "cmd_rc_launch w f a =
     (case resolve_rc_target (home_of w) (lf_host f) (ax_backend a) of
        Inl e \<Rightarrow> (Inl (shed_error_text e), a)
      | Inr target \<Rightarrow>
          (case launch (wo_parse w) (wo_launch w)
                  \<lparr>lp_target = target, lp_shed = lf_shed f, lp_kind = lf_kind f, lp_display_name = lf_display_name f,
                   lp_workdir = lf_workdir f, lp_prompt = lf_prompt f\<rparr> (ax_rc a) of
             (r, svc, call) \<Rightarrow>
               (case r of Inr s \<Rightarrow> Inr (encode_rc_session s) | Inl e \<Rightarrow> Inl (rc_error_text e),
                opt_call call (a\<lparr>ax_rc := svc\<rparr>))))"

definition cmd_rc_kill :: "world \<Rightarrow> string \<Rightarrow> string \<Rightarrow> string option \<Rightarrow> command_fn" where
  "cmd_rc_kill w shed slug host a =
     (case resolve_rc_target (home_of w) host (ax_backend a) of
        Inl e \<Rightarrow> (Inl (shed_error_text e), a)
      | Inr target \<Rightarrow>
          (case rc_kill (le_bin (wo_launch w)) (wo_output w) target shed slug (ax_rc a) of
             (r, svc, call) \<Rightarrow>
               (case r of Inr _ \<Rightarrow> Inr JNull | Inl e \<Rightarrow> Inl (rc_error_text e), opt_call call (a\<lparr>ax_rc := svc\<rparr>))))"

section \<open>Approvals\<close>

definition cmd_approvals_list :: "world \<Rightarrow> command_fn" where
  "cmd_approvals_list w a =
     (case ask w (CApprovalsList (wo_reply w)) a of
        (ans, a) \<Rightarrow> (Inr (JArr (case ans of Some (AnsItems xs) \<Rightarrow> map encode_pending_item xs | _ \<Rightarrow> [])), a))"

record decide_form =
  df_id :: string
  df_decision :: approval_decision
  df_scope :: "approval_scope option"
  df_ttl :: "string option"
  df_persist :: "bool option"

definition cmd_approval_decide :: "world \<Rightarrow> decide_form \<Rightarrow> command_fn" where
  "cmd_approval_decide w f a =
     (Inr JNull, snd (ask w (CDecide (df_id f)
        \<lparr>ch_decision = df_decision f, ch_scope = df_scope f, ch_ttl = df_ttl f, ch_persist = unwrap_or (df_persist f) False\<rparr>
        (wo_reply w)) a))"

definition cmd_activity_list :: "world \<Rightarrow> nat option \<Rightarrow> command_fn" where
  "cmd_activity_list w limit a =
     (case ask w (CActivityList (unwrap_or limit 200) (wo_reply w)) a of
        (ans, a) \<Rightarrow> (Inr (JArr (case ans of Some (AnsEntries xs) \<Rightarrow> map encode_audit_entry xs | _ \<Rightarrow> [])), a))"

definition cmd_gate_namespaces :: "world \<Rightarrow> command_fn" where
  "cmd_gate_namespaces w a =
     (case ask w (CGateNamespaces (wo_reply w)) a of
        (ans, a) \<Rightarrow> (Inr (JArr (case ans of Some (AnsTexts xs) \<Rightarrow> map JStr xs | _ \<Rightarrow> [])), a))"

definition cmd_set_ssh_approval ::
  "world \<Rightarrow> approval_method option \<Rightarrow> ssh_approval_policy option \<Rightarrow> string option \<Rightarrow> command_fn" where
  "cmd_set_ssh_approval w m p t a =
     (let a = snd (ask w (CSetSshApproval m p t (wo_reply w)) a) in
      case ask w (CSshPrefs (wo_reply w)) a of
        (ans, a) \<Rightarrow>
          (Inr JNull, a\<lparr>ax_prefs := prefs_set_ssh (wo_ser w) (wo_write w)
                          (ssh_prefs_wire (case ans of Some (AnsPrefs x) \<Rightarrow> x | _ \<Rightarrow> default_ssh_prefs)) (ax_prefs a)\<rparr>))"

definition cmd_ssh_prefs_get :: "world \<Rightarrow> command_fn" where
  "cmd_ssh_prefs_get w a =
     (case ask w (CSshPrefs (wo_reply w)) a of
        (ans, a) \<Rightarrow> (Inr (encode_ssh_prefs (case ans of Some (AnsPrefs x) \<Rightarrow> x | _ \<Rightarrow> default_ssh_prefs)), a))"

section \<open>Launch at login\<close>

definition cmd_loginitem_status :: "world \<Rightarrow> command_fn" where
  "cmd_loginitem_status w a = (Inr (JObj [(''enabled'', JBool (login_item_enabled w a))]), a)"

definition cmd_loginitem_set :: "world \<Rightarrow> bool \<Rightarrow> command_fn" where
  "cmd_loginitem_set w enabled a =
     (case login_item_set w enabled a of (r, a) \<Rightarrow> (case r of Inl e \<Rightarrow> Inl e | Inr _ \<Rightarrow> Inr JNull, a))"

section \<open>The registered commands\<close>

datatype webview_command =
    ListSheds | ListHosts
  | ShedAction string string "string option"
  | SystemDf
  | CreateStart create_form
  | CreateStatus string
  | CreateCancel string
  | TerminalPresets | GetPrefs
  | SetTerminalPref string "string option"
  | RcList "string option" "string option"
  | RcLaunch launch_form
  | RcKill string string "string option"
  | OpenTerminal string "string option" "string option"
  | ApprovalsList
  | ApprovalDecide decide_form
  | ActivityList "nat option"
  | GateNamespaces
  | SetSshApproval "approval_method option" "ssh_approval_policy option" "string option"
  | SshPrefsGet
  | LoginitemStatus
  | LoginitemSet bool

fun invoke :: "world \<Rightarrow> webview_command \<Rightarrow> command_fn" where
  "invoke w ListSheds = cmd_list_sheds w"
| "invoke w ListHosts = cmd_list_hosts"
| "invoke w (ShedAction action name host) = cmd_shed_action w action name host"
| "invoke w SystemDf = cmd_system_df w"
| "invoke w (CreateStart form) = cmd_create_start w form"
| "invoke w (CreateStatus i) = cmd_create_status i"
| "invoke w (CreateCancel i) = cmd_create_cancel i"
| "invoke w TerminalPresets = cmd_terminal_presets w"
| "invoke w GetPrefs = cmd_get_prefs"
| "invoke w (SetTerminalPref preset tmpl) = cmd_set_terminal_pref w preset tmpl"
| "invoke w (RcList host shed) = cmd_rc_list w host shed"
| "invoke w (RcLaunch f) = cmd_rc_launch w f"
| "invoke w (RcKill shed slug host) = cmd_rc_kill w shed slug host"
| "invoke w (OpenTerminal shed host session) = cmd_open_terminal w shed host session"
| "invoke w ApprovalsList = cmd_approvals_list w"
| "invoke w (ApprovalDecide f) = cmd_approval_decide w f"
| "invoke w (ActivityList limit) = cmd_activity_list w limit"
| "invoke w GateNamespaces = cmd_gate_namespaces w"
| "invoke w (SetSshApproval m p t) = cmd_set_ssh_approval w m p t"
| "invoke w SshPrefsGet = cmd_ssh_prefs_get w"
| "invoke w LoginitemStatus = cmd_loginitem_status w"
| "invoke w (LoginitemSet enabled) = cmd_loginitem_set w enabled"

section \<open>The same operation on the socket\<close>

datatype view = ViewField string | ViewUnit | ViewWhole

definition viewed :: "view \<Rightarrow> ipc_error + json \<Rightarrow> string + json" where
  "viewed v r =
     (case r of
        Inl (code, msg) \<Rightarrow> Inl msg
      | Inr x \<Rightarrow> Inr (case v of ViewField k \<Rightarrow> unwrap_or (json_get x k) JNull | ViewUnit \<Rightarrow> JNull | ViewWhole \<Rightarrow> x))"

text \<open>The operation and the parameters that do on the socket what the command does, and where its result is.\<close>

fun twin :: "webview_command \<Rightarrow> (string \<times> json \<times> view) option" where
  "twin ListSheds = Some (''sheds.list'', JObj [], ViewField ''sheds'')"
| "twin ListHosts = None"
| "twin (ShedAction action name host) =
     (if action \<in> {''start'', ''stop'', ''reset'', ''delete''}
      then Some (''shed.'' @ action, JObj ((''name'', JStr name) # opt_field ''host'' JStr host), ViewUnit) else None)"
| "twin SystemDf = Some (''system.df'', JObj [], ViewField ''usage'')"
| "twin (CreateStart f) =
     Some (''create.start'',
       JObj ((''name'', JStr (cf_name f)) # opt_field ''host'' JStr (cf_host f) @ opt_field ''image'' JStr (cf_image f)
         @ opt_field ''backend'' JStr (cf_vm_backend f) @ opt_field ''cpus'' JInt (cf_cpus f)
         @ opt_field ''memory_mb'' JInt (cf_memory_mb f) @ opt_field ''repo'' JStr (cf_repo f)), ViewField ''create_id'')"
| "twin (CreateStatus i) = Some (''create.status'', JObj [(''create_id'', JStr i)], ViewWhole)"
| "twin (CreateCancel i) = Some (''create.cancel'', JObj [(''create_id'', JStr i)], ViewUnit)"
| "twin TerminalPresets = Some (''terminal.presets'', JObj [], ViewWhole)"
| "twin GetPrefs = Some (''prefs.get'', JObj [], ViewWhole)"
| "twin (SetTerminalPref preset tmpl) =
     Some (''prefs.set_terminal'', JObj ((''preset'', JStr preset) # opt_field ''template'' JStr tmpl), ViewUnit)"
| "twin (RcList host shed) = Some (''rc.list'', JObj (opt_field ''host'' JStr host @ opt_field ''shed'' JStr shed), ViewWhole)"
| "twin (RcLaunch f) =
     Some (''rc.launch'',
       JObj ([(''shed'', JStr (lf_shed f)), (''kind'', JStr (rc_kind_str (lf_kind f)))] @ opt_field ''host'' JStr (lf_host f)
         @ opt_field ''display_name'' JStr (lf_display_name f) @ opt_field ''workdir'' JStr (lf_workdir f)
         @ opt_field ''initial_prompt'' JStr (lf_prompt f)), ViewWhole)"
| "twin (RcKill shed slug host) =
     Some (''rc.kill'', JObj ([(''shed'', JStr shed), (''slug'', JStr slug)] @ opt_field ''host'' JStr host), ViewUnit)"
| "twin (OpenTerminal shed host session) =
     Some (''terminal.open'', JObj ((''shed'', JStr shed) # opt_field ''host'' JStr host @ opt_field ''session'' JStr session),
       ViewUnit)"
| "twin ApprovalsList = Some (''approvals.list'', JObj [], ViewField ''approvals'')"
| "twin (ApprovalDecide f) =
     Some (''approval.decide'',
       JObj ([(''id'', JStr (df_id f)), (''decision'', JStr (decision_wire (df_decision f)))]
         @ opt_field ''scope'' (JStr \<circ> approval_scope_wire) (df_scope f) @ opt_field ''ttl'' JStr (df_ttl f)
         @ opt_field ''persist'' JBool (df_persist f)), ViewUnit)"
| "twin (ActivityList limit) = Some (''activity.list'', JObj (opt_field ''limit'' (JInt \<circ> int) limit), ViewField ''entries'')"
| "twin GateNamespaces = None"
| "twin (SetSshApproval m p t) =
     Some (''ui.set_ssh_approval'',
       JObj (opt_field ''method'' (JStr \<circ> approval_method_wire) m @ opt_field ''policy'' (JStr \<circ> ssh_policy_wire) p
         @ opt_field ''ttl'' JStr t), ViewUnit)"
| "twin SshPrefsGet = Some (''ui.ssh_prefs'', JObj [], ViewWhole)"
| "twin LoginitemStatus = Some (''loginitem.status'', JObj [], ViewWhole)"
| "twin (LoginitemSet enabled) = Some (''loginitem.set'', JObj [(''enabled'', JBool enabled)], ViewUnit)"

text \<open>The ranges of the argument types \<^verbatim>\<open>i64\<close> and \<^verbatim>\<open>usize\<close>.\<close>

fun typed_args :: "webview_command \<Rightarrow> bool" where
  "typed_args (CreateStart f) \<longleftrightarrow> i64_fits (cf_cpus f) \<and> i64_fits (cf_memory_mb f)"
| "typed_args (ActivityList (Some n)) \<longleftrightarrow> n < 2 ^ 64"
| "typed_args _ \<longleftrightarrow> True"

named_theorems twin_simps "reading the parameters of a twin and running its handler"

lemma par_str_field [twin_simps]:
  "par_str (JObj kvs) k = Option.bind (obj_get kvs k) as_str"
  "req_str (JObj kvs) k = ok_or (ipc_err ''bad_request'' (''missing '' @ [CHR 0x27] @ k @ [CHR 0x27])) (Option.bind (obj_get kvs k) as_str)"
  "par_i64 (JObj kvs) k = Option.bind (obj_get kvs k) as_i64"
  by (simp_all add: par_str_def req_str_def par_i64_def json_get_def)

lemma optional_arg [twin_simps]:
  "Option.bind (map_option JStr x) as_str = x"
  "i64_fits y \<Longrightarrow> Option.bind (map_option JInt y) as_i64 = y"
  by (cases x; simp) (cases y; simp add: as_i64_def i64_fits_def)

lemma enum_args [twin_simps]:
  "decode_decision (JStr (decision_wire d)) = Some d"
  "opt_val decode_approval_scope (map_option (JStr \<circ> approval_scope_wire) sc) = Some sc"
  "opt_val decode_approval_method (map_option (JStr \<circ> approval_method_wire) m) = Some m"
  "opt_val decode_ssh_policy (map_option (JStr \<circ> ssh_policy_wire) p) = Some p"
proof -
  have s: "decode_approval_scope (JStr (approval_scope_wire x)) = Some x" for x
    by (cases x) (simp_all add: decode_approval_scope_def variant_named_def)
  show "decode_decision (JStr (decision_wire d)) = Some d"
    by (cases d) (simp_all add: decode_decision_def variant_named_def)
  show "opt_val decode_approval_scope (map_option (JStr \<circ> approval_scope_wire) sc) = Some sc"
    by (cases sc) (simp_all add: opt_val_def s)
  show "opt_val decode_approval_method (map_option (JStr \<circ> approval_method_wire) m) = Some m"
    by (cases m) (simp_all add: opt_val_def)
  show "opt_val decode_ssh_policy (map_option (JStr \<circ> ssh_policy_wire) p) = Some p"
    by (cases p) (simp_all add: opt_val_def)
qed

lemma viewed_simps [twin_simps]:
  "viewed v (Inl e) = Inl (snd e)" "viewed (ViewField k) (Inr (JObj kvs)) = Inr (unwrap_or (obj_get kvs k) JNull)"
  "viewed ViewUnit (Inr x) = Inr JNull" "viewed ViewWhole (Inr x) = Inr x"
  by (simp_all add: viewed_def json_get_def split: prod.split)

lemma with_par_simps [twin_simps]: "with_par (Inr p) f a = f p a" "with_par (Inl e) f a = (Inl e, a)"
  by (simp_all add: with_par_def)

lemma cmd_err_viewed: "cmd_err r = viewed ViewUnit r"
  by (cases r) (simp_all add: cmd_err_def viewed_def split: prod.split)

lemma rc_kind_arg [twin_simps]:
  "obj_get kvs ''kind'' = Some (JStr (rc_kind_str k)) \<Longrightarrow> rc_kind_param (JObj kvs) = Inr k"
  by (simp add: rc_kind_param_def json_get_def decode_rc_kind_str ok_or_def)

lemma rc_target_arg [twin_simps]:
  "rc_target_par w (JObj kvs) a = map_err (\<lambda>e. ipc_err ''bad_request'' (shed_error_text e))
     (resolve_rc_target (home_of w) (Option.bind (obj_get kvs ''host'') as_str) (ax_backend a))"
  by (simp add: rc_target_par_def par_str_field)

lemma rc_err_text [twin_simps]: "snd (rc_err e) = rc_error_text e"
  by (cases e) (simp_all add: rc_err_def ipc_err_def)

lemma ipc_err_text [twin_simps]: "snd (ipc_err c m) = m"
  by (simp add: ipc_err_def)

definition agrees :: "webview_command \<Rightarrow> world \<Rightarrow> app \<Rightarrow> bool" where
  "agrees c w a \<longleftrightarrow> (case twin c of None \<Rightarrow> True | Some (op, params, v) \<Rightarrow>
     invoke w c a = (case dispatch op w params a of (r, a') \<Rightarrow> (viewed v r, a')))"

lemma dispatch_twins:
  "dispatch ''sheds.list'' = h_sheds_list" "dispatch ''system.df'' = h_system_df" "dispatch ''create.start'' = h_create_start"
  "dispatch ''create.status'' = h_create_status" "dispatch ''create.cancel'' = h_create_cancel"
  "dispatch ''terminal.presets'' = h_terminal_presets" "dispatch ''prefs.get'' = h_prefs_get"
  "dispatch ''prefs.set_terminal'' = h_prefs_set_terminal" "dispatch ''rc.list'' = h_rc_list"
  "dispatch ''rc.launch'' = h_rc_launch" "dispatch ''rc.kill'' = h_rc_kill" "dispatch ''terminal.open'' = h_terminal_open"
  "dispatch ''approvals.list'' = h_approvals_list" "dispatch ''approval.decide'' = h_approval_decide"
  "dispatch ''activity.list'' = h_activity_list" "dispatch ''ui.set_ssh_approval'' = h_set_ssh_approval"
  "dispatch ''ui.ssh_prefs'' = h_ssh_prefs" "dispatch ''loginitem.status'' = h_login_status"
  "dispatch ''loginitem.set'' = h_login_set"
  "dispatch ''shed.start'' = h_shed_action ''start''" "dispatch ''shed.stop'' = h_shed_action ''stop''"
  "dispatch ''shed.reset'' = h_shed_action ''reset''" "dispatch ''shed.delete'' = h_shed_action ''delete''"
  by (simp_all add: dispatch_def op_table_def fun_eq_iff)

lemma reads_agree:
  "agrees ListSheds w a" "agrees SystemDf w a" "agrees (CreateStatus i) w a" "agrees (CreateCancel i) w a"
  "agrees TerminalPresets w a" "agrees GetPrefs w a" "agrees ApprovalsList w a" "agrees SshPrefsGet w a"
  "agrees LoginitemStatus w a"
  by (simp_all add: agrees_def dispatch_twins twin_simps cmd_list_sheds_def h_sheds_list_def cmd_system_df_def h_system_df_def
      cmd_create_status_def h_create_status_def cmd_create_cancel_def h_create_cancel_def cmd_terminal_presets_def
      h_terminal_presets_def cmd_get_prefs_def h_prefs_get_def cmd_approvals_list_def h_approvals_list_def
      cmd_ssh_prefs_get_def h_ssh_prefs_def cmd_loginitem_status_def h_login_status_def split: prod.split)

lemma shed_action_agrees: "agrees (ShedAction action name host) w a"
proof (cases "action \<in> {''start'', ''stop'', ''reset'', ''delete''}")
  case True
  then have "dispatch (''shed.'' @ action) = h_shed_action action" by (auto simp: dispatch_twins)
  with True show ?thesis
    by (simp add: agrees_def twin_simps cmd_shed_action_def h_shed_action_def split: prod.split sum.split)
qed (simp add: agrees_def)

lemma create_start_agrees: "typed_args (CreateStart f) \<Longrightarrow> agrees (CreateStart f) w a"
  by (simp add: agrees_def dispatch_twins twin_simps cmd_create_start_def h_create_start_def form_request_def create_request_def
      json_get_def split: prod.split sum.split)

lemma rc_agrees: "agrees (RcList host shed) w a" "agrees (RcLaunch f) w a" "agrees (RcKill shd slug hst) w a"
proof -
  show "agrees (RcList host shed) w a"
    by (simp add: agrees_def dispatch_twins twin_simps cmd_rc_list_def h_rc_list_def split: prod.split)
  show "agrees (RcLaunch f) w a" "agrees (RcKill shd slug hst) w a"
    by (simp_all add: agrees_def dispatch_twins twin_simps cmd_rc_launch_def h_rc_launch_def cmd_rc_kill_def h_rc_kill_def
        map_err_def split: prod.split sum.split)
qed

lemma terminal_agrees: "agrees (SetTerminalPref preset tmpl) w a" "agrees (OpenTerminal shed host session) w a"
  by (simp_all add: agrees_def dispatch_twins twin_simps cmd_set_terminal_pref_def h_prefs_set_terminal_def cmd_open_terminal_def
      h_terminal_open_def term_request_of_def cmd_err_viewed split: prod.split)

lemma approval_agrees: "agrees (ApprovalDecide f) w a" "agrees (SetSshApproval m p t) w a"
proof -
  have persist: "(case x of None \<Rightarrow> Some False | Some b \<Rightarrow> (as_bool \<circ> JBool) b) = Some (unwrap_or x False)" for x
    by (cases x) simp_all
  show "agrees (ApprovalDecide f) w a"
    by (simp add: agrees_def dispatch_twins twin_simps cmd_approval_decide_def h_approval_decide_def serde_par_def
        decode_decide_params_def rd_vals persist)
  show "agrees (SetSshApproval m p t) w a"
    by (simp add: agrees_def dispatch_twins twin_simps serde_par_def rd_vals cmd_set_ssh_approval_def h_set_ssh_approval_def
        Let_def split: prod.split)
qed

lemma activity_agrees: "typed_args (ActivityList n) \<Longrightarrow> agrees (ActivityList n) w a"
  by (cases n) (simp_all add: agrees_def dispatch_twins twin_simps cmd_activity_list_def h_activity_list_def as_u64_def json_get_def
      split: prod.split)

lemma login_set_agrees: "agrees (LoginitemSet enabled) w a"
  by (simp add: agrees_def dispatch_twins twin_simps cmd_loginitem_set_def h_login_set_def json_get_def split: prod.split sum.split)

lemma untwinned_agree: "agrees ListHosts w a" "agrees GateNamespaces w a"
  by (simp_all add: agrees_def)

lemmas command_agrees = untwinned_agree reads_agree shed_action_agrees create_start_agrees rc_agrees terminal_agrees approval_agrees
  activity_agrees login_set_agrees

lemma all_agree: "typed_args c \<Longrightarrow> agrees c w a"
  by (cases c) (auto intro: command_agrees)

text \<open>
  C39. The two surfaces agree: every command of the web view that has an operation on the socket has the same
  effect as that operation with the same arguments, on every state and in all surroundings; it returns the
  same result (whole, its one field, or nothing where the command returns nothing) and fails with the same message.
\<close>

theorem commands_agree_with_the_socket:
  assumes "twin c = Some (op, params, v)" "typed_args c"
  shows "invoke w c a = (case dispatch op w params a of (r, a') \<Rightarrow> (viewed v r, a'))"
  using all_agree [OF assms(2), of w a] assms(1) by (simp add: agrees_def)

theorem commands_agree_with_the_socket_witness:
  "invoke demo_world (SetTerminalPref ''vi'' None) (demo_app False)
     = (case dispatch ''prefs.set_terminal'' demo_world (JObj [(''preset'', JStr ''vi'')]) (demo_app False) of
          (r, a) \<Rightarrow> (viewed ViewUnit r, a))
   \<and> snd (invoke demo_world (ApprovalDecide \<lparr>df_id = ''r1'', df_decision = Deny, df_scope = None, df_ttl = None, df_persist = None\<rparr>)
           (demo_app False))
     = snd (dispatch ''approval.decide'' demo_world (JObj [(''id'', JStr ''r1''), (''decision'', JStr ''deny'')]) (demo_app False))"
  using commands_agree_with_the_socket [of "SetTerminalPref ''vi'' None" "''prefs.set_terminal''" "JObj [(''preset'', JStr ''vi'')]"
      ViewUnit demo_world "demo_app False"]
    commands_agree_with_the_socket [of "ApprovalDecide \<lparr>df_id = ''r1'', df_decision = Deny, df_scope = None, df_ttl = None, df_persist = None\<rparr>"
      "''approval.decide''" "JObj [(''id'', JStr ''r1''), (''decision'', JStr ''deny'')]" ViewUnit demo_world "demo_app False"]
  by (simp add: opt_field_def case_prod_unfold del: invoke.simps)

section \<open>Sessions over both surfaces\<close>

lemma keeps_untwinned:
  "keeps a (snd (cmd_list_hosts a))" "keeps a (snd (cmd_gate_namespaces w a))" "keeps a (snd (cmd_shed_action w act name host a))"
  by (auto simp: cmd_list_hosts_def cmd_gate_namespaces_def cmd_shed_action_def keeps_update
      intro!: keeps_ask [of a "CGateNamespaces (wo_reply w)" True a w] keeps_ax split: prod.split)
    (metis client_command.simps keeps_ask keeps_refl snd_conv)

lemma invoke_keeps: "typed_args c \<Longrightarrow> keeps a (snd (invoke w c a))"
proof (cases "twin c")
  case (Some x)
  obtain op params v where "x = (op, params, v)" by (cases x)
  moreover assume "typed_args c"
  then have "agrees c w a" by (rule all_agree)
  ultimately show ?thesis using Some keeps_dispatch [of True op a w params] by (simp add: agrees_def case_prod_unfold)
next
  case None
  then show ?thesis by (cases c) (simp_all add: keeps_untwinned)
qed

text \<open>An interaction: a request on the socket or a command of a web view, each with the surroundings it met.\<close>

datatype interaction = OnSocket ipc_request | OnWebview world webview_command

fun interact :: "interaction \<Rightarrow> app \<Rightarrow> app" where
  "interact (OnSocket r) a = ipc_exec r a"
| "interact (OnWebview w c) a = (if typed_args c then snd (invoke w c a) else a)"

interpretation app_session: machine interact "keeps a" for a
proof
  fix s x
  assume s: "keeps a s"
  show "keeps a (interact x s)"
  proof (cases x)
    case (OnSocket r)
    then show ?thesis using ipc.exec_inv [OF s] by simp
  next
    case (OnWebview w c)
    then show ?thesis using s invoke_keeps [of c s w] by (auto intro: keeps_trans)
  qed
qed

end
