(* ===== verification/Native_Auth.thy ===== *)
theory Native_Auth
  imports Coordinator_Theorems Coordinator_Trace Terminal
begin

text \<open>
  The native sides of the approval seams (\<^verbatim>\<open>tauri/src-tauri/src/approval.rs\<close>): the polkit gate of Linux, the
  Touch-ID gate of macOS and the fail-closed gate elsewhere, with the contract of the \<^verbatim>\<open>AuthGate\<close> trait as
  a locale, and the quoting of request text in banners. What the operating system answers (the status of
  \<^verbatim>\<open>pkcheck\<close>, the reply of LocalAuthentication) is an argument of the gates.
\<close>

section \<open>The polkit gate\<close>

datatype exit_status = ExitCode int | Signalled

definition polkit_action_id :: string where
  "polkit_action_id = ''ai.stridelabs.shed-desktop.approve-credential''"

definition pkcheck_path :: string where "pkcheck_path = ''/usr/bin/pkcheck''"

definition pkcheck_args :: "nat \<Rightarrow> string list" where
  "pkcheck_args pid = [''--action-id'', polkit_action_id, ''--process'', nat_to_string pid, ''--allow-user-interaction'']"

text \<open>\<open>run\<close> is what running a program with arguments gives: its status, or \<^const>\<open>None\<close> when it cannot be run.\<close>

definition polkit_gate :: "nat \<Rightarrow> (string \<Rightarrow> string list \<Rightarrow> exit_status option) \<Rightarrow> auth_prompt \<Rightarrow> auth_outcome" where
  "polkit_gate pid run prompt =
     (if ap_biometrics_only prompt then OUnavailable
      else case run pkcheck_path (pkcheck_args pid) of
        Some (ExitCode c) \<Rightarrow> if c = 0 then OApproved else ODenied
      | Some Signalled \<Rightarrow> OError ''pkcheck killed by signal''
      | None \<Rightarrow> OUnavailable)"

section \<open>The Touch-ID gate\<close>

definition map_la_error :: "int \<Rightarrow> auth_outcome" where
  "map_la_error code =
     (if code \<in> {- 2, - 4, - 9} then OCancelled
      else if code \<in> {- 1, - 3} then ODenied
      else if - 8 \<le> code \<and> code \<le> - 5 \<or> code = - 12 \<or> code = - 13 then OUnavailable
      else OError (''LAError '' @ int_to_string code))"

datatype la_policy = DeviceOwnerAuthenticationWithBiometrics | DeviceOwnerAuthentication

definition la_policy_for :: "bool \<Rightarrow> la_policy" where
  "la_policy_for biometrics_only =
     (if biometrics_only then DeviceOwnerAuthenticationWithBiometrics else DeviceOwnerAuthentication)"

text \<open>How the evaluation ends: a reply (success, error code), no reply in 120 s, or the blocking task failed.\<close>

datatype la_result = LaReply bool "int option" | LaSilent | LaTaskFailed

record local_auth =
  la_can_evaluate :: "la_policy \<Rightarrow> bool"
  la_evaluate :: "la_policy \<Rightarrow> string \<Rightarrow> la_result"

definition la_outcome :: "la_result \<Rightarrow> auth_outcome" where
  "la_outcome r =
     (case r of
        LaReply success err \<Rightarrow>
          if success then OApproved
          else (case err of Some code \<Rightarrow> map_la_error code | None \<Rightarrow> ODenied)
      | LaSilent \<Rightarrow> OError ''touch-id timed out''
      | LaTaskFailed \<Rightarrow> OError ''touch-id task failed'')"

definition touch_id_gate :: "local_auth \<Rightarrow> auth_prompt \<Rightarrow> auth_outcome" where
  "touch_id_gate la prompt =
     (let policy = la_policy_for (ap_biometrics_only prompt) in
      if \<not> la_can_evaluate la policy then OUnavailable
      else la_outcome (la_evaluate la policy (ap_reason prompt)))"

definition fail_closed_gate :: "auth_prompt \<Rightarrow> auth_outcome" where
  "fail_closed_gate prompt = OUnavailable"

text \<open>The test-mode gate of \<^verbatim>\<open>core/shed-app/src/fakes.rs\<close>.\<close>

definition always_approved_gate :: "auth_prompt \<Rightarrow> auth_outcome" where
  "always_approved_gate prompt = OApproved"

section \<open>Banner text\<close>

definition escape_body_markup :: "string \<Rightarrow> string" where
  "escape_body_markup s = str_replace ''>'' ''&gt;'' (str_replace ''<'' ''&lt;'' (str_replace ''&'' ''&amp;'' s))"

definition osa_quote :: "string \<Rightarrow> string" where
  "osa_quote s =
     [CHR 0x22] @ str_replace [CHR 0x22] [CHR 0x5C, CHR 0x22] (str_replace [CHR 0x5C] [CHR 0x5C, CHR 0x5C] s) @ [CHR 0x22]"

text \<open>\<^verbatim>\<open>OsaNotifier::post\<close>: the program it runs and its arguments.\<close>

definition osa_post :: "approval_request \<Rightarrow> string \<times> string list" where
  "osa_post req =
     (''/usr/bin/osascript'',
      [''-e'', ''display notification '' @ osa_quote (notification_body req) @ '' with title '' @ osa_quote (notification_title req)])"

section \<open>The gate contract\<close>

locale auth_gate =
  fixes gate :: "'w \<Rightarrow> auth_prompt \<Rightarrow> auth_outcome"
    and confirmed :: "'w \<Rightarrow> auth_prompt \<Rightarrow> bool"
  assumes approved_confirmed: "gate w p = OApproved \<Longrightarrow> confirmed w p"
begin

lemma approval_confirmed:
  assumes "sys_reachable y" "t \<in> set (sy_gates y)"
    "FxRespond i Approve b sc ttl \<in> set (new_fx env (resolve_command t (gate w p)) (sy_coord y))"
  shows "confirmed w p"
proof -
  have inv: "sys_inv y" using assms(1) by (rule sys_reachable_inv)
  then have "is_biometric (gt_gate t)" "coord_inv (sy_coord y)" using assms(2) by (auto simp: sys_inv_def)
  then have "gate w p = OApproved"
    using gate_reason [of "sy_coord y" i Approve b sc ttl env "gt_id t" "gt_request t" "gt_gate t" "gt_choice t" "gate w p" "gt_reply t"]
      assms(3) unfolding resolve_command_def by (auto simp: user_reason_def)
  then show ?thesis by (rule approved_confirmed)
qed

end

interpretation polkit: auth_gate "polkit_gate pid"
  "\<lambda>run p. \<not> ap_biometrics_only p \<and> run pkcheck_path (pkcheck_args pid) = Some (ExitCode 0)" for pid
  by unfold_locales (auto simp: polkit_gate_def split: if_splits option.splits exit_status.splits)

lemma map_la_error_not_approved: "map_la_error code \<noteq> OApproved"
  by (simp add: map_la_error_def)

interpretation touch_id: auth_gate touch_id_gate
  "\<lambda>la p. la_can_evaluate la (la_policy_for (ap_biometrics_only p))
     \<and> (\<exists>err. la_evaluate la (la_policy_for (ap_biometrics_only p)) (ap_reason p) = LaReply True err)"
  by unfold_locales (auto simp: touch_id_gate_def la_outcome_def map_la_error_not_approved Let_def
      split: if_splits la_result.splits option.splits)

interpretation fail_closed: auth_gate "\<lambda>_. fail_closed_gate" "\<lambda>_ _. False"
  by unfold_locales (simp add: fail_closed_gate_def)

text \<open>The prompt the coordinator opens a gate task with.\<close>

definition task_prompt :: "gate_task \<Rightarrow> auth_prompt" where
  "task_prompt t = gate_prompt (gt_request t) (gt_gate t)"

text \<open>
  C14. A gated approval is authenticated by the operating system. When the outcome of a gate task comes from the
  polkit gate, an approve is sent only if \<^verbatim>\<open>/usr/bin/pkcheck\<close>, run for the app's own process and action, exited
  with 0, and never for a request that demands biometrics; when it comes from the Touch-ID gate, only if the
  device can evaluate the policy the request demands and LocalAuthentication reported success for it; the gate of
  other platforms never lets one through.
\<close>

theorem native_approval_is_authenticated:
  assumes "sys_reachable y" "t \<in> set (sy_gates y)"
  shows "(FxRespond i Approve b sc ttl \<in> set (new_fx env (resolve_command t (polkit_gate pid run (task_prompt t))) (sy_coord y))
      \<longrightarrow> gt_gate t \<noteq> Biometrics \<and> run ''/usr/bin/pkcheck'' (pkcheck_args pid) = Some (ExitCode 0))
    \<and> (FxRespond i Approve b sc ttl \<in> set (new_fx env (resolve_command t (touch_id_gate la (task_prompt t))) (sy_coord y))
      \<longrightarrow> la_can_evaluate la (la_policy_for (gt_gate t = Biometrics))
        \<and> (\<exists>err. la_evaluate la (la_policy_for (gt_gate t = Biometrics)) (ap_reason (task_prompt t)) = LaReply True err))
    \<and> FxRespond i Approve b sc ttl \<notin> set (new_fx env (resolve_command t (fail_closed_gate (task_prompt t))) (sy_coord y))"
  using polkit.approval_confirmed [OF assms, where p = "task_prompt t"] touch_id.approval_confirmed [OF assms, where p = "task_prompt t"]
    fail_closed.approval_confirmed [OF assms, where p = "task_prompt t"]
  by (auto simp: task_prompt_def gate_prompt_def pkcheck_path_def)

theorem native_approval_is_authenticated_witness:
  "\<exists>y t sc ttl. sys_reachable y \<and> t \<in> set (sy_gates y)
     \<and> FxRespond ''r1'' Approve ByTouchid sc ttl
         \<in> set (new_fx (demo_env 12) (resolve_command t (polkit_gate 42 (\<lambda>_ _. Some (ExitCode 0)) (task_prompt t))) (sy_coord y))
     \<and> gt_gate t \<noteq> Biometrics"
proof -
  let ?y = "\<lparr>sy_coord = demo_gated, sy_gates = [demo_task]\<rparr>"
  have p: "polkit_gate 42 (\<lambda>_ _. Some (ExitCode 0)) (task_prompt demo_task) = OApproved"
    by (simp add: polkit_gate_def task_prompt_def gate_prompt_def demo_task_def)
  obtain sc ttl where r: "FxRespond ''r1'' Approve ByTouchid sc ttl
      \<in> set (new_fx (demo_env 12) (resolve_command demo_task (polkit_gate 42 (\<lambda>_ _. Some (ExitCode 0)) (task_prompt demo_task))) (sy_coord ?y))"
    using demo_respond p by auto
  have t: "demo_task \<in> set (sy_gates ?y)" by simp
  have "gt_gate demo_task \<noteq> Biometrics"
    using native_approval_is_authenticated [OF demo_reachable t, of "''r1''" ByTouchid sc ttl "demo_env 12" 42] r by blast
  then show ?thesis using demo_reachable t r by blast
qed

section \<open>Banner text cannot carry markup or script\<close>

lemma str_replace_char:
  "str_replace [c] r s = concat (map (\<lambda>x. if x = c then r else [x]) s)"
  by (induction s) (simp_all add: str_replace.simps(2))

lemma escape_body_Cons:
  "escape_body_markup (c # cs) =
     (if c = CHR ''&'' then ''&amp;'' else if c = CHR ''<'' then ''&lt;'' else if c = CHR ''>'' then ''&gt;'' else [c])
     @ escape_body_markup cs"
  by (simp add: escape_body_markup_def str_replace_char)

lemma escape_body_Nil [simp]: "escape_body_markup [] = []"
  by (simp add: escape_body_markup_def)

text \<open>How a markup-rendering daemon reads a body without tags: entities stand for their characters.\<close>

fun markup_text :: "string \<Rightarrow> string option" where
  "markup_text [] = Some []"
| "markup_text (c # cs) =
     (if c = CHR ''<'' then None
      else if c \<noteq> CHR ''&'' then map_option (Cons c) (markup_text cs)
      else case cs of
        a # m # p # q # r \<Rightarrow>
          if a = CHR ''l'' \<and> m = CHR ''t'' \<and> p = CHR '';'' then map_option (Cons (CHR ''<'')) (markup_text (q # r))
          else if a = CHR ''g'' \<and> m = CHR ''t'' \<and> p = CHR '';'' then map_option (Cons (CHR ''>'')) (markup_text (q # r))
          else if a = CHR ''a'' \<and> m = CHR ''m'' \<and> p = CHR ''p'' \<and> q = CHR '';'' then map_option (Cons (CHR ''&'')) (markup_text r)
          else None
      | [a, m, p] \<Rightarrow>
          if a = CHR ''l'' \<and> m = CHR ''t'' \<and> p = CHR '';'' then Some ''<''
          else if a = CHR ''g'' \<and> m = CHR ''t'' \<and> p = CHR '';'' then Some ''>'' else None
      | _ \<Rightarrow> None)"

lemma markup_text_escape: "markup_text (escape_body_markup s) = Some s"
proof (induction s)
  case (Cons c cs)
  then show ?case by (cases "escape_body_markup cs") (auto simp: escape_body_Cons)
qed simp

lemma osa_quote_reads_back: "\<exists>r. osa_quote s @ rest = CHR 0x22 # r \<and> applescript_read r = Some (s, rest)"
  using applescript_embedding [of s rest] by (simp add: osa_quote_def applescript_escape_def)

end
