(* ===== verification/Ipc_Server.thy ===== *)
theory Ipc_Server
  imports Ipc_Safety Sse
begin

text \<open>
  The IPC server around the handlers (\<^verbatim>\<open>serve_conn\<close>, \<^verbatim>\<open>read_capped_line\<close>, \<^verbatim>\<open>write_line\<close> and \<^verbatim>\<open>handle_line\<close> in
  \<^verbatim>\<open>tauri/src-tauri/src/ipc.rs\<close>): capped framing of the byte stream, the request envelope and the reply
  envelope. The stream of a connection is the bytes up to its end or read error.
\<close>

section \<open>Framing\<close>

definition ipc_max_frame_bytes :: nat where "ipc_max_frame_bytes = 2 ^ 20"

datatype stream_end = StreamEof | StreamError

datatype line_read = LineOk string | LineEof | LineError

text \<open>\<open>buf\<close> is what was read of the line so far; the result has the bytes left.\<close>

fun read_capped_line :: "nat \<Rightarrow> string \<Rightarrow> stream_end \<Rightarrow> string \<Rightarrow> line_read \<times> string" where
  "read_capped_line mx buf e [] =
     (case e of
        StreamEof \<Rightarrow> (if buf \<noteq> [] then LineOk (utf8_lossy buf) else LineEof)
      | StreamError \<Rightarrow> LineError, [])"
| "read_capped_line mx buf e (c # cs) =
     (if c = CHR 0x0A then (LineOk (utf8_lossy buf), cs)
      else if mx \<le> length buf then (LineError, cs)
      else read_capped_line mx (buf @ [c]) e cs)"

lemma read_line_rest: "length (snd (read_capped_line mx buf e s)) \<le> length s - 1"
  by (induction s arbitrary: buf) (auto intro: le_trans [OF _ diff_le_self])

lemma read_line_progress: "(LineOk l, rest) = read_capped_line mx [] e s \<Longrightarrow> length rest < length s"
  using read_line_rest [of mx "[]" e s] by (cases s) (auto split: stream_end.splits dest: sym)

section \<open>Requests and replies\<close>

definition error_reply :: "string \<Rightarrow> string \<Rightarrow> (string \<times> json) list" where
  "error_reply code message = [(''ok'', JBool False), (''error'', JObj [(''code'', JStr code), (''message'', JStr message)])]"

definition too_large_reply :: json where
  "too_large_reply = JObj (error_reply ''frame_too_large'' ''request exceeds 1 MiB'')"

text \<open>\<open>parse\<close> reads the text of a request as a value; \<open>perr\<close> is the text of its syntax error.\<close>

definition ipc_handle_line ::
  "(string \<Rightarrow> json option) \<Rightarrow> (string \<Rightarrow> string) \<Rightarrow> world \<Rightarrow> string \<Rightarrow> app \<Rightarrow> json \<times> app" where
  "ipc_handle_line parse perr w line a =
     (case parse line of
        None \<Rightarrow> (JObj (error_reply ''bad_request'' (perr line)), a)
      | Some req \<Rightarrow>
          (let i = unwrap_or (json_get req ''id'') JNull;
               op = unwrap_or (Option.bind (json_get req ''op'') as_str) [];
               params = unwrap_or (json_get req ''params'') (JObj [])
           in case dispatch op w params a of
                (Inr result, a) \<Rightarrow> (JObj [(''id'', i), (''ok'', JBool True), (''result'', result)], a)
              | (Inl (code, message), a) \<Rightarrow> (JObj ((''id'', i) # error_reply code message), a)))"

text \<open>
  One connection: \<open>ws k\<close> are the surroundings of the \<open>k\<close>-th request on it, \<open>sent k\<close> whether the \<open>k\<close>-th reply can
  be written. The result has the replies that were written.
\<close>

function serve_conn ::
  "(string \<Rightarrow> json option) \<Rightarrow> (string \<Rightarrow> string) \<Rightarrow> (nat \<Rightarrow> world) \<Rightarrow> (nat \<Rightarrow> bool) \<Rightarrow> nat \<Rightarrow> stream_end \<Rightarrow> string \<Rightarrow> app
    \<Rightarrow> json list \<times> app" where
  "serve_conn parse perr ws sent k e stream a =
     (case read_capped_line ipc_max_frame_bytes [] e stream of
        (LineEof, _) \<Rightarrow> ([], a)
      | (LineError, _) \<Rightarrow> ((if sent k then [too_large_reply] else []), a)
      | (LineOk line, rest) \<Rightarrow>
          if trim line = [] then serve_conn parse perr ws sent k e rest a
          else (case ipc_handle_line parse perr (ws k) (trim line) a of
                  (resp, a) \<Rightarrow>
                    if sent k
                    then (case serve_conn parse perr ws sent (k + 1) e rest a of (resps, a) \<Rightarrow> (resp # resps, a))
                    else ([], a)))"
  by pat_completeness auto
termination
  by (relation "measure (\<lambda>(parse, perr, ws, sent, k, e, stream, a). length stream)")
     (auto dest!: read_line_progress)

declare serve_conn.simps [simp del]

text \<open>The bytes the server writes for the replies.\<close>

definition write_lines :: "(json \<Rightarrow> string) \<Rightarrow> json list \<Rightarrow> string" where
  "write_lines ser resps = concat (map (\<lambda>v. ser v @ [CHR 0x0A]) resps)"

section \<open>Framing lemmas\<close>

lemma read_line_short:
  assumes "CHR 0x0A \<notin> set l" "length buf + length l \<le> mx"
  shows "read_capped_line mx buf e (l @ CHR 0x0A # rest) = (LineOk (utf8_lossy (buf @ l)), rest)"
  using assms by (induction l arbitrary: buf) auto

lemma read_line_eof:
  assumes "CHR 0x0A \<notin> set l" "length buf + length l \<le> mx"
  shows "read_capped_line mx buf StreamEof l = (if buf @ l = [] then LineEof else LineOk (utf8_lossy (buf @ l)), [])"
  using assms by (induction l arbitrary: buf) auto

lemma read_line_long:
  assumes "CHR 0x0A \<notin> set l" "mx < length buf + length l" "length buf \<le> mx"
  shows "\<exists>rest. read_capped_line mx buf e (l @ tail) = (LineError, rest)"
  using assms
proof (induction l arbitrary: buf)
  case (Cons c l)
  then show ?case
    by (cases "mx \<le> length buf") (auto simp: Suc_le_eq not_le)
qed simp


section \<open>Line by line\<close>

text \<open>The reference: the lines of the stream one after the other, blank lines skipped.\<close>

fun answer_lines ::
  "(string \<Rightarrow> json option) \<Rightarrow> (string \<Rightarrow> string) \<Rightarrow> (nat \<Rightarrow> world) \<Rightarrow> nat \<Rightarrow> string list \<Rightarrow> app \<Rightarrow> json list \<times> app" where
  "answer_lines parse perr ws k [] a = ([], a)"
| "answer_lines parse perr ws k (l # ls) a =
     (if trim (utf8_lossy l) = [] then answer_lines parse perr ws k ls a
      else case ipc_handle_line parse perr (ws k) (trim (utf8_lossy l)) a of
        (resp, a) \<Rightarrow> (case answer_lines parse perr ws (k + 1) ls a of (resps, a) \<Rightarrow> (resp # resps, a)))"

definition fits :: "string \<Rightarrow> bool" where
  "fits l \<longleftrightarrow> length l \<le> ipc_max_frame_bytes"

definition served :: "(string \<Rightarrow> json option) \<Rightarrow> (string \<Rightarrow> string) \<Rightarrow> (nat \<Rightarrow> world) \<Rightarrow> nat \<Rightarrow> string list \<Rightarrow> app \<Rightarrow> json list \<times> app" where
  "served parse perr ws k ls a =
     (case answer_lines parse perr ws k (takeWhile fits ls) a of
        (resps, a) \<Rightarrow> (resps @ (if list_all fits ls then [] else [too_large_reply]), a))"

lemma served_simps:
  "served parse perr ws k [] a = ([], a)"
  "\<not> fits l \<Longrightarrow> served parse perr ws k (l # ls) a = ([too_large_reply], a)"
  "fits l \<Longrightarrow> trim (utf8_lossy l) = [] \<Longrightarrow> served parse perr ws k (l # ls) a = served parse perr ws k ls a"
  "fits l \<Longrightarrow> trim (utf8_lossy l) \<noteq> [] \<Longrightarrow> ipc_handle_line parse perr (ws k) (trim (utf8_lossy l)) a = (resp, a') \<Longrightarrow>
     served parse perr ws k (l # ls) a = (case served parse perr ws (k + 1) ls a' of (resps, a) \<Rightarrow> (resp # resps, a))"
  by (simp_all add: served_def split: prod.splits)

lemma read_long_line:
  assumes "CHR 0x0A \<notin> set l" "\<not> fits l"
  shows "\<exists>rest. read_capped_line ipc_max_frame_bytes [] e (l @ tail) = (LineError, rest)"
  using read_line_long [of l ipc_max_frame_bytes "[]" e tail] assms by (simp add: fits_def)

lemma serve_conn_long:
  assumes "CHR 0x0A \<notin> set l" "\<not> fits l"
  shows "serve_conn parse perr ws (\<lambda>_. True) k e (l @ tail) a = served parse perr ws k (l # ls) a"
proof -
  obtain rest where "read_capped_line ipc_max_frame_bytes [] e (l @ tail) = (LineError, rest)"
    using read_long_line [OF assms] by blast
  then show ?thesis using assms(2) by (subst serve_conn.simps) (simp add: served_simps(2))
qed

lemma serve_conn_line:
  assumes "CHR 0x0A \<notin> set l" "fits l"
    and IH: "\<And>k a. serve_conn parse perr ws (\<lambda>_. True) k e rest a = served parse perr ws k ls a"
  shows "serve_conn parse perr ws (\<lambda>_. True) k e (l @ CHR 0x0A # rest) a = served parse perr ws k (l # ls) a"
proof -
  have r: "read_capped_line ipc_max_frame_bytes [] e (l @ CHR 0x0A # rest) = (LineOk (utf8_lossy l), rest)"
    using read_line_short [of l "[]" ipc_max_frame_bytes e rest] assms by (simp add: fits_def)
  obtain resp a' where h: "ipc_handle_line parse perr (ws k) (trim (utf8_lossy l)) a = (resp, a')" by fastforce
  show ?thesis
    by (subst serve_conn.simps, cases "trim (utf8_lossy l) = []")
       (simp_all add: r h IH served_simps(3,4) assms(2))
qed

lemma serve_conn_last:
  assumes "CHR 0x0A \<notin> set l" "fits l"
  shows "serve_conn parse perr ws (\<lambda>_. True) k StreamEof l a = served parse perr ws k [l] a"
proof -
  have e: "serve_conn parse perr ws (\<lambda>_. True) k StreamEof [] a = ([], a)" for k a
    by (simp add: serve_conn.simps)
  have r: "read_capped_line ipc_max_frame_bytes [] StreamEof l = (if l = [] then LineEof else LineOk (utf8_lossy l), [])"
    using read_line_eof [of l "[]" ipc_max_frame_bytes] assms by (simp add: fits_def)
  obtain resp a' where h: "ipc_handle_line parse perr (ws k) (trim (utf8_lossy l)) a = (resp, a')" by fastforce
  show ?thesis
  proof (cases "l = []")
    case True
    then show ?thesis using assms(2) by (simp add: e served_simps)
  next
    case False
    then show ?thesis
      by (subst serve_conn.simps, cases "trim (utf8_lossy l) = []")
         (simp_all add: r h e served_simps assms(2))
  qed
qed

lemma serve_conn_served:
  "serve_conn parse perr ws (\<lambda>_. True) k StreamEof stream a = served parse perr ws k (split_on (CHR 0x0A) stream) a"
proof (induction "length stream" arbitrary: stream k a rule: less_induct)
  case less
  show ?case
  proof (cases "CHR 0x0A \<in> set stream")
    case True
    then obtain l rest where s: "stream = l @ CHR 0x0A # rest" "CHR 0x0A \<notin> set l" by (meson split_list_first)
    have IH: "\<And>k a. serve_conn parse perr ws (\<lambda>_. True) k StreamEof rest a = served parse perr ws k (split_on (CHR 0x0A) rest) a"
      by (rule less) (simp add: s)
    show ?thesis
    proof (cases "fits l")
      case True
      then show ?thesis using serve_conn_line [OF s(2) True IH] by (simp add: s split_on_append)
    next
      case False
      then show ?thesis using serve_conn_long [OF s(2) False] by (simp add: s split_on_append)
    qed
  next
    case plain: False
    show ?thesis
    proof (cases "fits stream")
      case True
      then show ?thesis using serve_conn_last [OF plain True] by (simp add: plain split_on_plain)
    next
      case False
      then show ?thesis using serve_conn_long [OF plain False, of _ _ _ _ _ "[]"] by (simp add: plain split_on_plain)
    qed
  qed
qed

text \<open>
  C35. A connection is served line by line. For every byte stream, however it is cut: the server answers each
  line that is not blank with exactly one reply, in order, each request handled on the state the previous
  one left; a line of more than 1 MiB gets the error reply instead and ends the connection, so that
  nothing after it is handled; a last line without a newline counts.
\<close>

theorem connection_is_served_line_by_line:
  "serve_conn parse perr ws (\<lambda>_. True) k StreamEof stream a = served parse perr ws k (split_on (CHR 0x0A) stream) a"
  by (rule serve_conn_served)


section \<open>Well-formed replies\<close>

text \<open>
  The codes that this server uses in its errors. They are not the stable codes that \<^verbatim>\<open>docs/reference/ipc.md\<close> lists,
  although \<^verbatim>\<open>docs/reference/architecture.md\<close> says that the Tauri client speaks the same protocol: one is in both.
\<close>

definition server_codes :: "string list" where
  "server_codes = [''bad_request'', ''frontend_not_ready'', ''screenshot_failed'', ''action_failed'', ''not_enabled'',
     ''invalid-param'', ''not_found'', ''unknown_op'', ''frame_too_large'']"

definition documented_codes :: "string list" where
  "documented_codes = [''unknown-op'', ''invalid-param'', ''unknown-field'', ''not-found'', ''internal'', ''not-enabled'']"

lemma server_codes_are_not_the_documented_ones: "set server_codes \<inter> set documented_codes = {''invalid-param''}"
  by (auto simp: server_codes_def documented_codes_def)

definition code_ok :: "ipc_error + 'a \<Rightarrow> bool" where
  "code_ok r = (case r of Inl e \<Rightarrow> fst e \<in> set server_codes | Inr _ \<Rightarrow> True)"

named_theorems handler_codes "the error codes of each handler of the IPC socket"

lemma code_ok_simps [simp]: "code_ok (Inr x)" "code_ok (Inl (ipc_err c m)) \<longleftrightarrow> c \<in> set server_codes"
  by (simp_all add: code_ok_def ipc_err_def)

lemma code_ok_with_par:
  "code_ok r \<Longrightarrow> (\<And>p. r = Inr p \<Longrightarrow> code_ok (fst (f p a))) \<Longrightarrow> code_ok (fst (with_par r f a))"
  by (auto simp: with_par_def code_ok_def split: sum.splits)

lemma code_ok_bind: "code_ok r \<Longrightarrow> (\<And>x. r = Inr x \<Longrightarrow> code_ok (f x)) \<Longrightarrow> code_ok (bind_result r f)"
  by (cases r) (auto simp: code_ok_def)

lemma code_ok_map_err: "(\<And>e. fst (f e) \<in> set server_codes) \<Longrightarrow> code_ok (map_err f r)"
  by (cases r) (auto simp: code_ok_def)

lemma code_ok_par [simp]:
  "code_ok (req_str params key)" "code_ok (rc_kind_param params)" "code_ok (serde_par w rd params)"
  "code_ok (rc_target_par w params a)" "code_ok (Inl (rc_err e))" "code_ok (parse_preset p)"
  "code_ok (ok_or (ipc_err ''bad_request'' m) x)"
  by (auto simp: req_str_def rc_kind_param_def serde_par_def rc_target_par_def ok_or_def rc_err_def parse_preset_def ipc_err_def
      server_codes_def code_ok_def map_err_def split: option.splits rc_error.splits sum.splits)

lemma code_ok_term [simp]:
  "code_ok (term_preview hv d b st rq)" "code_ok (fst (term_open hv sp d b st rq))"
  "code_ok (fst (term_set_terminal ser w p t st))"
proof -
  have r: "code_ok (term_resolve hv d b st rq)"
    unfolding term_resolve_def
    by (intro code_ok_bind code_ok_map_err)
       (auto simp: resolve_pref_def ipc_err_def server_codes_def intro!: code_ok_bind split: option.splits)
  then show "code_ok (term_preview hv d b st rq)" "code_ok (fst (term_open hv sp d b st rq))"
    by (auto simp: term_preview_def term_open_def server_codes_def intro!: code_ok_bind split: sum.splits option.splits)
      (auto simp: code_ok_def)
  show "code_ok (fst (term_set_terminal ser w p t st))"
    using code_ok_par(6) [of p] by (auto simp: term_set_terminal_def code_ok_def split: sum.splits)
qed

lemma code_ok_inject [simp]: "code_ok (build_inject_session w params a)"
  unfolding build_inject_session_def Let_def
  by (intro code_ok_bind code_ok_map_err) (auto simp: ipc_err_def server_codes_def intro: code_ok_map_err split: option.splits)

lemma codes_plain [handler_codes]:
  "code_ok (fst (h_identify w params a))" "code_ok (fst (h_ui_key f k w params a))"
  "code_ok (fst (h_present events w params a))" "code_ok (fst (h_tray e w params a))"
  "code_ok (fst (h_tray_dump w params a))" "code_ok (fst (h_login_status w params a))"
  "code_ok (fst (h_dashboard_dump w params a))" "code_ok (fst (h_terminal_presets w params a))"
  "code_ok (fst (h_prefs_get w params a))" "code_ok (fst (h_agents_dump w params a))"
  "code_ok (fst (h_sheds_refresh w params a))" "code_ok (fst (h_sheds_list w params a))"
  "code_ok (fst (h_system_df w params a))" "code_ok (fst (h_rc_list w params a))"
  "code_ok (fst (h_approvals_list w params a))" "code_ok (fst (h_activity_list w params a))"
  "code_ok (fst (h_activity_log_path w params a))" "code_ok (fst (h_policy_list w params a))"
  "code_ok (fst (h_notifications_list w params a))" "code_ok (fst (h_ssh_prefs w params a))"
  by (simp_all add: h_identify_def h_ui_key_def h_present_def h_tray_def h_tray_dump_def h_login_status_def h_dashboard_dump_def
      h_terminal_presets_def h_prefs_get_def h_agents_dump_def h_sheds_refresh_def h_sheds_list_def h_system_df_def h_rc_list_def
      h_approvals_list_def h_activity_list_def h_activity_log_path_def h_policy_list_def h_notifications_list_def h_ssh_prefs_def
      Let_def split: prod.splits)

lemma codes_windows [handler_codes]:
  "code_ok (fst (h_navigate w params a))" "code_ok (fst (h_screenshot w params a))" "code_ok (fst (h_login_set w params a))"
  by (auto simp: h_navigate_def h_screenshot_def h_login_set_def server_codes_def Let_def intro!: code_ok_with_par
      split: sum.splits prod.splits option.split)

lemma codes_sheds [handler_codes]:
  "code_ok (fst (h_shed_action act w params a))" "code_ok (fst (h_create_start w params a))"
  "code_ok (fst (h_create_status w params a))" "code_ok (fst (h_create_cancel w params a))"
  "code_ok (fst (h_terminal_preview w params a))" "code_ok (fst (h_prefs_set_terminal w params a))"
  unfolding h_shed_action_def h_create_start_def h_create_status_def h_create_cancel_def h_terminal_preview_def
    h_prefs_set_terminal_def
  by (auto simp: server_codes_def split_beta intro!: code_ok_with_par split: sum.splits prod.splits)

lemma codes_guarded [handler_codes]:
  "code_ok (fst (h_terminal_open w params a))" "code_ok (fst (h_rc_inject_test w params a))"
  "code_ok (fst (h_policy_set w params a))"
  by (auto simp: h_terminal_open_def h_rc_inject_test_def h_policy_set_def server_codes_def split_beta intro!: code_ok_with_par
      split: sum.splits prod.splits)

lemma codes_rc [handler_codes]:
  "code_ok (fst (h_rc_classify w params a))" "code_ok (fst (h_rc_launch w params a))" "code_ok (fst (h_rc_kill w params a))"
  unfolding h_rc_classify_def h_rc_launch_def h_rc_kill_def
  by (auto intro!: code_ok_with_par split: sum.splits prod.splits)

lemma codes_approvals [handler_codes]:
  "code_ok (fst (h_approval_decide w params a))" "code_ok (fst (h_notification_invoke w params a))"
  "code_ok (fst (h_set_ssh_approval w params a))"
  unfolding h_approval_decide_def h_notification_invoke_def h_set_ssh_approval_def Let_def
  by (auto simp: server_codes_def intro!: code_ok_with_par split: prod.splits)

lemma codes_dispatch: "code_ok (fst (dispatch op w params a))"
proof (cases "map_of op_table op")
  case None
  then show ?thesis by (simp add: dispatch_def server_codes_def)
next
  case (Some h)
  from map_of_SomeD [OF this] have "code_ok (fst (h w params a))"
    unfolding op_table_def by (auto simp: handler_codes)
  with Some show ?thesis by (simp add: dispatch_def)
qed


definition well_formed_error :: "json \<Rightarrow> bool" where
  "well_formed_error v =
     (case (json_get v ''code'', json_get v ''message'') of
        (Some (JStr code), Some (JStr message)) \<Rightarrow> code \<in> set server_codes
      | _ \<Rightarrow> False)"

definition well_formed_reply :: "json \<Rightarrow> bool" where
  "well_formed_reply v =
     (value_keys_ok v \<and>
      (case json_get v ''ok'' of
         Some (JBool success) \<Rightarrow>
           if success then json_get v ''result'' \<noteq> None \<and> json_get v ''error'' = None
           else json_get v ''result'' = None \<and> (case json_get v ''error'' of Some e \<Rightarrow> well_formed_error e | None \<Rightarrow> False)
       | _ \<Rightarrow> False))"

lemma well_formed_error_reply:
  assumes "code \<in> set server_codes"
  shows "well_formed_reply (JObj (error_reply code message))" "well_formed_reply (JObj ((''id'', i) # error_reply code message))"
  using assms by (simp_all add: well_formed_reply_def well_formed_error_def value_keys_ok_def error_reply_def json_get_def)

lemma well_formed_ok_reply: "well_formed_reply (JObj [(''id'', i), (''ok'', JBool True), (''result'', v)])"
  by (simp add: well_formed_reply_def value_keys_ok_def json_get_def)

text \<open>The code of an error reply, and what a reply has to do with the line it answers.\<close>

definition reply_code :: "json \<Rightarrow> string option" where
  "reply_code v = Option.bind (json_get v ''error'') (\<lambda>e. Option.bind (json_get e ''code'') as_str)"

definition answers_line :: "(string \<Rightarrow> json option) \<Rightarrow> string \<Rightarrow> json \<Rightarrow> bool" where
  "answers_line parse line v \<longleftrightarrow>
     (case parse line of
        None \<Rightarrow> json_get v ''id'' = None \<and> reply_code v = Some ''bad_request''
      | Some req \<Rightarrow>
          json_get v ''id'' = Some (case json_get req ''id'' of Some i \<Rightarrow> i | None \<Rightarrow> JNull)
          \<and> (case json_get req ''op'' of
               Some (JStr op) \<Rightarrow> op \<notin> fst ` set op_table \<longrightarrow> reply_code v = Some ''unknown_op''
             | _ \<Rightarrow> reply_code v = Some ''unknown_op''))"

lemma unknown_op: "op \<notin> fst ` set op_table \<Longrightarrow> dispatch op w params a = (Inl (''unknown_op'', ''unknown op: '' @ op), a)"
  by (simp add: dispatch_def ipc_err_def map_of_eq_None_iff [THEN iffD2])

lemma no_empty_op: "[] \<notin> fst ` set op_table"
  by (simp add: op_table_def)

lemma handled_reply:
  assumes "ipc_handle_line parse perr w line a = (resp, a')"
  shows "well_formed_reply resp" and "answers_line parse line resp"
proof -
  show "well_formed_reply resp"
  proof (cases "parse line")
    case None
    then show ?thesis using assms well_formed_error_reply(1) by (auto simp: ipc_handle_line_def server_codes_def)
  next
    case (Some req)
    let ?d = "dispatch (unwrap_or (Option.bind (json_get req ''op'') as_str) []) w (unwrap_or (json_get req ''params'') (JObj [])) a"
    have "code_ok (fst ?d)" by (rule codes_dispatch)
    then show ?thesis
      using assms Some
      by (auto simp: ipc_handle_line_def Let_def code_ok_def well_formed_ok_reply well_formed_error_reply
          split: prod.splits sum.splits)
  qed
  show "answers_line parse line resp"
  proof (cases "parse line")
    case None
    then show ?thesis using assms
      by (auto simp: ipc_handle_line_def answers_line_def reply_code_def error_reply_def json_get_def as_str_def)
  next
    case (Some req)
    have id: "json_get resp ''id'' = Some (unwrap_or (json_get req ''id'') JNull)"
      using assms Some by (auto simp: ipc_handle_line_def Let_def json_get_def split: prod.splits sum.splits)
    define op where "op = unwrap_or (Option.bind (json_get req ''op'') as_str) []"
    have code: "reply_code resp = Some ''unknown_op''" if "op \<notin> fst ` set op_table"
    proof -
      have "resp = JObj ((''id'', unwrap_or (json_get req ''id'') JNull) # error_reply ''unknown_op'' (''unknown op: '' @ op))"
        using assms unknown_op [OF that] by (simp add: ipc_handle_line_def Let_def Some op_def [symmetric])
      then show ?thesis by (simp add: reply_code_def error_reply_def json_get_def as_str_def)
    qed
    show ?thesis
      using id code no_empty_op Some
      by (auto simp: answers_line_def op_def unwrap_or_def as_str_def split: option.splits json.splits)
  qed
qed

lemma read_line_in_stream:
  "read_capped_line mx buf e stream = (LineOk line, rest) \<Longrightarrow> CHR 0x0A \<notin> set buf \<Longrightarrow>
   \<exists>l \<in> set (split_on (CHR 0x0A) (buf @ stream)). line = utf8_lossy l
     \<and> (rest = [] \<or> set (split_on (CHR 0x0A) rest) \<subseteq> set (split_on (CHR 0x0A) (buf @ stream)))"
proof (induction mx buf e stream rule: read_capped_line.induct)
  case (1 mx buf e)
  then show ?case by (auto simp: split_on_plain split: stream_end.splits if_splits)
next
  case (2 mx buf e c cs)
  show ?case
  proof (cases "c = CHR 0x0A")
    case True
    then show ?thesis using 2(2,3) by (auto simp: split_on_append)
  next
    case False
    then show ?thesis using 2 by (auto split: if_splits)
  qed
qed

text \<open>
  C36. The type of the replies. Whatever bytes a client sends, however the connection ends and whichever writes
  fail, every reply the server writes is a JSON object with distinct keys and a boolean \<^verbatim>\<open>ok\<close>: when it is
  true there is a \<^verbatim>\<open>result\<close> and no \<^verbatim>\<open>error\<close>, when it is false there is no \<^verbatim>\<open>result\<close> and an \<^verbatim>\<open>error\<close> with a message
  and one of the nine codes that the handlers use. It is the final reply to an oversized line or it answers a
  line of the stream: it carries the \<^verbatim>\<open>id\<close> of that request (null for one without), its code is \<^verbatim>\<open>unknown_op\<close> when
  the request names no operation of the table, and \<^verbatim>\<open>bad_request\<close> (then without an \<^verbatim>\<open>id\<close>) when the line is no
  JSON value.
\<close>

theorem replies_are_well_formed:
  "\<forall>v \<in> set (fst (serve_conn parse perr ws sent k e stream a)). well_formed_reply v
     \<and> (v = too_large_reply \<or> (\<exists>l \<in> set (split_on (CHR 0x0A) stream). answers_line parse (trim (utf8_lossy l)) v))"
proof (induction parse perr ws sent k e stream a rule: serve_conn.induct)
  case (1 parse perr ws sent k e stream a)
  obtain r rest where r: "read_capped_line ipc_max_frame_bytes [] e stream = (r, rest)" by fastforce
  show ?case
  proof (cases r)
    case (LineOk line)
    obtain l where l: "l \<in> set (split_on (CHR 0x0A) stream)" "line = utf8_lossy l"
      and sub: "rest = [] \<or> set (split_on (CHR 0x0A) rest) \<subseteq> set (split_on (CHR 0x0A) stream)"
      using read_line_in_stream [of _ "[]"] r LineOk by force
    have later: "\<forall>v \<in> set (fst (serve_conn parse perr ws sent j e rest b)). well_formed_reply v
        \<and> (v = too_large_reply \<or> (\<exists>l \<in> set (split_on (CHR 0x0A) stream). answers_line parse (trim (utf8_lossy l)) v))"
      if "\<forall>v \<in> set (fst (serve_conn parse perr ws sent j e rest b)). well_formed_reply v
        \<and> (v = too_large_reply \<or> (\<exists>l \<in> set (split_on (CHR 0x0A) rest). answers_line parse (trim (utf8_lossy l)) v))" for j b
    proof (cases "rest = []")
      case True
      then show ?thesis
        by (subst serve_conn.simps) (auto simp: too_large_reply_def well_formed_error_reply server_codes_def split: stream_end.splits)
    next
      case False
      then show ?thesis using that sub by blast
    qed
    obtain resp a' where h: "ipc_handle_line parse perr (ws k) (trim line) a = (resp, a')" by fastforce
    note rec = 1(1) [OF r [symmetric] LineOk, THEN later] 1(2) [OF r [symmetric] LineOk _ h [symmetric], THEN later]
    have "\<exists>l \<in> set (split_on (CHR 0x0A) stream). answers_line parse (trim (utf8_lossy l)) resp"
      using handled_reply(2) [OF h] l by blast
    then show ?thesis
      using rec handled_reply(1) [OF h] by (subst serve_conn.simps) (auto simp: r LineOk h split_beta)
  qed (subst serve_conn.simps, simp add: r too_large_reply_def well_formed_error_reply server_codes_def)+
qed

text \<open>A line that is no JSON value, and a request of an operation that only the documentation has.\<close>

theorem replies_are_well_formed_witness:
  "let parse = (\<lambda>l. if l = ''r'' then Some (JObj [(''id'', JStr ''7''), (''op'', JStr ''ui.hide_window'')]) else None);
       vs = fst (serve_conn parse (\<lambda>_. ''bad'') (\<lambda>_. demo_world) (\<lambda>_. True) 0 StreamEof [CHR ''x'', CHR 0x0A, CHR ''r''] (demo_app True))
   in map reply_code vs = [Some ''bad_request'', Some ''unknown_op'']
      \<and> map (\<lambda>v. json_get v ''id'') vs = [None, Some (JStr ''7'')] \<and> list_all well_formed_reply vs"
proof -
  let ?parse = "\<lambda>l. if l = ''r'' then Some (JObj [(''id'', JStr ''7''), (''op'', JStr ''ui.hide_window'')]) else None"
  let ?vs = "fst (serve_conn ?parse (\<lambda>_. ''bad'') (\<lambda>_. demo_world) (\<lambda>_. True) 0 StreamEof [CHR ''x'', CHR 0x0A, CHR ''r''] (demo_app True))"
  have c: "trim ''x'' = ''x''" "trim ''r'' = ''r''" "utf8_lossy ''x'' = ''x''" "utf8_lossy ''r'' = ''r''" by code_simp+
  have op: "''ui.hide_window'' \<notin> fst ` set op_table" by (simp add: op_table_def)
  have "?vs = [JObj (error_reply ''bad_request'' ''bad''),
      JObj ((''id'', JStr ''7'') # error_reply ''unknown_op'' (''unknown op: ui.hide_window''))]"
    by (simp add: serve_conn.simps c ipc_max_frame_bytes_def ipc_handle_line_def json_get_def as_str_def unknown_op [OF op]
        del: utf8_lossy.simps)
  moreover have "list_all well_formed_reply ?vs"
    using replies_are_well_formed unfolding list_all_iff by blast
  ultimately show ?thesis by (simp add: Let_def reply_code_def error_reply_def json_get_def as_str_def)
qed

end
