(* ===== verification/Shedctl.thy ===== *)
theory Shedctl
  imports Ipc_Server
begin

text \<open>
  The command-line client of the IPC socket (\<^verbatim>\<open>core/shedctl/src/main.rs\<close>): from the arguments to the request
  frame, from the reply line to the outcome of the process, and the two together with the server. The text
  of JSON values (\<open>ser\<close>, \<open>parse\<close>), Base64 and the connection are arguments.
\<close>

section \<open>Frames\<close>

record plan =
  pl_op :: string
  pl_params :: json
  pl_write_png_to :: "string option"

definition plan_call :: "string \<Rightarrow> json \<Rightarrow> plan" where
  "plan_call op params = \<lparr>pl_op = op, pl_params = params, pl_write_png_to = None\<rparr>"

definition build_request :: "string \<Rightarrow> string \<Rightarrow> json \<Rightarrow> json" where
  "build_request i op params = JObj [(''id'', JStr i), (''op'', JStr op), (''params'', params)]"

definition parse_reply :: "(string \<Rightarrow> json option) \<Rightarrow> (string \<Rightarrow> string) \<Rightarrow> string \<Rightarrow> (string \<times> string) + json" where
  "parse_reply parse perr line =
     (case parse (trim line) of
        None \<Rightarrow> Inl (''bad_reply'', ''invalid JSON reply: '' @ perr (trim line))
      | Some v \<Rightarrow>
          if Option.bind (json_get v ''ok'') as_bool = Some True then Inr (unwrap_or (json_get v ''result'') JNull)
          else (let field = (\<lambda>k. unwrap_or (Option.bind (Option.bind (json_get v ''error'') (\<lambda>e. json_get e k)) as_str) [])
                in Inl (if field ''code'' = [] then ''error'' else field ''code'', field ''message'')))"

section \<open>Arguments\<close>

definition parse_param :: "(string \<Rightarrow> json option) \<Rightarrow> string \<Rightarrow> string + string \<times> json" where
  "parse_param parse pair =
     (case split_once (CHR ''='') pair of
        None \<Rightarrow> Inl (''--param expects k=v, got '' @ [CHR 0x27] @ pair @ [CHR 0x27])
      | Some (key, raw) \<Rightarrow> Inr (key, unwrap_or (parse raw) (JStr raw)))"

text \<open>The first flag of a name and its value taken out: absent, without a value, or the value and the rest.\<close>

fun take_pair :: "string \<Rightarrow> string list \<Rightarrow> (string \<times> string list) option option" where
  "take_pair name [] = None"
| "take_pair name (a # args) =
     (if a = name then (case args of [] \<Rightarrow> Some None | v # rest \<Rightarrow> Some (Some (v, rest)))
      else map_option (map_option (\<lambda>(v, rest). (v, a # rest))) (take_pair name args))"

definition take_opt :: "string \<Rightarrow> string list \<Rightarrow> string + string option \<times> string list" where
  "take_opt name args =
     (case take_pair name args of
        None \<Rightarrow> Inr (None, args)
      | Some None \<Rightarrow> Inl (name @ '' requires a value'')
      | Some (Some (v, rest)) \<Rightarrow> Inr (Some v, rest))"

lemma take_pair_length: "take_pair name args = Some (Some (v, rest)) \<Longrightarrow> length rest < length args"
proof (induction args arbitrary: v rest)
  case (Cons a args)
  then show ?case by (cases "a = name") (auto split: list.splits)
qed simp

function take_params :: "(string \<Rightarrow> json option) \<Rightarrow> string list \<Rightarrow> string + (string \<times> json) list \<times> string list" where
  "take_params parse args =
     (case take_pair ''--param'' args of
        None \<Rightarrow> Inr ([], args)
      | Some None \<Rightarrow> Inl ''--param requires a k=v argument''
      | Some (Some (pair, rest)) \<Rightarrow>
          bind_result (parse_param parse pair) (\<lambda>kv.
            bind_result (take_params parse rest) (\<lambda>(kvs, rest'). Inr (kv # kvs, rest'))))"
  by pat_completeness auto
termination
  by (relation "measure (\<lambda>(parse, args). length args)") (auto dest: take_pair_length)

declare take_params.simps [simp del]

definition parse_scale :: "string option \<Rightarrow> string + nat" where
  "parse_scale scale =
     (case scale of
        None \<Rightarrow> Inr 1
      | Some s \<Rightarrow> ok_or (''--scale must be a positive integer, got '' @ [CHR 0x27] @ s @ [CHR 0x27]) (parse_u64 s))"

definition parse_command :: "(string \<Rightarrow> json option) \<Rightarrow> string list \<Rightarrow> string + plan" where
  "parse_command parse args =
     (case args of
        [] \<Rightarrow> Inl ''no command given''
      | cmd # rest \<Rightarrow>
          if cmd = ''identify'' then Inr (plan_call ''identify'' (JObj []))
          else if cmd = ''sheds''
          then (if rest \<noteq> [] \<and> hd rest = ''list'' then Inr (plan_call ''sheds.list'' (JObj [])) else Inl ''usage: shedctl sheds list'')
          else if cmd = ''dashboard''
          then (if rest \<noteq> [] \<and> hd rest = ''dump'' then Inr (plan_call ''dashboard.dump'' (JObj []))
                else Inl ''usage: shedctl dashboard dump'')
          else if cmd = ''screenshot''
          then bind_result (take_opt ''--out'' rest) (\<lambda>(file, rest).
               bind_result (take_opt ''--scale'' rest) (\<lambda>(scale, rest).
               bind_result (parse_scale scale) (\<lambda>n.
                 Inr \<lparr>pl_op = ''app.screenshot'', pl_params = JObj [(''scale'', JInt (int n))], pl_write_png_to = file\<rparr>)))
          else if cmd = ''shed''
          then bind_result (take_opt ''--host'' rest) (\<lambda>(host, rest).
               case rest of
                 [] \<Rightarrow> Inl ''shed requires an action (start|stop|reset|delete)''
               | action # more_args \<Rightarrow>
                   if action \<notin> set [''start'', ''stop'', ''reset'', ''delete''] then Inl (''unknown shed action: '' @ action)
                   else (case more_args of
                           [] \<Rightarrow> Inl ''shed <action> requires a NAME''
                         | name # _ \<Rightarrow>
                             (let params = JObj [(''name'', JStr name)];
                                  params = (case host of Some h \<Rightarrow> json_put ''host'' (JStr h) params | None \<Rightarrow> params)
                              in Inr (plan_call (''shed.'' @ action) params))))
          else if cmd = ''raw''
          then bind_result (take_params parse rest) (\<lambda>(pairs, rest).
               case rest of
                 [] \<Rightarrow> Inl ''raw requires an <op>''
               | op # _ \<Rightarrow> Inr (plan_call op (JObj (fold (\<lambda>(k, v). AList.update k v) pairs []))))
          else Inl (''unknown command: '' @ cmd))"

text \<open>The scale is only checked to be a 64-bit number: zero passes, and the app takes no notice of it.\<close>

lemma scale_zero_is_sent:
  "parse_command parse [''screenshot'', ''--scale'', ''0''] =
     Inr \<lparr>pl_op = ''app.screenshot'', pl_params = JObj [(''scale'', JInt 0)], pl_write_png_to = None\<rparr>
   \<and> dispatch ''app.screenshot'' w params a = dispatch ''app.screenshot'' w params' a"
proof -
  have "nat_to_string 0 = ''0''" by code_simp
  with parse_unsigned_to_string [of 0 "2 ^ 64 - 1"] have "parse_u64 ''0'' = Some 0" by (simp add: parse_u64_def)
  then have "parse_command parse [''screenshot'', ''--scale'', ''0''] =
     Inr \<lparr>pl_op = ''app.screenshot'', pl_params = JObj [(''scale'', JInt 0)], pl_write_png_to = None\<rparr>"
    by (simp add: parse_command_def take_opt_def parse_scale_def)
  moreover have "dispatch ''app.screenshot'' w p a = h_screenshot w p a" for p
    by (simp add: dispatch_def op_table_def)
  ultimately show ?thesis by (simp add: h_screenshot_def)
qed

section \<open>The socket\<close>

definition socket_path_from :: "string option \<Rightarrow> nat \<Rightarrow> string" where
  "socket_path_from xdg_runtime_dir uid =
     path_join (case xdg_runtime_dir of
                  Some x \<Rightarrow> if x \<noteq> [] then x else ''/tmp/shed-tauri-'' @ nat_to_string uid
                | None \<Rightarrow> ''/tmp/shed-tauri-'' @ nat_to_string uid) ''shed-tauri.sock''"

definition resolve_socket :: "(string \<Rightarrow> string option) \<Rightarrow> nat \<Rightarrow> string option \<Rightarrow> string" where
  "resolve_socket vars uid flag =
     unwrap_or (opt_or flag (opt_filter (\<lambda>v. v \<noteq> []) (vars ''SHED_TAURI_SOCKET''))) (socket_path_from (vars ''XDG_RUNTIME_DIR'') uid)"

section \<open>The process\<close>

text \<open>\<open>decode64\<close> is the decoder with the text of its error; \<open>write_file\<close> the error of writing the file, if any.\<close>

definition write_png ::
  "(string \<Rightarrow> string + string) \<Rightarrow> (string \<Rightarrow> string \<Rightarrow> string option) \<Rightarrow> json \<Rightarrow> string \<Rightarrow> string + string" where
  "write_png decode64 write_file result file =
     bind_result (ok_or (''screenshot reply had no '' @ [CHR 0x27] @ ''png'' @ [CHR 0x27] @ '' field'')
       (Option.bind (json_get result ''png'') as_str)) (\<lambda>b64.
     bind_result (map_err (\<lambda>e. ''failed to decode png base64: '' @ e) (decode64 b64)) (\<lambda>bytes.
       case write_file file bytes of
         Some e \<Rightarrow> Inl (''failed to write '' @ file @ '': '' @ e)
       | None \<Rightarrow>
           (let dim = (\<lambda>k. nat_to_string (unwrap_or (Option.bind (json_get result k) as_u64) 0))
            in Inr (''wrote '' @ file @ '' ('' @ dim ''width'' @ ''x'' @ dim ''height'' @ '')''))))"

datatype connection = NoConnection | ExchangeError string | ReplyLine string

datatype ctl_outcome = UsageError string | CtlError string | CtlPrinted json | CtlWrote string

text \<open>\<open>conn path frame\<close> is what connecting to the path and sending the frame gives.\<close>

definition ctl_run ::
  "(string \<Rightarrow> json option) \<Rightarrow> (string \<Rightarrow> string) \<Rightarrow> (string \<Rightarrow> string + string) \<Rightarrow> (string \<Rightarrow> string \<Rightarrow> string option)
    \<Rightarrow> (string \<Rightarrow> string option) \<Rightarrow> nat \<Rightarrow> (string \<Rightarrow> json \<Rightarrow> connection) \<Rightarrow> string list \<Rightarrow> ctl_outcome" where
  "ctl_run parse perr decode64 write_file vars uid conn args =
     (case take_opt ''--socket'' args of
        Inl e \<Rightarrow> UsageError e
      | Inr (socket_flag, args) \<Rightarrow>
          (case parse_command parse args of
             Inl e \<Rightarrow> UsageError e
           | Inr pl \<Rightarrow>
               (let path = resolve_socket vars uid socket_flag in
                case conn path (build_request ''1'' (pl_op pl) (pl_params pl)) of
                  NoConnection \<Rightarrow>
                    CtlError (''shedctl: cannot reach the IPC socket '' @ [CHR 0xE2, CHR 0x80, CHR 0x94]
                              @ '' is shed-desktop running? (socket: '' @ path @ '')'')
                | ExchangeError e \<Rightarrow> CtlError (''shedctl: IPC error: '' @ e)
                | ReplyLine line \<Rightarrow>
                    (case parse_reply parse perr line of
                       Inl (code, message) \<Rightarrow> CtlError (''error '' @ code @ '': '' @ message)
                     | Inr result \<Rightarrow>
                         (case pl_write_png_to pl of
                            Some file \<Rightarrow> (case write_png decode64 write_file result file of Inl e \<Rightarrow> CtlError (''shedctl: '' @ e) | Inr t \<Rightarrow> CtlWrote t)
                          | None \<Rightarrow> CtlPrinted result)))))"

section \<open>Client and server agree\<close>

text \<open>Without a flag, the client connects to the path that an app in the same environment binds.\<close>

lemma client_finds_the_app: "resolve_socket vars uid None = ae_socket_path (env_from_process macos uid vars)"
  by (simp add: resolve_socket_def env_from_process_def socket_path_from_def default_socket_path_def Let_def
      split: option.splits)


text \<open>
  The text of a value on the wire. A \<^verbatim>\<open>serde_json::Value\<close> keeps its objects sorted by key, so reading back what was
  written gives the value with sorted objects.
\<close>

fun canon :: "json \<Rightarrow> json" where
  "canon (JArr vs) = JArr (map canon vs)"
| "canon (JObj kvs) = JObj (sort_key fst (map (\<lambda>(k, v). (k, canon v)) kvs))"
| "canon v = v"

lemma map_of_filter: "map_of xs k = map_option snd (case filter (\<lambda>x. fst x = k) xs of [] \<Rightarrow> None | x # _ \<Rightarrow> Some x)"
  by (induction xs) auto

lemma map_of_sort_key: "map_of (sort_key fst xs) k = map_of xs k"
  by (simp add: map_of_filter [of "sort_key fst xs"] map_of_filter [of xs] sort_key_stable)

lemma json_get_canon [simp]: "json_get (canon v) k = map_option canon (json_get v k)"
proof (cases v)
  case (JObj kvs)
  have "map_of (map (\<lambda>(k, v). (k, canon v)) kvs) k = map_option canon (map_of kvs k)"
    by (induction kvs) auto
  then show ?thesis by (simp add: JObj json_get_def obj_get_map_of map_of_sort_key)
qed (simp_all add: json_get_def)

lemma canon_as [simp]: "as_str (canon v) = as_str v" "as_bool (canon v) = as_bool v"
  by (cases v; simp add: as_str_def as_bool_def)+

lemma bind_canon [simp]:
  "Option.bind (map_option canon x) as_str = Option.bind x as_str"
  "Option.bind (map_option canon x) as_bool = Option.bind x as_bool"
  by (cases x; simp)+

text \<open>What the program relies on when a value is written as a line and read back.\<close>

definition line_text :: "(json \<Rightarrow> string) \<Rightarrow> (string \<Rightarrow> json option) \<Rightarrow> json \<Rightarrow> bool" where
  "line_text ser parse v \<longleftrightarrow>
     CHR 0x0A \<notin> set (ser v) \<and> utf8_lossy (ser v) = ser v \<and> trim (ser v) = ser v \<and> ser v \<noteq> []
     \<and> parse (ser v) = Some (canon v)"

lemma ws_seqs_newline: "p \<in> set ws_seqs \<Longrightarrow> CHR 0x0A \<in> set p \<Longrightarrow> p = [CHR 0x0A]"
  by (auto simp: ws_seqs_def)

lemma strip_any_none: "strip_any ps s = None \<longleftrightarrow> (\<forall>p \<in> set ps. \<forall>r. s \<noteq> p @ r)"
proof (induction ps)
  case (Cons p ps)
  then show ?case by (auto simp: strip_prefix_Some split: option.splits)
qed simp

lemma strip_any_newline:
  assumes "strip_any ws_seqs s = None" "s \<noteq> []"
  shows "strip_any ws_seqs (s @ [CHR 0x0A]) = None"
  unfolding strip_any_none
proof (intro ballI allI notI)
  fix p r assume p: "p \<in> set ws_seqs" and e: "s @ [CHR 0x0A] = p @ r"
  show False
  proof (cases "CHR 0x0A \<in> set p")
    case True
    with ws_seqs_newline [OF p] e assms(2) have "s = [CHR 0x0A] @ tl s" by (cases s) auto
    with assms(1) p ws_seqs_newline [OF p True] show False unfolding strip_any_none by blast
  next
    case False
    with e have "r \<noteq> []" by (metis append_Nil2 in_set_conv_decomp)
    with e have "s = p @ butlast r" by (metis butlast_append butlast_snoc)
    with assms(1) p show False unfolding strip_any_none by blast
  qed
qed

lemma trim_newline:
  assumes "trim s = s" "s \<noteq> []"
  shows "trim (s @ [CHR 0x0A]) = s"
proof -
  have s: "strip_any ws_seqs s = None" using trim_start_clean [of s] trim_start_trim_end [of s] assms(1) by simp
  have "strip_any (map rev ws_seqs) (CHR 0x0A # r) = Some r" for r by (simp add: ws_seqs_def)
  then have "trim_rev (CHR 0x0A # r) = trim_rev r" for r by (subst trim_rev.simps) simp
  then have "trim (s @ [CHR 0x0A]) = trim_end s"
    by (simp add: trim_def trim_end_def trim_start_id [OF strip_any_newline [OF s assms(2)]])
  also have "trim_end s = trim s" by (simp add: trim_def trim_start_id [OF s])
  finally show ?thesis using assms(1) by simp
qed

lemma json_get_obj [simp]: "json_get (JObj kvs) k = obj_get kvs k"
  by (simp add: json_get_def)

definition reply_for :: "(ipc_error + json) \<Rightarrow> json" where
  "reply_for r =
     (case r of
        Inr result \<Rightarrow> JObj [(''id'', JStr ''1''), (''ok'', JBool True), (''result'', result)]
      | Inl (code, message) \<Rightarrow> JObj ((''id'', JStr ''1'') # error_reply code message))"

lemma parse_reply_for:
  assumes "line_text ser parse (reply_for r)" "code_ok r"
  shows "parse_reply parse perr (ser (reply_for r) @ [CHR 0x0A]) = (case r of Inr v \<Rightarrow> Inr (canon v) | Inl e \<Rightarrow> Inl e)"
proof -
  from assms(1) have "parse (trim (ser (reply_for r) @ [CHR 0x0A])) = Some (canon (reply_for r))"
    by (simp add: line_text_def trim_newline)
  moreover have "code = [] \<Longrightarrow> \<not> code_ok (Inl (code, message) :: ipc_error + json)" for code message
    by (simp add: code_ok_def server_codes_def)
  ultimately show ?thesis
    using assms(2)
    by (auto simp: parse_reply_def reply_for_def error_reply_def simp del: canon.simps(2) split: sum.splits)
qed


text \<open>The connection to an app that serves the socket path: the client sends its frame as a line and closes.\<close>

definition app_connection ::
  "(json \<Rightarrow> string) \<Rightarrow> (string \<Rightarrow> json option) \<Rightarrow> (string \<Rightarrow> string) \<Rightarrow> (nat \<Rightarrow> world) \<Rightarrow> app \<Rightarrow> string \<Rightarrow> string \<Rightarrow> json \<Rightarrow> connection" where
  "app_connection ser parse perr ws a socket_path path frame =
     (if path = socket_path
      then ReplyLine (write_lines ser (fst (serve_conn parse perr ws (\<lambda>_. True) 0 StreamEof (ser frame @ [CHR 0x0A]) a)))
      else NoConnection)"

lemma serve_one_request:
  assumes "line_text ser parse frame" "fits (ser frame)" "frame = build_request ''1'' op params"
  shows "serve_conn parse perr ws (\<lambda>_. True) 0 StreamEof (ser frame @ [CHR 0x0A]) a
     = ([reply_for (fst (dispatch op (ws 0) (canon params) a))], snd (dispatch op (ws 0) (canon params) a))"
proof -
  obtain r a' where d: "dispatch op (ws 0) (canon params) a = (r, a')" by fastforce
  have h: "ipc_handle_line parse perr (ws 0) (ser frame) a = (reply_for r, a')"
    using assms(1) by (cases r)
      (auto simp: line_text_def ipc_handle_line_def assms(3) build_request_def reply_for_def d simp del: canon.simps(2))
  have "split_on (CHR 0x0A) (ser frame @ [CHR 0x0A]) = [ser frame, []]"
    using assms(1) by (simp add: line_text_def split_on_append)
  then show ?thesis
    using assms(1,2) unfolding serve_conn_served served_def
    by (simp add: line_text_def h d fits_def ipc_max_frame_bytes_def)
qed

text \<open>
  C17. The command line drives the app. When the arguments parse to an operation and shedctl runs in the
  environment of a running app (and the two values on the wire are written and read back by serde\_json), it
  reaches that app's socket, the app dispatches exactly that operation with those parameters, and shedctl prints exactly
  the result of the dispatch, or the code and message of its error.
\<close>

theorem shedctl_prints_what_the_app_answers:
  assumes "take_opt ''--socket'' args = Inr (None, rest)" "parse_command parse rest = Inr pl" "pl_write_png_to pl = None"
    and "frame = build_request ''1'' (pl_op pl) (pl_params pl)" "line_text ser parse frame" "fits (ser frame)"
    and "r = fst (dispatch (pl_op pl) (ws 0) (canon (pl_params pl)) a)" "line_text ser parse (reply_for r)"
  shows "ctl_run parse perr decode64 write_file vars uid
            (app_connection ser parse sperr ws a (ae_socket_path (env_from_process macos uid vars))) args
       = (case r of Inr v \<Rightarrow> CtlPrinted (canon v) | Inl (code, message) \<Rightarrow> CtlError (''error '' @ code @ '': '' @ message))"
proof -
  have "code_ok r" unfolding assms(7) by (rule codes_dispatch)
  note p = parse_reply_for [OF assms(8) this, of perr]
  have "app_connection ser parse sperr ws a (ae_socket_path (env_from_process macos uid vars)) (resolve_socket vars uid None) frame
      = ReplyLine (ser (reply_for r) @ [CHR 0x0A])"
    using serve_one_request [OF assms(5,6,4)] by (simp add: app_connection_def client_finds_the_app assms(7) write_lines_def)
  then show ?thesis
    using assms(1-4) p by (simp add: ctl_run_def split: sum.splits prod.splits)
qed

definition demo_frame :: json where
  "demo_frame = build_request ''1'' ''ui.modal'' (JObj [])"

definition demo_reply :: json where
  "demo_reply = JObj [(''id'', JStr ''1''), (''ok'', JBool True), (''result'', JObj [(''modal'', JNull)])]"

definition demo_ser :: "json \<Rightarrow> string" where
  "demo_ser v = (if v = demo_frame then ''F'' else ''R'')"

definition demo_text :: "string \<Rightarrow> json option" where
  "demo_text s = (if s = ''F'' then Some (canon demo_frame) else Some (canon demo_reply))"

theorem shedctl_prints_what_the_app_answers_witness:
  "ctl_run demo_text (\<lambda>_. []) Inr (\<lambda>_ _. None) (\<lambda>_. None) 501
      (app_connection demo_ser demo_text (\<lambda>_. []) (\<lambda>_. demo_world) (demo_app False)
         (ae_socket_path (env_from_process False 501 (\<lambda>_. None)))) [''raw'', ''ui.modal'']
   = CtlPrinted (JObj [(''modal'', JNull)])"
proof -
  have plan: "parse_command demo_text [''raw'', ''ui.modal''] = Inr (plan_call ''ui.modal'' (JObj []))"
    by (simp add: parse_command_def take_params.simps)
  have r: "dispatch ''ui.modal'' demo_world (canon (JObj [])) (demo_app False) = (Inr (JObj [(''modal'', JNull)]), demo_app False)"
    by (simp add: dispatch_def op_table_def h_ui_key_def main_get_def ui_get_def demo_app_def nullable_def)
  have t: "utf8_lossy ''F'' = ''F''" "utf8_lossy ''R'' = ''R''" "trim ''F'' = ''F''" "trim ''R'' = ''R''"
    by code_simp+
  have "line_text demo_ser demo_text demo_frame" "line_text demo_ser demo_text demo_reply" "fits (demo_ser demo_frame)"
    by (simp_all add: line_text_def demo_ser_def demo_text_def t fits_def ipc_max_frame_bytes_def demo_frame_def demo_reply_def
        build_request_def del: utf8_lossy.simps)
  then show ?thesis
    using shedctl_prints_what_the_app_answers [where args = "[''raw'', ''ui.modal'']" and rest = "[''raw'', ''ui.modal'']"
        and parse = demo_text and pl = "plan_call ''ui.modal'' (JObj [])" and frame = demo_frame and ser = demo_ser
        and ws = "\<lambda>_. demo_world" and a = "demo_app False" and r = "Inr (JObj [(''modal'', JNull)])"] plan r
    by (simp add: take_opt_def plan_call_def demo_frame_def demo_reply_def reply_for_def)
qed

end
