(* ===== verification/Window.thy ===== *)
theory Window
  imports Complex_Main Json
begin

text \<open>
  The windows and the menu-bar item (\<^verbatim>\<open>tauri/src-tauri/src/tray.rs\<close>, the window parts of \<^verbatim>\<open>lib.rs\<close> and
  \<^verbatim>\<open>ipc.rs\<close>): the dashboard, the popover of macOS, the activation policy and the end of the app, as a state machine
  over the events of the window system, the menu, the commands and the IPC socket.

  Tauri is outside: showing, hiding and resizing a window that exists takes effect. The code ignores the result of
  these calls. A height is a rational, since it comes from a JSON number.
\<close>

section \<open>State\<close>

record popover =
  po_visible :: bool
  po_height :: rat

datatype activation_policy = Regular | Accessory

record windows =
  wi_macos :: bool
  wi_test :: bool
  wi_main_visible :: bool
  wi_minimized :: bool
  wi_popover :: "popover option"
  wi_policy :: activation_policy
  wi_emitted :: "(string \<times> json) list"
  wi_exited :: "int option"

definition POPOVER_WIDTH :: rat where "POPOVER_WIDTH = 320"
definition POPOVER_MIN_HEIGHT :: rat where "POPOVER_MIN_HEIGHT = 120"
definition POPOVER_MAX_HEIGHT :: rat where "POPOVER_MAX_HEIGHT = 640"

definition emit :: "string \<Rightarrow> json \<Rightarrow> windows \<Rightarrow> windows" where
  "emit name v s = s\<lparr>wi_emitted := wi_emitted s @ [(name, v)]\<rparr>"

section \<open>The dashboard\<close>

definition set_activation_policy_prod :: "bool \<Rightarrow> windows \<Rightarrow> windows" where
  "set_activation_policy_prod regular s =
     (if \<not> wi_macos s \<or> wi_test s then s else s\<lparr>wi_policy := (if regular then Regular else Accessory)\<rparr>)"

definition present_main_window :: "windows \<Rightarrow> windows" where
  "present_main_window s = set_activation_policy_prod True (s\<lparr>wi_main_visible := True, wi_minimized := False\<rparr>)"

definition show_main :: "windows \<Rightarrow> windows" where
  "show_main s = present_main_window s"

definition open_pane :: "string \<Rightarrow> windows \<Rightarrow> windows" where
  "open_pane pane s = emit ''navigate'' (JObj [(''pane'', JStr pane)]) (show_main s)"

definition open_prefs :: "windows \<Rightarrow> windows" where
  "open_prefs s = emit ''show-preferences'' (JObj []) (show_main s)"

section \<open>The popover\<close>

text \<open>The window exists on macOS only, if it could be built.\<close>

definition show_popover :: "windows \<Rightarrow> windows" where
  "show_popover s =
     (if \<not> wi_macos s then s
      else case wi_popover s of
        None \<Rightarrow> s
      | Some p \<Rightarrow> emit ''popover-refresh'' JNull (s\<lparr>wi_popover := Some (p\<lparr>po_visible := True\<rparr>)\<rparr>))"

definition hide_popover :: "windows \<Rightarrow> windows" where
  "hide_popover s =
     (if \<not> wi_macos s then s
      else s\<lparr>wi_popover := map_option (\<lambda>p. p\<lparr>po_visible := False\<rparr>) (wi_popover s)\<rparr>)"

definition toggle_popover :: "windows \<Rightarrow> windows" where
  "toggle_popover s =
     (if \<not> wi_macos s then s
      else case wi_popover s of
        Some p \<Rightarrow> if po_visible p then s\<lparr>wi_popover := Some (p\<lparr>po_visible := False\<rparr>)\<rparr> else show_popover s
      | None \<Rightarrow> show_popover s)"

definition open_dashboard :: "windows \<Rightarrow> windows" where
  "open_dashboard s = hide_popover (open_pane ''sheds'' s)"

definition open_preferences :: "windows \<Rightarrow> windows" where
  "open_preferences s = hide_popover (open_prefs s)"

definition resize_popover :: "rat \<Rightarrow> windows \<Rightarrow> windows" where
  "resize_popover height s =
     (if \<not> wi_macos s then s
      else let h = min (max height POPOVER_MIN_HEIGHT) POPOVER_MAX_HEIGHT
           in s\<lparr>wi_popover := map_option (\<lambda>p. p\<lparr>po_height := h\<rparr>) (wi_popover s)\<rparr>)"

section \<open>Run events and the menu\<close>

text \<open>\<^verbatim>\<open>app.exit(code)\<close> asks for an exit with a code; the run loop lets it through.\<close>

definition exit_requested :: "int option \<Rightarrow> windows \<Rightarrow> windows" where
  "exit_requested code s = (case code of None \<Rightarrow> s | Some c \<Rightarrow> s\<lparr>wi_exited := Some c\<rparr>)"

definition app_exit :: "windows \<Rightarrow> windows" where
  "app_exit s = exit_requested (Some 0) s"

definition hide_window :: "string \<Rightarrow> windows \<Rightarrow> windows" where
  "hide_window label s =
     (if label = ''main'' then s\<lparr>wi_main_visible := False\<rparr>
      else if label = ''popover'' then s\<lparr>wi_popover := map_option (\<lambda>p. p\<lparr>po_visible := False\<rparr>) (wi_popover s)\<rparr>
      else s)"

definition close_requested :: "string \<Rightarrow> windows \<Rightarrow> windows" where
  "close_requested label s =
     (let s = hide_window label s in if label = ''main'' then set_activation_policy_prod False s else s)"

definition focus_lost :: "string \<Rightarrow> windows \<Rightarrow> windows" where
  "focus_lost label s = (if label = ''popover'' then hide_window label s else s)"

definition menu_event :: "string \<Rightarrow> windows \<Rightarrow> windows" where
  "menu_event i s =
     (if i = ''open'' then show_main s
      else if i = ''approvals'' then open_pane ''approvals'' s
      else if i = ''preferences'' then open_prefs s
      else if i = ''quit'' then app_exit s
      else s)"

datatype mouse_button = ButtonLeft | ButtonRight | ButtonMiddle
datatype button_state = ButtonUp | ButtonDown

definition tray_click :: "mouse_button \<Rightarrow> button_state \<Rightarrow> windows \<Rightarrow> windows" where
  "tray_click b st s = (if wi_macos s \<and> b = ButtonLeft \<and> st = ButtonUp then toggle_popover s else s)"

text \<open>
  The windows when \<^verbatim>\<open>setup\<close> returns: the dashboard shown, the popover hidden at its full height where there is
  one (\<open>built\<close>); in production on macOS the dashboard is then hidden and the app becomes an accessory.
\<close>

definition windows_setup :: "bool \<Rightarrow> bool \<Rightarrow> bool \<Rightarrow> windows" where
  "windows_setup macos test_mode built =
     (let s = \<lparr>wi_macos = macos, wi_test = test_mode, wi_main_visible = True, wi_minimized = False,
               wi_popover = (if macos \<and> built then Some \<lparr>po_visible = False, po_height = POPOVER_MAX_HEIGHT\<rparr> else None),
               wi_policy = Regular, wi_emitted = [], wi_exited = None\<rparr>
      in if macos \<and> \<not> test_mode then set_activation_policy_prod False (hide_window ''main'' s) else s)"

datatype window_event =
    EvCloseRequested string
  | EvFocusLost string
  | EvExitRequested "int option"
  | EvMenu string
  | EvTrayClick mouse_button button_state
  | EvPresent
  | EvTrayShow | EvTrayToggle | EvTrayHide
  | EvOpenDashboard | EvOpenPreferences | EvAppExit
  | EvResize rat
  | EvMinimize

fun window_exec :: "window_event \<Rightarrow> windows \<Rightarrow> windows" where
  "window_exec (EvCloseRequested label) s = close_requested label s"
| "window_exec (EvFocusLost label) s = focus_lost label s"
| "window_exec (EvExitRequested code) s = exit_requested code s"
| "window_exec (EvMenu i) s = menu_event i s"
| "window_exec (EvTrayClick b st) s = tray_click b st s"
| "window_exec EvPresent s = present_main_window s"
| "window_exec EvTrayShow s = show_popover s"
| "window_exec EvTrayToggle s = toggle_popover s"
| "window_exec EvTrayHide s = hide_popover s"
| "window_exec EvOpenDashboard s = open_dashboard s"
| "window_exec EvOpenPreferences s = open_preferences s"
| "window_exec EvAppExit s = app_exit s"
| "window_exec (EvResize h) s = resize_popover h s"
| "window_exec EvMinimize s = s\<lparr>wi_minimized := True\<rparr>"

section \<open>The invariant\<close>

lemmas window_defs = set_activation_policy_prod_def present_main_window_def show_main_def open_pane_def open_prefs_def emit_def
  show_popover_def hide_popover_def toggle_popover_def open_dashboard_def open_preferences_def resize_popover_def
  exit_requested_def app_exit_def hide_window_def close_requested_def focus_lost_def menu_event_def tray_click_def Let_def

definition height_ok :: "popover \<Rightarrow> bool" where
  "height_ok p \<longleftrightarrow> POPOVER_MIN_HEIGHT \<le> po_height p \<and> po_height p \<le> POPOVER_MAX_HEIGHT"

definition window_inv :: "windows \<Rightarrow> bool" where
  "window_inv s \<longleftrightarrow>
     (wi_macos s \<and> \<not> wi_test s \<longrightarrow> (wi_policy s = Regular \<longleftrightarrow> wi_main_visible s))
     \<and> (wi_test s \<or> \<not> wi_macos s \<longrightarrow> wi_policy s = Regular)
     \<and> (\<not> wi_macos s \<longrightarrow> wi_popover s = None)
     \<and> pred_option height_ok (wi_popover s)"

lemma window_inv_setup: "window_inv (windows_setup macos test_mode built)"
  by (simp add: window_inv_def windows_setup_def window_defs height_ok_def POPOVER_MIN_HEIGHT_def POPOVER_MAX_HEIGHT_def)

lemma policy_step:
  "(wi_macos s \<and> \<not> wi_test s \<longrightarrow> (wi_policy s = Regular \<longleftrightarrow> wi_main_visible s)) \<Longrightarrow>
   (wi_macos (window_exec e s) \<and> \<not> wi_test (window_exec e s) \<longrightarrow>
     (wi_policy (window_exec e s) = Regular \<longleftrightarrow> wi_main_visible (window_exec e s)))"
  by (cases e) (auto simp: window_defs split: option.splits)

lemma static_step [simp]: "wi_macos (window_exec e s) = wi_macos s" "wi_test (window_exec e s) = wi_test s"
  by (cases e; simp add: window_defs split: option.splits)+

lemma fixed_policy_step: "wi_test s \<or> \<not> wi_macos s \<Longrightarrow> wi_policy (window_exec e s) = wi_policy s"
  by (cases e) (auto simp: window_defs split: option.splits)

lemma popover_exists_step: "wi_popover (window_exec e s) = None \<longleftrightarrow> wi_popover s = None"
  by (cases e) (simp_all add: window_defs split: option.splits)

lemma height_bounds: "POPOVER_MIN_HEIGHT \<le> POPOVER_MAX_HEIGHT"
  by (simp add: POPOVER_MIN_HEIGHT_def POPOVER_MAX_HEIGHT_def)

lemma height_step: "pred_option height_ok (wi_popover s) \<Longrightarrow> pred_option height_ok (wi_popover (window_exec e s))"
  using height_bounds by (cases e; cases "wi_popover s") (simp_all add: window_defs height_ok_def split: option.split)

lemma window_inv_step: "window_inv s \<Longrightarrow> window_inv (window_exec e s)"
  using policy_step [of s e] fixed_policy_step [of s e] popover_exists_step [of e s] height_step [of s e]
  by (auto simp: window_inv_def)

interpretation windows: machine window_exec window_inv
  by unfold_locales (rule window_inv_step)

section \<open>Living in the tray\<close>

fun deliberate_exit :: "window_event \<Rightarrow> bool" where
  "deliberate_exit (EvExitRequested code) \<longleftrightarrow> code \<noteq> None"
| "deliberate_exit (EvMenu i) \<longleftrightarrow> i = ''quit''"
| "deliberate_exit EvAppExit \<longleftrightarrow> True"
| "deliberate_exit _ \<longleftrightarrow> False"

lemma exited_step: "wi_exited (window_exec e s) \<noteq> None \<longleftrightarrow> wi_exited s \<noteq> None \<or> deliberate_exit e"
  by (cases e) (auto simp: window_defs split: option.splits)

lemma exited_run: "wi_exited (fold window_exec evs s) \<noteq> None \<longleftrightarrow> wi_exited s \<noteq> None \<or> list_ex deliberate_exit evs"
proof (induction evs arbitrary: s)
  case (Cons e evs)
  have "wi_exited (fold window_exec (e # evs) s) \<noteq> None \<longleftrightarrow> wi_exited (window_exec e s) \<noteq> None \<or> list_ex deliberate_exit evs"
    using Cons.IH [of "window_exec e s"] by simp
  then show ?case unfolding exited_step by auto
qed simp

text \<open>
  C40. Over every sequence of window, menu, command and socket events since \<^verbatim>\<open>setup\<close>: the app ends exactly when it
  was told to (the menu, the command, or an exit with a code), never because windows were closed; in production on
  macOS it has its Dock icon exactly while the dashboard is shown, and elsewhere the policy is never changed; only
  macOS has a popover, and its height stays within its bounds. In every such state asking for the dashboard shows it.
\<close>

theorem app_lives_in_the_tray:
  fixes evs :: "window_event list" and macos test_mode built :: bool
  defines "s \<equiv> fold window_exec evs (windows_setup macos test_mode built)"
  shows "(wi_exited s \<noteq> None \<longleftrightarrow> list_ex deliberate_exit evs)
     \<and> (if macos \<and> \<not> test_mode then (wi_policy s = Regular \<longleftrightarrow> wi_main_visible s) else wi_policy s = Regular)
     \<and> (macos \<or> wi_popover s = None)
     \<and> pred_option height_ok (wi_popover s)
     \<and> list_all (\<lambda>e. wi_main_visible (window_exec e s) \<and> \<not> wi_minimized (window_exec e s))
          [EvPresent, EvMenu ''open'', EvMenu ''approvals'', EvMenu ''preferences'', EvOpenDashboard, EvOpenPreferences]"
proof -
  have inv: "window_inv s" unfolding s_def by (rule windows.run_inv) (rule window_inv_setup)
  have "wi_macos (fold window_exec es t) = wi_macos t \<and> wi_test (fold window_exec es t) = wi_test t" for es t
    by (induction es arbitrary: t) simp_all
  then have env: "wi_macos s = macos" "wi_test s = test_mode"
    by (simp_all add: s_def windows_setup_def window_defs)
  have "wi_exited (windows_setup macos test_mode built) = None" by (simp add: windows_setup_def window_defs)
  then have "wi_exited s \<noteq> None \<longleftrightarrow> list_ex deliberate_exit evs" unfolding s_def exited_run by simp
  moreover have "list_all (\<lambda>e. wi_main_visible (window_exec e s) \<and> \<not> wi_minimized (window_exec e s))
      [EvPresent, EvMenu ''open'', EvMenu ''approvals'', EvMenu ''preferences'', EvOpenDashboard, EvOpenPreferences]"
    by (simp add: window_defs)
  ultimately show ?thesis using inv env by (auto simp: window_inv_def)
qed

text \<open>Losing the focus hides the popover and nothing else; a click anywhere but on the icon never shows it.\<close>

lemma blur_hides_only_the_popover:
  "wi_main_visible (window_exec (EvFocusLost label) s) = wi_main_visible s"
  "wi_policy (window_exec (EvFocusLost label) s) = wi_policy s"
  "pred_option (\<lambda>p. \<not> po_visible p) (wi_popover (window_exec (EvFocusLost ''popover'') s))"
  by (simp_all add: window_defs option.pred_map comp_def split: option.splits) (simp add: option.pred_set)

end
