(* ===== verification/App_Start.thy ===== *)
theory App_Start
  imports Commands Native_Auth Shedctl Window
begin

text \<open>
  The start of the app (\<^verbatim>\<open>run\<close> in \<^verbatim>\<open>tauri/src-tauri/src/lib.rs\<close>): the second launch that raises the first one's
  window, the construction of the shared objects from the environment and the files, the choice of the approval
  seams (\<^verbatim>\<open>tauri/src-tauri/src/approval.rs\<close>) and the binding of the IPC socket (\<^verbatim>\<open>tauri/src-tauri/src/ipc.rs\<close>). It is
  where the components meet, so the properties here are about the app as started.

  The file system, the window system and the sockets are arguments: what a path holds, what a call answers.
\<close>

section \<open>The approval seams\<close>

datatype platform = Linux | MacOs | OtherOs

datatype notifier_seam = DBusNotifier | OsaNotifier | NoopNotifier | FakeNotifier

datatype gate_seam = PolkitGate | TouchIdGate | FailClosedGate | AlwaysApprovedGate

fun production_seams :: "platform \<Rightarrow> notifier_seam \<times> gate_seam" where
  "production_seams Linux = (DBusNotifier, PolkitGate)"
| "production_seams MacOs = (OsaNotifier, TouchIdGate)"
| "production_seams OtherOs = (NoopNotifier, FailClosedGate)"

definition choose_seams :: "bool \<Rightarrow> platform \<Rightarrow> notifier_seam \<times> gate_seam" where
  "choose_seams test_mode p = (if test_mode then (FakeNotifier, AlwaysApprovedGate) else production_seams p)"

text \<open>What the operating system answers to the gates.\<close>

record os_auth =
  oa_pid :: nat
  oa_run :: "string \<Rightarrow> string list \<Rightarrow> exit_status option"
  oa_la :: local_auth

fun run_gate :: "os_auth \<Rightarrow> gate_seam \<Rightarrow> auth_prompt \<Rightarrow> auth_outcome" where
  "run_gate os PolkitGate p = polkit_gate (oa_pid os) (oa_run os) p"
| "run_gate os TouchIdGate p = touch_id_gate (oa_la os) p"
| "run_gate os FailClosedGate p = fail_closed_gate p"
| "run_gate os AlwaysApprovedGate p = always_approved_gate p"

text \<open>The events a change of the coordinator is forwarded under.\<close>

fun event_name :: "coordinator_event \<Rightarrow> string" where
  "event_name EvApprovals = ''approvals-changed''"
| "event_name EvActivity = ''activity-changed''"
| "event_name EvConnected = ''connected-changed''"

section \<open>Binding the socket\<close>

datatype fs_op = CreateDirAll string | RemoveFile string | BindSocket string | SetMode string nat

text \<open>\<open>io op\<close> is the error of an operation. The operations done and the result; the errors of removing a stale
  socket and of the permissions are ignored.\<close>

definition ipc_bind :: "(fs_op \<Rightarrow> string option) \<Rightarrow> string \<Rightarrow> (string + unit) \<times> fs_op list" where
  "ipc_bind io socket_path =
     (let dirs = (case path_parent socket_path of Some d \<Rightarrow> [CreateDirAll d] | None \<Rightarrow> []);
          modes = SetMode socket_path 0x180 # (case path_parent socket_path of Some d \<Rightarrow> [SetMode d 0x1C0] | None \<Rightarrow> [])
      in case List.find (\<lambda>op. io op \<noteq> None) dirs of
           Some op \<Rightarrow> (Inl (unwrap_or (io op) []), dirs)
         | None \<Rightarrow>
             (case io (BindSocket socket_path) of
                Some e \<Rightarrow> (Inl e, dirs @ [RemoveFile socket_path, BindSocket socket_path])
              | None \<Rightarrow> (Inr (), dirs @ [RemoveFile socket_path, BindSocket socket_path] @ modes)))"

section \<open>The shared objects\<close>

record start_view =
  sv_platform :: platform
  sv_env :: app_env
  sv_files :: "string \<Rightarrow> string option"
  sv_exists :: "string \<Rightarrow> bool"
  sv_parse :: "string \<Rightarrow> json option"
  sv_resource_dir :: "string option"
  sv_config_dir :: "string option"
  sv_data_dir :: "string option"
  sv_stack :: http_stack
  sv_version :: string
  sv_pid :: int

record started =
  sd_app :: app
  sd_notifier :: notifier_seam
  sd_gate :: gate_seam
  sd_agent :: host_agent

definition app_hello :: "start_view \<Rightarrow> hello_client_info" where
  "app_hello v =
     \<lparr>hi_name = ''shed-desktop'', hi_version = sv_version v, hi_pid = sv_pid v,
      hi_capabilities = [''approval.ssh'', ''event.stream''], hi_replay_events = 50\<rparr>"

text \<open>The backend; its clients mint their tokens through the host agent unless they talk to the mock.\<close>

definition start_backend :: "start_view \<Rightarrow> backend" where
  "start_backend v =
     (let env = sv_env v;
          has_minter = (ae_mock_base_url env = None)
      in from_env_parts_with_minter (sv_stack v) (ae_test_mode env) (ae_mock_base_url env)
           (sv_files v (ae_config_path env)) has_minter)"

definition start_app :: "start_view \<Rightarrow> started" where
  "start_app v =
     (let env = sv_env v;
          backend = start_backend v;
          rc = rc_new (ae_test_mode env) (sv_version v);
          scripts_dir = opt_filter (sv_exists v) (map_option (\<lambda>d. path_join d ''bin'') (sv_resource_dir v));
          prefs = prefs_load (sv_parse v) (sv_files v (path_join (unwrap_or (sv_config_dir v) ''.'') ''prefs.json''));
          seams = choose_seams (ae_test_mode env) (sv_platform v);
          audit = audit_new (path_join (unwrap_or (sv_data_dir v) ''.'') ''audit.jsonl'');
          coordinator = coord_init audit (ssh_prefs_from_store prefs) [] []
      in \<lparr>sd_app = \<lparr>ax_env = env, ax_ui = [], ax_backend = backend, ax_prefs = prefs, ax_scripts_dir = scripts_dir,
                    ax_coord = coordinator, ax_rc = rc, ax_refresh_seq = 0, ax_login_cell = False, ax_fx = []\<rparr>,
          sd_notifier = fst seams, sd_gate = snd seams,
          sd_agent = ha_start (app_hello v) (ha_new (app_hello v))\<rparr>)"

section \<open>Launching\<close>

definition activate_frame :: json where
  "activate_frame = JObj [(''id'', JStr ''activate''), (''op'', JStr ''app.activate''), (''params'', JObj [])]"

text \<open>The errors of the calls of \<^verbatim>\<open>activate_running_instance\<close>, in order; the reply is read and dropped.\<close>

record activate_io =
  ai_connect :: "string option"
  ai_timeout :: "string option"
  ai_write :: "string option"
  ai_flush :: "string option"

definition activate_running_instance :: "activate_io \<Rightarrow> (string + unit) \<times> json option" where
  "activate_running_instance io =
     (case ai_connect io of Some e \<Rightarrow> (Inl e, None)
      | None \<Rightarrow> (case ai_timeout io of Some e \<Rightarrow> (Inl e, None)
      | None \<Rightarrow> (case ai_write io of Some e \<Rightarrow> (Inl e, None)
      | None \<Rightarrow> (case ai_flush io of Some e \<Rightarrow> (Inl e, Some activate_frame)
      | None \<Rightarrow> (Inr (), Some activate_frame)))))"

datatype launch_outcome =
    Activated nat "json option"
  | SetupFailed string
  | Running started "fs_op list"

definition launch_app ::
  "(acquire_error + unit) \<Rightarrow> activate_io \<Rightarrow> (fs_op \<Rightarrow> string option) \<Rightarrow> start_view \<Rightarrow> launch_outcome" where
  "launch_app lock io fs v =
     (case lock of
        Inl (AlreadyHeld pid) \<Rightarrow> Activated pid (snd (activate_running_instance io))
      | _ \<Rightarrow>
          (case ipc_bind fs (ae_socket_path (sv_env v)) of
             (Inl e, _) \<Rightarrow> SetupFailed (''bind shed-desktop IPC server at '' @ ae_socket_path (sv_env v) @ '': '' @ e)
           | (Inr _, ops) \<Rightarrow> Running (start_app v) ops))"

section \<open>Properties\<close>

text \<open>A socket that is served was given owner-only permissions, itself and its directory, after it was bound.\<close>

lemma bound_socket_is_private:
  assumes "ipc_bind io p = (Inr (), ops)"
  shows "\<exists>pre. ops = pre @ BindSocket p # SetMode p 0x180 # (case path_parent p of Some d \<Rightarrow> [SetMode d 0x1C0] | None \<Rightarrow> [])"
  using assms by (auto simp: ipc_bind_def Let_def split: option.splits)

lemma policy_current_start: "policy_current (ax_coord (sd_app (start_app v)))"
  by (simp add: start_app_def Let_def coord_init_def)

lemma start_fields [simp]:
  "ax_env (sd_app (start_app v)) = sv_env v" "rc_test (sd_app (start_app v)) = ae_test_mode (sv_env v)"
  "ax_fx (sd_app (start_app v)) = []" "sd_gate (start_app v) = snd (choose_seams (ae_test_mode (sv_env v)) (sv_platform v))"
  by (simp_all add: start_app_def Let_def rc_new_def)

text \<open>Whether the operating system confirmed a prompt, per platform.\<close>

definition os_confirmed :: "platform \<Rightarrow> os_auth \<Rightarrow> auth_prompt \<Rightarrow> bool" where
  "os_confirmed pl os p =
     (case pl of
        Linux \<Rightarrow> \<not> ap_biometrics_only p \<and> oa_run os pkcheck_path (pkcheck_args (oa_pid os)) = Some (ExitCode 0)
      | MacOs \<Rightarrow> la_can_evaluate (oa_la os) (la_policy_for (ap_biometrics_only p))
          \<and> (\<exists>err. la_evaluate (oa_la os) (la_policy_for (ap_biometrics_only p)) (ap_reason p) = LaReply True err)
      | OtherOs \<Rightarrow> False)"

lemma production_gate_confirms:
  assumes "run_gate os (snd (production_seams pl)) p = OApproved"
  shows "os_confirmed pl os p"
  using assms polkit.approved_confirmed touch_id.approved_confirmed fail_closed.approved_confirmed
  by (cases pl) (auto simp: os_confirmed_def)

interpretation production_gate: auth_gate "\<lambda>os. run_gate os (snd (production_seams pl))" "os_confirmed pl" for pl
  by unfold_locales (rule production_gate_confirms)

text \<open>
  C13. The app as it is started in production. From the environment and files it finds, through every interleaving of
  requests on the socket and commands of the web views: the coordinator was started from the persisted settings with no
  rules of its own and only user-level commands reached it, so the policy in force is the one its settings and
  persisted rules give; and the gate it was given approves a prompt only when the operating system of the
  platform confirmed that prompt.
\<close>

theorem production_app_is_guarded:
  assumes "\<not> ae_test_mode (sv_env v)" and "final = fold interact session (sd_app (start_app v))"
  shows "commanded (client_command False)
           (coord_init (audit_new (path_join (unwrap_or (sv_data_dir v) ''.'') ''audit.jsonl''))
              (ssh_prefs_from_store (prefs_load (sv_parse v) (sv_files v (path_join (unwrap_or (sv_config_dir v) ''.'') ''prefs.json'')))) [] [])
           (ax_coord final)
     \<and> policy_current (ax_coord final)
     \<and> (run_gate os (sd_gate (start_app v)) p = OApproved \<longrightarrow> os_confirmed (sv_platform v) os p)"
proof -
  let ?a = "sd_app (start_app v)"
  have "keeps ?a final" unfolding assms(2) by (rule app_session.run_inv) simp
  then have c: "commanded (client_command False) (ax_coord ?a) (ax_coord final)" using assms(1) by (simp add: keeps_with_def)
  have "policy_current (ax_coord final)" by (rule policy_current_commanded [OF c policy_current_start])
  moreover have "run_gate os (sd_gate (start_app v)) p = OApproved \<longrightarrow> os_confirmed (sv_platform v) os p"
    using production_gate.approved_confirmed assms(1) by (simp add: choose_seams_def)
  moreover have "ax_coord ?a = coord_init (audit_new (path_join (unwrap_or (sv_data_dir v) ''.'') ''audit.jsonl''))
      (ssh_prefs_from_store (prefs_load (sv_parse v) (sv_files v (path_join (unwrap_or (sv_config_dir v) ''.'') ''prefs.json'')))) [] []"
    by (simp add: start_app_def Let_def)
  ultimately show ?thesis using c by simp
qed

definition demo_start :: start_view where
  "demo_start =
     \<lparr>sv_platform = Linux,
      sv_env = \<lparr>ae_test_mode = False, ae_mock_base_url = None, ae_config_path = ''/c'', ae_socket_path = ''/run/s.sock'',
                ae_host_agent_socket = ''/run/h.sock''\<rparr>,
      sv_files = (\<lambda>_. None), sv_exists = (\<lambda>_. False), sv_parse = (\<lambda>_. None), sv_resource_dir = None,
      sv_config_dir = None, sv_data_dir = None, sv_stack = \<lparr>hs_versions = None, hs_build = (\<lambda>_. None)\<rparr>, sv_version = ''1'', sv_pid = 42\<rparr>"

definition demo_os :: "int \<Rightarrow> os_auth" where
  "demo_os status = \<lparr>oa_pid = 42, oa_run = (\<lambda>_ _. Some (ExitCode status)),
     oa_la = \<lparr>la_can_evaluate = (\<lambda>_. False), la_evaluate = (\<lambda>_ _. LaSilent)\<rparr>\<rparr>"

theorem production_app_is_guarded_witness:
  "policy_current (ax_coord (fold interact
      [OnSocket (demo_world, ''policy.set'', JObj []), OnWebview demo_world (SetSshApproval None (Some AlwaysAsk) None)]
      (sd_app (start_app demo_start))))
   \<and> run_gate (demo_os 1) (sd_gate (start_app demo_start)) \<lparr>ap_reason = ''sign'', ap_biometrics_only = False\<rparr> \<noteq> OApproved"
proof -
  have "\<not> os_confirmed (sv_platform demo_start) (demo_os 1) \<lparr>ap_reason = ''sign'', ap_biometrics_only = False\<rparr>"
    by (simp add: os_confirmed_def demo_start_def demo_os_def)
  then show ?thesis
    using production_app_is_guarded [OF _ refl, of demo_start
        "[OnSocket (demo_world, ''policy.set'', JObj []), OnWebview demo_world (SetSshApproval None (Some AlwaysAsk) None)]"
        "demo_os 1" "\<lparr>ap_reason = ''sign'', ap_biometrics_only = False\<rparr>"]
    by (auto simp: demo_start_def)
qed

section \<open>The second launch\<close>

text \<open>What the effects of the IPC handler and the commands do to the windows.\<close>

fun window_event_of :: "app_fx \<Rightarrow> window_event option" where
  "window_event_of AxPresent = Some EvPresent"
| "window_event_of AxTrayShow = Some EvTrayShow"
| "window_event_of AxTrayToggle = Some EvTrayToggle"
| "window_event_of AxTrayHide = Some EvTrayHide"
| "window_event_of _ = None"

definition windows_after :: "app_fx list \<Rightarrow> windows \<Rightarrow> windows" where
  "windows_after fxs s = fold window_exec (List.map_filter window_event_of fxs) s"

lemma activate_request:
  assumes "line_text ser parse activate_frame"
  shows "ipc_handle_line parse perr w (ser activate_frame) a
     = (JObj [(''id'', JStr ''activate''), (''ok'', JBool True), (''result'', JObj [])], ax AxPresent a)"
proof -
  have "dispatch ''app.activate'' w params a = (Inr (JObj []), ax AxPresent a)" for params
    by (simp add: dispatch_def op_table_def h_present_def)
  then show ?thesis
    using assms by (simp add: line_text_def ipc_handle_line_def activate_frame_def)
qed

text \<open>
  A second launch raises the window of the first: when the lock is held and the running app can be reached, the
  launch sends one frame, the app answers it with one reply and no other effect than to show its dashboard, and
  the dashboard is then visible, whatever the state of the windows was.
\<close>

lemma second_launch_raises_the_window:
  assumes "launch_app (Inl (AlreadyHeld pid)) io fs v = Activated pid (Some frame)"
    and "line_text ser parse frame" "fits (ser frame)"
    and "serve_conn parse perr ws (\<lambda>_. True) 0 StreamEof (ser frame @ [CHR 0x0A]) a = (replies, a')"
  shows "length replies = 1 \<and> a' = ax AxPresent a
     \<and> wi_main_visible (windows_after (drop (length (ax_fx a)) (ax_fx a')) s)"
proof -
  have f: "frame = activate_frame"
    using assms(1) by (auto simp: launch_app_def activate_running_instance_def split: option.splits)
  have "split_on (CHR 0x0A) (ser frame @ [CHR 0x0A]) = [ser frame, []]"
    using assms(2) by (simp add: line_text_def split_on_append)
  then have "length replies = 1 \<and> a' = ax AxPresent a"
    using assms(2-4) unfolding serve_conn_served served_def f
    by (auto simp: line_text_def activate_request fits_def ipc_max_frame_bytes_def)
  then show ?thesis
    by (simp add: ax_def windows_after_def map_filter_simps window_defs)
qed

end
