(* ===== verification/Ffi.thy ===== *)
theory Ffi
  imports Create
begin

text \<open>
  The bridge to the Swift app (\<^verbatim>\<open>core/shed-core-ffi/src/lib.rs\<close>): the exported records and enums with their
  conversions, the foreign control-token minter, and the object \<^verbatim>\<open>ShedCore\<close>, whose methods call the HTTP client
  and a create store that all objects of the process share.

  UniFFI's marshalling is outside. What the foreign minter answers, the clock and the server's replies are
  arguments, as for the client itself.
\<close>

section \<open>Canaries\<close>

definition core_ping :: "string \<Rightarrow> string" where
  "core_ping echo = ''shed-core ok: '' @ echo"

definition ffi_ping :: "string \<Rightarrow> string" where
  "ffi_ping echo = core_ping echo"

definition mint_via :: "(string \<Rightarrow> string) \<Rightarrow> string \<Rightarrow> string" where
  "mint_via minter server = minter server"

text \<open>The result; it is delivered after \<open>delay_ms\<close> milliseconds.\<close>

definition slow_echo :: "string \<Rightarrow> nat \<Rightarrow> string \<times> nat" where
  "slow_echo echo delay_ms = (''slow: '' @ echo, delay_ms)"

section \<open>Errors\<close>

datatype ffi_error =
    FfiBadStatus nat
  | FfiTransport string
  | FfiDecode string
  | FfiCreate string
  | FfiConfig string

fun ffi_error_text :: "ffi_error \<Rightarrow> string" where
  "ffi_error_text (FfiBadStatus status) = ''shed-server returned HTTP '' @ nat_to_string status"
| "ffi_error_text (FfiTransport message) = ''transport error: '' @ message"
| "ffi_error_text (FfiDecode message) = ''decode error: '' @ message"
| "ffi_error_text (FfiCreate message) = ''create failed: '' @ message"
| "ffi_error_text (FfiConfig message) = message"

fun ffi_error_of :: "shed_error \<Rightarrow> ffi_error" where
  "ffi_error_of (BadStatus status) = FfiBadStatus status"
| "ffi_error_of (Transport message) = FfiTransport message"
| "ffi_error_of (DecodeError message) = FfiDecode message"
| "ffi_error_of (CreateError message) = FfiCreate message"
| "ffi_error_of (ConfigError message) = FfiConfig message"

fun core_error_from_ffi :: "ffi_error \<Rightarrow> shed_error" where
  "core_error_from_ffi (FfiBadStatus status) = BadStatus status"
| "core_error_from_ffi (FfiTransport message) = Transport message"
| "core_error_from_ffi (FfiDecode message) = DecodeError message"
| "core_error_from_ffi (FfiCreate message) = CreateError message"
| "core_error_from_ffi (FfiConfig message) = ConfigError message"

definition ffi_result :: "('a \<Rightarrow> 'b) \<Rightarrow> shed_error + 'a \<Rightarrow> ffi_error + 'b" where
  "ffi_result f r = (case r of Inl e \<Rightarrow> Inl (ffi_error_of e) | Inr x \<Rightarrow> Inr (f x))"

section \<open>Records\<close>

datatype ffi_shed_status = FfiRunning | FfiStopped | FfiStarting | FfiError | FfiUnknown

fun ffi_shed_status_of :: "shed_status \<Rightarrow> ffi_shed_status" where
  "ffi_shed_status_of StRunning = FfiRunning"
| "ffi_shed_status_of StStopped = FfiStopped"
| "ffi_shed_status_of StStarting = FfiStarting"
| "ffi_shed_status_of StError = FfiError"
| "ffi_shed_status_of StUnknown = FfiUnknown"

record ffi_server_info =
  fsi_name :: string
  fsi_version :: string
  fsi_backend :: "string option"
  fsi_ssh_port :: "int option"
  fsi_http_port :: "int option"

definition ffi_server_info_of :: "server_info \<Rightarrow> ffi_server_info" where
  "ffi_server_info_of v =
     \<lparr>fsi_name = si_name v, fsi_version = si_version v, fsi_backend = si_backend v, fsi_ssh_port = si_ssh_port v,
      fsi_http_port = si_http_port v\<rparr>"

record ffi_shed =
  fsh_host :: string
  fsh_name :: string
  fsh_status :: ffi_shed_status
  fsh_backend :: "string option"
  fsh_repo :: "string option"
  fsh_image :: "string option"
  fsh_image_digest :: "string option"
  fsh_local_dir :: "string option"
  fsh_ip_address :: "string option"
  fsh_cpus :: "int option"
  fsh_memory_mb :: "int option"
  fsh_created_at :: "string option"
  fsh_started_at :: "string option"
  fsh_active_namespaces :: "string list"

definition ffi_shed_of :: "shed \<Rightarrow> ffi_shed" where
  "ffi_shed_of v =
     \<lparr>fsh_host = sh_host v, fsh_name = sh_name v, fsh_status = ffi_shed_status_of (sh_status v),
      fsh_backend = sh_backend v, fsh_repo = sh_repo v, fsh_image = sh_image v, fsh_image_digest = sh_image_digest v,
      fsh_local_dir = sh_local_dir v, fsh_ip_address = sh_ip_address v, fsh_cpus = sh_cpus v,
      fsh_memory_mb = sh_memory_mb v, fsh_created_at = sh_created_at v, fsh_started_at = sh_started_at v,
      fsh_active_namespaces = sh_active_namespaces v\<rparr>"

record ffi_shed_image =
  fim_name :: string
  fim_docker_ref :: "string option"
  fim_alias :: "string option"
  fim_is_default :: bool
  fim_cached :: bool
  fim_in_use :: bool
  fim_digest :: "string option"
  fim_source :: "string option"
  fim_size_bytes :: int

definition ffi_shed_image_of :: "shed_image \<Rightarrow> ffi_shed_image" where
  "ffi_shed_image_of v =
     \<lparr>fim_name = im_name v, fim_docker_ref = im_docker_ref v, fim_alias = im_alias v, fim_is_default = im_is_default v,
      fim_cached = im_cached v, fim_in_use = im_in_use v, fim_digest = im_digest v, fim_source = im_source v,
      fim_size_bytes = im_size_bytes v\<rparr>"

record ffi_disk_size =
  fds_logical :: int
  fds_physical :: int

definition ffi_disk_size_of :: "disk_size \<Rightarrow> ffi_disk_size" where
  "ffi_disk_size_of v = \<lparr>fds_logical = ds_logical v, fds_physical = ds_physical v\<rparr>"

record ffi_disk_entry =
  fde_name :: string
  fde_docker_ref :: "string option"
  fde_size :: ffi_disk_size

definition ffi_disk_entry_of :: "disk_entry \<Rightarrow> ffi_disk_entry" where
  "ffi_disk_entry_of v = \<lparr>fde_name = de_name v, fde_docker_ref = de_docker_ref v, fde_size = ffi_disk_size_of (de_size v)\<rparr>"

record ffi_disk_totals =
  fdt_images :: ffi_disk_size
  fdt_sheds :: ffi_disk_size
  fdt_snapshots :: ffi_disk_size
  fdt_orphans :: ffi_disk_size
  fdt_all :: ffi_disk_size

definition ffi_disk_totals_of :: "disk_totals \<Rightarrow> ffi_disk_totals" where
  "ffi_disk_totals_of v =
     \<lparr>fdt_images = ffi_disk_size_of (dt_images v), fdt_sheds = ffi_disk_size_of (dt_sheds v),
      fdt_snapshots = ffi_disk_size_of (dt_snapshots v), fdt_orphans = ffi_disk_size_of (dt_orphans v),
      fdt_all = ffi_disk_size_of (dt_all v)\<rparr>"

record ffi_system_disk_usage =
  fdu_server_name :: "string option"
  fdu_backend :: "string option"
  fdu_images :: "ffi_disk_entry list"
  fdu_sheds :: "ffi_disk_entry list"
  fdu_orphans :: "ffi_disk_entry list"
  fdu_totals :: ffi_disk_totals

definition ffi_system_disk_usage_of :: "system_disk_usage \<Rightarrow> ffi_system_disk_usage" where
  "ffi_system_disk_usage_of v =
     \<lparr>fdu_server_name = du_server_name v, fdu_backend = du_backend v, fdu_images = map ffi_disk_entry_of (du_images v),
      fdu_sheds = map ffi_disk_entry_of (du_sheds v), fdu_orphans = map ffi_disk_entry_of (du_orphans v),
      fdu_totals = ffi_disk_totals_of (du_totals v)\<rparr>"

record ffi_egress_profile =
  fep_mode :: "string option"
  fep_allow :: "string list option"
  fep_deny :: "string list option"
  fep_rule :: "string option"

definition ffi_egress_profile_of :: "egress_profile \<Rightarrow> ffi_egress_profile" where
  "ffi_egress_profile_of v = \<lparr>fep_mode = ep_mode v, fep_allow = ep_allow v, fep_deny = ep_deny v, fep_rule = ep_rule v\<rparr>"

record ffi_egress_profile_info =
  fei_name :: string
  fei_source :: string
  fei_profile :: ffi_egress_profile

definition ffi_egress_profile_info_of :: "egress_profile_info \<Rightarrow> ffi_egress_profile_info" where
  "ffi_egress_profile_info_of v =
     \<lparr>fei_name = ei_name v, fei_source = ei_source v, fei_profile = ffi_egress_profile_of (ei_profile v)\<rparr>"

section \<open>The foreign minter\<close>

record ffi_minted_token =
  fmt_token :: string
  fmt_expires_at_unix :: "nat option"

type_synonym foreign_minter = "string \<Rightarrow> ffi_error + ffi_minted_token"

definition bridge_mint :: "foreign_minter \<Rightarrow> string \<Rightarrow> shed_error + minted_token" where
  "bridge_mint minter server =
     (case minter server of
        Inr m \<Rightarrow> Inr \<lparr>mt_token = fmt_token m, mt_expires_at = fmt_expires_at_unix m\<rparr>
      | Inl e \<Rightarrow> Inl (core_error_from_ffi e))"

text \<open>What surrounds one request: the foreign minter instead of the client's own.\<close>

record ffi_env =
  fe_mint :: foreign_minter
  fe_now :: nat
  fe_reply :: http_reply

definition bridge_env :: "ffi_env \<Rightarrow> nenv" where
  "bridge_env env = \<lparr>ne_mint = bridge_mint (fe_mint env), ne_now = fe_now env, ne_reply = fe_reply env\<rparr>"

section \<open>Creates\<close>

datatype ffi_create_state = FcProgress | FcComplete | FcError

fun ffi_create_state_of :: "create_state \<Rightarrow> ffi_create_state" where
  "ffi_create_state_of CsProgress = FcProgress"
| "ffi_create_state_of CsComplete = FcComplete"
| "ffi_create_state_of CsError = FcError"

record ffi_create_progress =
  fcp_id :: string
  fcp_state :: ffi_create_state
  fcp_messages :: "string list"
  fcp_shed :: "ffi_shed option"
  fcp_error :: "string option"

definition ffi_create_progress_of :: "create_progress \<Rightarrow> ffi_create_progress" where
  "ffi_create_progress_of p =
     \<lparr>fcp_id = cp_id p, fcp_state = ffi_create_state_of (cp_state p), fcp_messages = cp_messages p,
      fcp_shed = map_option ffi_shed_of (cp_shed p), fcp_error = cp_error p\<rparr>"

record ffi_create_request =
  fcr_name :: string
  fcr_repo :: "string option"
  fcr_local_dir :: "string option"
  fcr_image :: "string option"
  fcr_backend :: "string option"
  fcr_cpus :: "int option"
  fcr_memory_mb :: "int option"
  fcr_no_provision :: "bool option"

definition create_request_from_ffi :: "ffi_create_request \<Rightarrow> create_shed_request" where
  "create_request_from_ffi v =
     \<lparr>cr_name = fcr_name v, cr_repo = fcr_repo v, cr_local_dir = fcr_local_dir v, cr_image = fcr_image v,
      cr_backend = fcr_backend v, cr_cpus = fcr_cpus v, cr_memory_mb = fcr_memory_mb v, cr_no_provision = fcr_no_provision v\<rparr>"

section \<open>The object\<close>

record shed_core =
  sc_client :: client

definition shed_core_new ::
  "http_stack \<Rightarrow> string \<Rightarrow> string \<Rightarrow> string \<Rightarrow> string option \<Rightarrow> bool \<Rightarrow> ffi_error + shed_core" where
  "shed_core_new stack base_url server_name token pin has_minter =
     ffi_result (\<lambda>c. \<lparr>sc_client = c\<rparr>) (client_new stack base_url server_name token pin has_minter)"

text \<open>A method: the client's call with the foreign minter, its result converted.\<close>

definition ffi_call ::
  "('a \<Rightarrow> 'b) \<Rightarrow> (nenv \<Rightarrow> nenv \<Rightarrow> client \<Rightarrow> (shed_error + 'a) \<times> client) \<Rightarrow> ffi_env \<Rightarrow> ffi_env \<Rightarrow> shed_core
     \<Rightarrow> (ffi_error + 'b) \<times> shed_core" where
  "ffi_call f call env env' sc =
     (case call (bridge_env env) (bridge_env env') (sc_client sc) of
        (r, c) \<Rightarrow> (ffi_result f r, sc\<lparr>sc_client := c\<rparr>))"

definition ffi_info where
  "ffi_info parse = ffi_call ffi_server_info_of (info parse)"

definition ffi_list_sheds where
  "ffi_list_sheds parse = ffi_call (map ffi_shed_of) (list_sheds parse)"

definition ffi_system_df where
  "ffi_system_df parse = ffi_call ffi_system_disk_usage_of (system_df parse)"

definition ffi_list_images where
  "ffi_list_images parse = ffi_call (map ffi_shed_image_of) (list_images parse)"

definition ffi_egress_profiles where
  "ffi_egress_profiles parse = ffi_call (map ffi_egress_profile_info_of) (egress_profiles parse)"

definition lifecycle_result :: "(shed_error + unit) \<times> client \<times> http_request list \<Rightarrow> (shed_error + unit) \<times> client" where
  "lifecycle_result x = (case x of (r, c, qs) \<Rightarrow> (r, c))"

definition ffi_start where
  "ffi_start name = ffi_call id (\<lambda>env env' c. lifecycle_result (start_shed env env' name c))"

definition ffi_stop where
  "ffi_stop name = ffi_call id (\<lambda>env env' c. lifecycle_result (stop_shed env env' name c))"

definition ffi_reset where
  "ffi_reset name = ffi_call id (\<lambda>env env' c. lifecycle_result (reset_shed env env' name c))"

definition ffi_delete where
  "ffi_delete name = ffi_call id (\<lambda>env env' c. lifecycle_result (delete_shed env env' name c))"

text \<open>
  The create operations work on the store of the process, whichever object they are called on. \<open>i\<close> is the fresh
  id; the result of \<open>ffi_create_start\<close> is the store when the task is spawned, the id and the body of the request
  the task sends. The recording of the abort handle follows as \<open>SoStarted i\<close>, in a race with the task.
\<close>

definition ffi_create_start ::
  "string \<Rightarrow> shed_core \<Rightarrow> ffi_create_request \<Rightarrow> create_store \<Rightarrow> create_store \<times> string \<times> json" where
  "ffi_create_start i sc req store = (create_start i store, i, encode_create_shed_request (create_request_from_ffi req))"

definition ffi_create_task ::
  "(string \<Rightarrow> json option) \<Rightarrow> ffi_env \<Rightarrow> create_shed_request \<Rightarrow> create_reply \<Rightarrow> shed_core \<Rightarrow> sink_call list \<times> shed_core" where
  "ffi_create_task parse env req reply sc =
     (case create_shed parse (bridge_env env) req reply (sc_client sc) of (calls, c, post) \<Rightarrow> (calls, sc\<lparr>sc_client := c\<rparr>))"

definition ffi_create_status :: "shed_core \<Rightarrow> string \<Rightarrow> create_store \<Rightarrow> ffi_create_progress option" where
  "ffi_create_status sc i store = map_option ffi_create_progress_of (create_status i store)"

definition ffi_create_cancel :: "shed_core \<Rightarrow> string \<Rightarrow> create_store \<Rightarrow> create_store" where
  "ffi_create_cancel sc i store = fst (create_cancel i store)"

section \<open>Nothing is lost at the boundary\<close>

lemma error_roundtrip [simp]:
  "core_error_from_ffi (ffi_error_of e) = e" "ffi_error_of (core_error_from_ffi f) = f"
  by (cases e; simp) (cases f; simp)

lemma error_text_crosses: "ffi_error_text (ffi_error_of e) = shed_error_text e"
  by (cases e) (simp_all add: shed_error_text_def)

lemma status_inj: "ffi_shed_status_of s = ffi_shed_status_of t \<longleftrightarrow> s = t"
  by (cases s; cases t) simp_all

lemma shed_inj: "inj ffi_shed_of"
  by (rule injI) (simp add: ffi_shed_of_def status_inj)

lemma disk_entry_inj: "inj ffi_disk_entry_of"
  by (rule injI) (simp add: ffi_disk_entry_of_def ffi_disk_size_of_def)

lemma disk_usage_inj: "inj ffi_system_disk_usage_of"
  by (rule injI)
    (simp add: ffi_system_disk_usage_of_def ffi_disk_totals_of_def ffi_disk_size_of_def inj_map_eq_map [OF disk_entry_inj])

text \<open>
  A foreign minter that throws is fail-closed: with nothing cached, the request goes out without a token, whatever
  static token the object was built with.
\<close>

lemma foreign_mint_failure_sends_no_token:
  assumes "cl_provider (sc_client sc) = Some p" "ct_cached p = None" "fe_mint env (ct_server p) = Inl e"
  shows "fst (bearer (bridge_env env) (sc_client sc)) = None"
proof (rule ccontr)
  assume "fst (bearer (bridge_env env) (sc_client sc)) \<noteq> None"
  then obtain t where "fst (bearer (bridge_env env) (sc_client sc)) = Some t" by blast
  with bearer_provider(1) [OF assms(1)] assms show False by (force simp: bridge_env_def bridge_mint_def)
qed

section \<open>Creates seen from every object\<close>

lemma handle_event_hosts:
  assumes "handle_create_event parse sn ev st = Inr st'" "\<And>s. OnComplete s \<in> set (fst st) \<Longrightarrow> sh_host s = sn"
    "OnComplete s \<in> set (fst st')"
  shows "sh_host s = sn"
  using assms by (auto simp: handle_create_event_def split: prod.splits option.splits if_splits)

lemma handle_events_hosts:
  "(\<And>s. OnComplete s \<in> set (fst st) \<Longrightarrow> sh_host s = sn) \<Longrightarrow>
   OnComplete s \<in> set (fst (snd (handle_events parse sn evs st))) \<Longrightarrow> sh_host s = sn"
proof (induction evs arbitrary: st)
  case (Cons ev evs)
  show ?case
  proof (cases "handle_create_event parse sn ev st")
    case (Inl e)
    then show ?thesis using Cons.prems by simp
  next
    case (Inr st')
    then show ?thesis using Cons.IH [of st'] Cons.prems handle_event_hosts [OF Inr] by simp
  qed
qed simp

lemma create_loop_hosts:
  "(\<And>s. OnComplete s \<in> set (fst st) \<Longrightarrow> sh_host s = sn) \<Longrightarrow>
   OnComplete s \<in> set (fst (snd (create_loop parse sn items p st))) \<Longrightarrow> sh_host s = sn"
proof (induction parse sn items p st rule: create_loop.induct)
  case (1 parse sn p st)
  then show ?case using handle_events_hosts [of st sn s parse "fst (finish p)"] by simp
next
  case (4 parse sn chunk items p st)
  obtain evs p' where f: "feed chunk p = (evs, p')" by (cases "feed chunk p")
  obtain r st' where h: "handle_events parse sn evs st = (r, st')" by (cases "handle_events parse sn evs st")
  have hosts: "sh_host s = sn" if "OnComplete s \<in> set (fst st')" for s
    using handle_events_hosts [of st sn s parse evs] 4(2) h that by simp
  show ?case
  proof (cases r)
    case None
    then show ?thesis using 4 f h hosts by auto
  next
    case (Some e)
    then show ?thesis using 4(3) f h hosts by simp
  qed
qed auto

text \<open>A completed shed carries the name of the client's server.\<close>

lemma completed_shed_host:
  assumes "create_shed parse env req reply c = (calls, c', post)" "OnComplete s \<in> set calls"
  shows "sh_host s = cl_server_name c"
proof -
  let ?sn = "cl_server_name c"
  have "OnComplete s \<in> set (snd (create_stream parse ?sn reply))"
    using assms by (auto simp: create_shed_def Let_def split: prod.splits option.splits)
  then have "\<exists>items. OnComplete s \<in> set (fst (snd (create_loop parse ?sn items sse_new ([], False))))"
    by (cases reply) (auto simp: create_stream_def case_prod_unfold split: option.splits if_splits)
  then show ?thesis using create_loop_hosts [of "([], False)" ?sn s] by auto
qed

text \<open>
  C38. A create started on one object of the bridge is seen from every object of the process. However its sink
  calls interleave with the recording of the abort handle and with the starts, reports and cancels of other
  creates, once its stream has been read the snapshot under its id has all progress messages in order and is
  final: an error with the text of the last report, or the completed shed of the server the create went to. And a
  cancel through any object makes the id unknown for good, whatever reports still arrive.
\<close>

theorem create_is_seen_by_every_core:
  assumes run: "ffi_create_task parse env (create_request_from_ffi req) reply sc = (calls, sc')"
    and start: "ffi_create_start i sc req store = (store', j, body)"
    and ops: "SoStart i \<notin> set ops" "SoCancel i \<notin> set ops" "sink_calls i ops = calls"
    and late: "SoStart i \<notin> set rest"
  shows "(\<exists>q. ffi_create_status other j (fold store_exec ops store') = Some q
      \<and> fcp_id q = i \<and> fcp_messages q = progress_messages calls
      \<and> (if list_ex is_error calls then fcp_state q = FcError \<and> (\<exists>msg. last calls = OnError msg \<and> fcp_error q = Some msg)
         else fcp_state q = FcComplete \<and> fcp_error q = None
           \<and> (\<exists>s. fcp_shed q = Some (ffi_shed_of s) \<and> OnComplete s \<in> set calls \<and> sh_host s = cl_server_name (sc_client sc))))
    \<and> ffi_create_status other j (fold store_exec rest (ffi_create_cancel other j (fold store_exec ops store'))) = None"
proof (rule conjI)
  let ?p = "\<lparr>cp_id = i, cp_state = CsProgress, cp_messages = [], cp_shed = None, cp_error = None\<rparr>"
  let ?q = "fold apply_sink calls ?p"
  have j: "j = i" "store' = create_start i store" using start by (auto simp: ffi_create_start_def)
  have "create_status i (fold store_exec ops store') = Some ?q"
    using status_run [OF ops(1,2), of store'] ops(3) by (simp add: j create_status_def create_start_def)
  then have status: "ffi_create_status other j (fold store_exec ops store') = Some (ffi_create_progress_of ?q)"
    by (simp add: ffi_create_status_def j)
  obtain c' post where shed: "create_shed parse (bridge_env env) (create_request_from_ffi req) reply (sc_client sc) = (calls, c', post)"
    using run by (auto simp: ffi_create_task_def split: prod.splits)
  have shape: "list_ex is_complete calls \<and> \<not> list_ex is_error calls
      \<or> calls \<noteq> [] \<and> is_error (last calls) \<and> \<not> list_ex is_error (butlast calls)"
    using create_report_shape [of parse "bridge_env env" "create_request_from_ffi req" reply "sc_client sc"] shed by simp
  have "if list_ex is_error calls then cp_state ?q = CsError \<and> (\<exists>msg. last calls = OnError msg \<and> cp_error ?q = Some msg)
      else cp_state ?q = CsComplete \<and> cp_error ?q = None \<and> (\<exists>s. cp_shed ?q = Some s \<and> OnComplete s \<in> set calls)"
  proof (cases "list_ex is_error calls")
    case True
    then obtain cs msg where "calls = cs @ [OnError msg]"
      using shape by (cases calls rule: rev_cases) (auto elim: is_error.elims)
    then show ?thesis using True by simp
  next
    case False
    then have "list_ex is_complete calls" using shape by (auto simp: list_ex_iff)
    with False show ?thesis using apply_sink_fold(3,4) [of calls ?p] by auto
  qed
  then show "\<exists>q. ffi_create_status other j (fold store_exec ops store') = Some q
      \<and> fcp_id q = i \<and> fcp_messages q = progress_messages calls
      \<and> (if list_ex is_error calls then fcp_state q = FcError \<and> (\<exists>msg. last calls = OnError msg \<and> fcp_error q = Some msg)
         else fcp_state q = FcComplete \<and> fcp_error q = None
           \<and> (\<exists>s. fcp_shed q = Some (ffi_shed_of s) \<and> OnComplete s \<in> set calls \<and> sh_host s = cl_server_name (sc_client sc)))"
    using completed_shed_host [OF shed]
    by (intro exI [of _ "ffi_create_progress_of ?q"] conjI status)
      (auto simp: ffi_create_progress_of_def apply_sink_fold(1,2) split: if_splits)
  show "ffi_create_status other j (fold store_exec rest (ffi_create_cancel other j (fold store_exec ops store'))) = None"
    using create_cancel_is_final [OF late] by (simp add: ffi_create_status_def ffi_create_cancel_def j)
qed

definition demo_core :: shed_core where
  "demo_core = \<lparr>sc_client = demo_client\<rparr>"

definition demo_ffi_env :: ffi_env where
  "demo_ffi_env = \<lparr>fe_mint = (\<lambda>_. Inl (FfiTransport ''agent gone'')), fe_now = 0, fe_reply = NetError []\<rparr>"

definition demo_chunk :: "string \<Rightarrow> string \<Rightarrow> string" where
  "demo_chunk ev data = ''event: '' @ ev @ [CHR 0x0A] @ ''data: '' @ data @ [CHR 0x0A, CHR 0x0A]"

definition demo_stream :: create_reply where
  "demo_stream = CreateStream 200 [SChunk (demo_chunk ''progress'' ''building''), SChunk (demo_chunk ''complete'' ''S'')]"

definition demo_parse :: "string \<Rightarrow> json option" where
  "demo_parse s = (if s = ''S'' then Some (JObj [(''name'', JStr ''folio'')]) else None)"

lemma demo_feed:
  "feed (demo_chunk ''progress'' ''building'') sse_new
     = ([\<lparr>se_event = ''progress'', se_data = ''building''\<rparr>], sse_new)"
  "feed (demo_chunk ''complete'' ''S'') sse_new
     = ([\<lparr>se_event = ''complete'', se_data = ''S''\<rparr>], sse_new)"
  "fst (finish sse_new) = []"
  by code_simp+

lemma demo_task:
  "fst (ffi_create_task demo_parse demo_ffi_env req demo_stream demo_core)
     = [OnProgress ''building'', OnComplete (the (decode_shed (JObj [(''name'', JStr ''folio'')]))\<lparr>sh_host := ''mini3''\<rparr>)]"
proof -
  have d: "decode_shed (JObj [(''name'', JStr ''folio'')]) \<noteq> None" by code_simp
  then obtain sh where sh: "decode_shed (JObj [(''name'', JStr ''folio'')]) = Some sh" by blast
  show ?thesis
    by (simp add: demo_stream_def ffi_create_task_def create_shed_def Let_def create_stream_def demo_feed handle_create_event_def
        demo_parse_def decode_progress_def sh demo_core_def demo_client_def case_prod_unfold)
qed

theorem create_is_seen_by_every_core_witness:
  "\<exists>q. ffi_create_status (demo_core\<lparr>sc_client := demo_client\<lparr>cl_server_name := ''other''\<rparr>\<rparr>) ''c1''
        (fold store_exec
          ([SoSink ''c1'' (OnProgress ''building''), SoStart ''c2'', SoStarted ''c1'', SoCancel ''c2''] @
           [SoSink ''c1'' (OnComplete (the (decode_shed (JObj [(''name'', JStr ''folio'')]))\<lparr>sh_host := ''mini3''\<rparr>))])
          (create_start ''c1'' [])) = Some q
     \<and> fcp_state q = FcComplete \<and> fcp_messages q = [''building'']"
proof -
  let ?calls = "[OnProgress ''building'', OnComplete (the (decode_shed (JObj [(''name'', JStr ''folio'')]))\<lparr>sh_host := ''mini3''\<rparr>)]"
  let ?req = "\<lparr>fcr_name = ''folio'', fcr_repo = None, fcr_local_dir = None, fcr_image = None, fcr_backend = None, fcr_cpus = None,
    fcr_memory_mb = None, fcr_no_provision = None\<rparr>"
  obtain sc' where run: "ffi_create_task demo_parse demo_ffi_env (create_request_from_ffi ?req) demo_stream demo_core = (?calls, sc')"
    using demo_task [of "create_request_from_ffi ?req"] by (cases "ffi_create_task demo_parse demo_ffi_env (create_request_from_ffi ?req) demo_stream demo_core") auto
  have start: "ffi_create_start ''c1'' demo_core ?req [] = (create_start ''c1'' [], ''c1'', encode_create_shed_request (create_request_from_ffi ?req))"
    by (simp add: ffi_create_start_def)
  show ?thesis
    using create_is_seen_by_every_core [OF run start, of "[SoSink ''c1'' (OnProgress ''building''), SoStart ''c2'', SoStarted ''c1'', SoCancel ''c2'',
        SoSink ''c1'' (OnComplete (the (decode_shed (JObj [(''name'', JStr ''folio'')]))\<lparr>sh_host := ''mini3''\<rparr>))]" "[]"
        "demo_core\<lparr>sc_client := demo_client\<lparr>cl_server_name := ''other''\<rparr>\<rparr>"]
    by (simp del: fold_simps) blast
qed

end
