(* ===== verification/Spec2Isabelle.thy ===== *)
theory Spec2Isabelle
  imports Approval_Flow Audit_File Dbus_Safety Actor_Safety App_Start Ffi
begin

text \<open>
  Verification of shed-desktop, the desktop client of shed (\<^verbatim>\<open>src/core\<close> and \<^verbatim>\<open>src/tauri/src-tauri\<close>, Rust).

  \<^bold>\<open>The program.\<close> A host agent on the user's machine asks the app whether a remote development machine (a shed) may
  use a credential. The app decides by policy or asks the user, behind a native authentication gate, and answers; it
  keeps an audit log. Beside that it shows and drives the sheds of the configured servers over HTTP, starts terminals
  and remote-control sessions, and can be driven over a JSON socket by tests and by the tool \<^verbatim>\<open>shedctl\<close>. The parts
  and how they meet:

  \<^item> the host-agent client reads frames from the agent's socket and hands events to the coordinator; the coordinator
    answers through the client, shows notifications, runs gates and appends to the audit log;
  \<^item> the backend holds one HTTP client per configured server, each with a pinned certificate and a provider of control
    tokens that the host agent mints, and a store of the creates in flight;
  \<^item> the IPC handler and the commands of the web views are two surfaces on the same coordinator, backend, preferences,
    terminal control and remote-control service; the Swift app uses the HTTP client and the create store
    through the FFI instead;
  \<^item> the start of the app builds these objects from the environment and files, behind a single-instance lock.

  \<^bold>\<open>The theories\<close>, in the order of the code, and what their lemmas show.

  \<^item> \<^verbatim>\<open>Prelude\<close>: Rust's string operations on UTF-8 bytes, decimal text, 64-bit wrap-around, maps as association
    lists, and the locales \<^verbatim>\<open>machine\<close> (operations that keep an invariant keep it over runs) and \<^verbatim>\<open>wire_codec\<close>.
    \<^verbatim>\<open>Json\<close>: JSON values and the rules of serde's derived decoders.
  \<^item> \<^verbatim>\<open>Approval_Models\<close>, \<^verbatim>\<open>Policy\<close>, \<^verbatim>\<open>Protocol\<close> (\<^verbatim>\<open>shed-core/src/approval\<close>): the vocabulary, the decision of the policy
    engine, which refines a specification by specificity, and the wire protocol.
  \<^item> \<^verbatim>\<open>Timefmt\<close>, \<^verbatim>\<open>Audit_Store\<close>, \<^verbatim>\<open>Coordinator\<close> (\<^verbatim>\<open>shed-app/src\<close>): the actor's state is the record \<^verbatim>\<open>coord\<close>, its command
    loop \<^verbatim>\<open>run_command\<close>, one definition per method; responses, notifications, gate tasks and replies are an effect
    trace. \<^verbatim>\<open>Coordinator_Safety\<close> holds the invariant and the effects per handler, \<^verbatim>\<open>Coordinator_System\<close> the coordinator with
    its gate tasks in any interleaving, \<^verbatim>\<open>Coordinator_Theorems\<close>, \<^verbatim>\<open>Coordinator_Trace\<close> and \<^verbatim>\<open>Coordinator_Behaviour\<close> the
    properties: every approval is justified, gated approvals need native authentication, at most one answer per
    request, an audit record before every answer, what expiry, disconnect, grants, settings and persisted
    rules do. \<^verbatim>\<open>Actor\<close> models the tasks around it (the handle \<^verbatim>\<open>Coordinator\<close> that callers clone, its channel, the
    forwarder, the tick, the loop \<^verbatim>\<open>run\<close>, gate tasks that re-enter); \<^verbatim>\<open>Actor_Safety\<close> shows that this is an atomic
    coordinator, that calls are linearizable and that every call returns (with the handle's fallback value when the
    actor has stopped), so that the other theories take a call of the handle as one command (\<^verbatim>\<open>ask\<close>, see the lemma at the end of this theory). \<^verbatim>\<open>Audit_File\<close> is the log on disk: it reads
    back as the records written, one for every response.
  \<^item> \<^verbatim>\<open>Host_Agent\<close> with \<^verbatim>\<open>Host_Agent_Safety\<close> and \<^verbatim>\<open>Host_Agent_Framing\<close>: the connection loop, requests and framing; fail-closed
    when disconnected, every token request resumed once, only trusted peers are written to, frames independent of
    how bytes arrive. \<^verbatim>\<open>Approval_Flow\<close> composes the coordinator and the client: at most one answer on the wire.
  \<^item> \<^verbatim>\<open>Dbus_Notifier\<close>, \<^verbatim>\<open>Dbus_Safety\<close>, \<^verbatim>\<open>Native_Auth\<close> (\<^verbatim>\<open>approval.rs\<close>): the notifier of Linux with its tasks and the daemon
    interleaved, which leaves no banner behind, and the gates of the platforms, which approve only what the
    operating system confirmed.
  \<^item> \<^verbatim>\<open>Sse\<close>, \<^verbatim>\<open>Shed_Models\<close>, \<^verbatim>\<open>Token\<close>, \<^verbatim>\<open>Tls\<close>, \<^verbatim>\<open>Http\<close>, \<^verbatim>\<open>Create\<close>, \<^verbatim>\<open>Terminal\<close>, \<^verbatim>\<open>Config\<close>, \<^verbatim>\<open>Rc_Core\<close> (\<^verbatim>\<open>shed-core/src\<close>):
    event parsing, decoders, tokens without downgrade, pinning, requests with their one retry, creates that end,
    shell quoting, the configuration file in the shape of the repository's fixtures, remote-control commands. \<^verbatim>\<open>Backend\<close>, \<^verbatim>\<open>Rc_Service\<close> (\<^verbatim>\<open>shed-app/src\<close>): the facade over
    all servers and the session store.
  \<^item> \<^verbatim>\<open>Instance\<close>, \<^verbatim>\<open>Prefs\<close>, \<^verbatim>\<open>Ui_State\<close>, \<^verbatim>\<open>Termctl\<close>, \<^verbatim>\<open>Ipc\<close>, \<^verbatim>\<open>Commands\<close>, \<^verbatim>\<open>Window\<close>, \<^verbatim>\<open>App_Start\<close> (\<^verbatim>\<open>tauri/src-tauri/src\<close>): the
    environment and the lock, preferences that survive a restart, the reported snapshots, terminals and screenshots,
    every operation of the socket (\<^verbatim>\<open>op_table\<close>), every command of the web views and their agreement with the
    socket, the windows as a state machine, and the app as started. \<^verbatim>\<open>Ipc_Safety\<close> shows what a client of the socket
    cannot do (under test it starts nothing but the tools of \<^verbatim>\<open>app.screenshot\<close>) and that a refresh ends, \<^verbatim>\<open>Ipc_Server\<close>
    the framing, the shape of replies and the error codes in use, which are not those that the documentation lists.
  \<^item> \<^verbatim>\<open>Shedctl\<close> (\<^verbatim>\<open>shedctl/src/main.rs\<close>) and \<^verbatim>\<open>Ffi\<close> (\<^verbatim>\<open>shed-core-ffi/src/lib.rs\<close>): the tool prints what the app answers; the
    Swift bridge loses nothing and its creates are seen from every object.

  \<^bold>\<open>How state and operations are modelled.\<close> A struct is a record and an enum a datatype with its variants; a method
  that changes its object is a function on the record, and what it makes others do is appended to a list of effects or
  returned. Code that holds a lock for a whole method is one step; where it does not (creates, the notifier's tasks,
  the lock file, settings commands, gate tasks, callers of the coordinator) the steps are separate and the theorems quantify over their
  interleavings. Errors are values of a sum or option type. A Rust \<^verbatim>\<open>String\<close> is its UTF-8 bytes; \<^verbatim>\<open>i64\<close> values are integers
  with the wrap-around written where the code multiplies or casts.

  Specifications that a routine is compared with do not call its code: the policy by specificity, the rules that
  settings stand for (\<^verbatim>\<open>settings_rules\<close>), the words of a POSIX shell with its own set of special characters
  (\<^verbatim>\<open>sh_special\<close>), the lines of a configuration file (\<^verbatim>\<open>text_of_file\<close>) and its entries (\<^verbatim>\<open>block_entry\<close>), the lines of a stream.
  Two simplifications: the clock is read once per command of the coordinator (\<^verbatim>\<open>cenv\<close>), where the code reads it again
  within one; and the requests of a client use its token cache one after the other, where clones of a client share it.

  \<^bold>\<open>Parameters.\<close> Code outside the repository is an argument: serde\_json's text reader and writer, chrono, the regex
  engine, SHA-256, rustls, reqwest's answers, zbus and the notification daemon, LocalAuthentication and pkcheck, the file
  system, processes, clocks and fresh ids. What a theorem needs of them is a hypothesis (a value is written and read
  back as a line, a digest equals another), and the witness of the theorem instantiates them. Tokio's tasks and channels are the
  interleaving itself: a spawned task is a step that may happen later, a channel a queue in the order of the sends.

  \<^bold>\<open>Termination and bounds.\<close> No definition uses fuel. The coordinator's loop is unbounded; its theorem counts turns: a
  queued command needs one, a notification action two (it queues a decide). The loops that are not structural (the frame reader, the refresh
  wait, the connection's lines, the timestamp suffixes, UTF-8 decoding, the configuration's lines) have
  measures; the refresh ends because every poll advances the clock by 15 ms up to 10 s. The frame caps are those of the
  code (1 MiB), the popover's height is between 120 and 640.

  \<^bold>\<open>Interfaces\<close> are locales with an interpretation on the model: \<^verbatim>\<open>machine\<close> (the invariants of the
  state machines), \<^verbatim>\<open>wire_codec\<close> (the encoded records that are read back), \<^verbatim>\<open>token_minter\<close> (the host-agent minter),
  \<^verbatim>\<open>responder\<close> (the host-agent client), \<^verbatim>\<open>notifier\<close> (the fake and the D-Bus one), \<^verbatim>\<open>auth_gate\<close> (the three native gates and
  the gate chosen per platform).

  \<^bold>\<open>Not modelled.\<close> The Swift app and the TypeScript front end (other languages); UniFFI's and Tauri's generated glue,
  the builders of menus, trays and windows; the redirects that reqwest follows (only to https, by the client's
  policy); the accept loop and the socket calls themselves; the message texts of
  serde's and chrono's errors; labels of the settings (\<^verbatim>\<open>label\<close>, \<^verbatim>\<open>ALL\<close>), which only the Swift app shows; the usage
  text of \<^verbatim>\<open>shedctl\<close>; and every test module.
\<close>

section \<open>A call of the handle as one command\<close>

lemma deliver_answer:
  "ac_calls a r = Waiting \<Longrightarrow> ac_alive a \<Longrightarrow>
   ac_calls (fold apply_effect fxs a) r = (case answer_to r fxs of Some x \<Rightarrow> Ready x | None \<Rightarrow> Waiting)"
proof (induction fxs arbitrary: a)
  case Nil
  then show ?case by (simp add: answer_to_def)
next
  case (Cons e fxs)
  show ?case
  proof (cases "\<exists>x. e = FxReply r x")
    case True
    then obtain x where e: "e = FxReply r x" by blast
    have "ac_calls (fold apply_effect fxs (settle r (Ready x) a)) r = Ready x"
      using deliver_calls [of fxs "settle r (Ready x) a" r] Cons.prems by fastforce
    then show ?thesis by (simp add: e answer_to_def)
  next
    case False
    then have "ac_calls (apply_effect e a) r = Waiting" "ac_alive (apply_effect e a)" using Cons.prems by (cases e; simp)+
    moreover have "answer_to r (e # fxs) = answer_to r fxs" using False by (cases e) (auto simp: answer_to_def)
    ultimately show ?thesis using Cons.IH by simp
  qed
qed

text \<open>
  The IPC handler and the commands of the web views ask the coordinator in one step. On a live actor with an empty
  mailbox that step is the call of the handle followed by one turn of the loop: the same answer (none while a gate
  is open) and the same state.
\<close>

lemma ask_is_a_call_and_a_turn:
  assumes "ac_alive a" "ac_mailbox a = []" "ac_state a = ax_coord x" "wo_reply w = ac_next a"
    and "coordinator_call k a = (r, a1)"
  shows "fst (ask w (call_command k r) x) = Option.bind (co_await r (run_loop_turn (wo_cenv w) a1)) id"
    and "ax_coord (snd (ask w (call_command k r) x)) = ac_state (run_loop_turn (wo_cenv w) a1)"
proof -
  have r: "r = ac_next a" and a1: "ac_mailbox a1 = [call_command k r]" "ac_state a1 = ax_coord x" "ac_alive a1"
      "ac_calls a1 r = Waiting"
    using assms by (auto simp: coordinator_call_eq)
  show "ax_coord (snd (ask w (call_command k r) x)) = ac_state (run_loop_turn (wo_cenv w) a1)"
    using a1 by (simp add: ask_def ax_def Let_def run_loop_turn_def)
  have "ac_calls (run_loop_turn (wo_cenv w) a1) r
      = (case answer_to r (new_fx (wo_cenv w) (call_command k r) (ax_coord x)) of Some v \<Rightarrow> Ready v | None \<Rightarrow> Waiting)"
    using a1 by (simp add: run_loop_turn_def deliver_answer)
  then show "fst (ask w (call_command k r) x) = Option.bind (co_await r (run_loop_turn (wo_cenv w) a1)) id"
    using r assms(4) by (simp add: ask_def Let_def new_fx_def co_await_def split: option.splits)
qed

end
